(* ===== verification/Prelude.thy ===== *)
theory Prelude
  imports Main "HOL-Library.Word"
begin

text \<open>
  What every component of the development shares: the machine integers of the
  32-bit ARM target, the program type into which the C functions are translated
  (explicit state passing with the ways a C function may fail to return as
  values), the weakest precondition of such a program with its rules, and the
  byte-buffer operations of the C library (\<^verbatim>\<open>memset\<close>, \<^verbatim>\<open>memcpy\<close>, \<^verbatim>\<open>memcmp\<close>,
  \<^verbatim>\<open>strcmp\<close>, \<^verbatim>\<open>strncmp\<close>) with their lemmas.
\<close>

unbundle bit_operations_syntax

named_theorems wp_simps \<open>equations that compute a weakest precondition\<close>
named_theorems prog_simps \<open>equations that run a program on a state\<close>
named_theorems keeps_intros \<open>programs that keep an observation of the world\<close>

section \<open>Machine integers\<close>

type_synonym byte = "8 word"
type_synonym u32 = "32 word"

text \<open>\<^verbatim>\<open>size_t\<close>, \<^verbatim>\<open>unsigned int\<close> and pointers have 32 bits on the Cortex-A7 target.\<close>

section \<open>Programs\<close>

text \<open>
  How a C function may fail to return to its caller: \<open>Abort\<close> (a call of
  \<^verbatim>\<open>abort()\<close>), \<open>AssertFail\<close> (an \<^verbatim>\<open>assert\<close> whose condition is false),
  \<open>NoReturn\<close> (a polling loop that has not ended within its fuel) and
  \<open>BadAccess\<close> (an access the C standard leaves undefined: a NULL or freed
  pointer, or a range outside its object).
\<close>

datatype stop = Abort | AssertFail | NoReturn | BadAccess

type_synonym ('s, 'a) prog = "'s \<Rightarrow> stop + ('a \<times> 's)"

definition mret :: "'a \<Rightarrow> ('s, 'a) prog" where
  "mret x = (\<lambda>s. Inr (x, s))"

definition mbind :: "('s, 'a) prog \<Rightarrow> ('a \<Rightarrow> ('s, 'b) prog) \<Rightarrow> ('s, 'b) prog" where
  "mbind m k = (\<lambda>s. case m s of Inl e \<Rightarrow> Inl e | Inr (x, s') \<Rightarrow> k x s')"

definition mthen :: "('s, 'a) prog \<Rightarrow> ('s, 'b) prog \<Rightarrow> ('s, 'b) prog" where
  "mthen m k = mbind m (\<lambda>_. k)"

definition mstop :: "stop \<Rightarrow> ('s, 'a) prog" where
  "mstop e = (\<lambda>_. Inl e)"

definition mget :: "('s \<Rightarrow> 'a) \<Rightarrow> ('s, 'a) prog" where
  "mget f = (\<lambda>s. Inr (f s, s))"

definition mmod :: "('s \<Rightarrow> 's) \<Rightarrow> ('s, unit) prog" where
  "mmod f = (\<lambda>s. Inr ((), f s))"

definition massert :: "bool \<Rightarrow> ('s, unit) prog" where
  "massert b = (if b then mret () else mstop AssertFail)"

text \<open>An access that is only defined when \<open>b\<close> holds.\<close>

definition mcheck :: "bool \<Rightarrow> ('s, unit) prog" where
  "mcheck b = (if b then mret () else mstop BadAccess)"

text \<open>Following a pointer that may be NULL or dangling (\<open>None\<close>).\<close>

definition mderef :: "('s \<Rightarrow> 'a option) \<Rightarrow> ('s, 'a) prog" where
  "mderef f = (\<lambda>s. case f s of None \<Rightarrow> Inl BadAccess | Some x \<Rightarrow> Inr (x, s))"

lemma prog_run [prog_simps]:
  "mret x s = Inr (x, s)"
  "mbind m k s = (case m s of Inl e \<Rightarrow> Inl e | Inr (x, s') \<Rightarrow> k x s')"
  "mthen m n s = (case m s of Inl e \<Rightarrow> Inl e | Inr (x, s') \<Rightarrow> n s')"
  "mstop e s = Inl e"
  "mget f s = Inr (f s, s)"
  "mmod g s = Inr ((), g s)"
  "massert b s = (if b then Inr ((), s) else Inl AssertFail)"
  "mcheck b s = (if b then Inr ((), s) else Inl BadAccess)"
  "mderef h s = (case h s of None \<Rightarrow> Inl BadAccess | Some x \<Rightarrow> Inr (x, s))"
  by (simp_all add: mret_def mbind_def mthen_def mstop_def mget_def mmod_def massert_def
      mcheck_def mderef_def)

section \<open>Weakest preconditions\<close>

text \<open>
  \<open>wp m Q s\<close>: run from \<open>s\<close>, the program \<open>m\<close> performs no undefined
  access, and if it returns, its result and final state satisfy \<open>Q\<close>. Memory
  safety is part of it; an abort, a failed assertion and a poll that does
  not end satisfy every postcondition, and a claim that a program returns is stated
  as such.
\<close>

definition wp :: "('s, 'a) prog \<Rightarrow> ('a \<Rightarrow> 's \<Rightarrow> bool) \<Rightarrow> 's \<Rightarrow> bool" where
  "wp m Q s \<longleftrightarrow> (case m s of Inl e \<Rightarrow> e \<noteq> BadAccess | Inr (x, s') \<Rightarrow> Q x s')"

lemma wp_basic [wp_simps, simp]:
  "wp (mret x) Q s = Q x s"
  "wp (mbind m k) Q s = wp m (\<lambda>x s'. wp (k x) Q s') s"
  "wp (mthen m n) Q s = wp m (\<lambda>_ s'. wp n Q s') s"
  "wp (mstop e) Q s = (e \<noteq> BadAccess)"
  "wp (mget f) Q s = Q (f s) s"
  "wp (mmod g) R s = R () (g s)"
  "wp (massert b) R s = (b \<longrightarrow> R () s)"
  "wp (mcheck b) R s = (b \<and> R () s)"
  by (auto simp: wp_def prog_simps split: sum.splits)

lemma wp_mderef [wp_simps, simp]:
  "wp (mderef h) Q s = (\<exists>x. h s = Some x \<and> Q x s)"
  by (auto simp: wp_def prog_simps split: option.splits)

lemma wp_if [wp_simps, simp]:
  "wp (if b then m else n) Q s = (if b then wp m Q s else wp n Q s)"
  by simp

lemma wp_mono:
  assumes "wp m Q s" and "\<And>x s'. Q x s' \<Longrightarrow> R x s'"
  shows "wp m R s"
  using assms by (auto simp: wp_def split: sum.splits)

lemma wpD: "wp m Q s \<Longrightarrow> m s = Inr (x, s') \<Longrightarrow> Q x s'"
  by (simp add: wp_def)

lemma wp_safe: "wp m Q s \<Longrightarrow> m s \<noteq> Inl BadAccess"
  by (auto simp: wp_def)

section \<open>Byte buffers\<close>

text \<open>
  \<open>overwrite off bs xs\<close> overwrites \<open>xs\<close> from \<open>off\<close> on with \<open>bs\<close>. The
  operations that use it check the range first.
\<close>

definition overwrite :: "nat \<Rightarrow> 'a list \<Rightarrow> 'a list \<Rightarrow> 'a list" where
  "overwrite off bs xs = take off xs @ bs @ drop (off + length bs) xs"

lemma length_overwrite [simp]:
  "off + length bs \<le> length xs \<Longrightarrow> length (overwrite off bs xs) = length xs"
  by (simp add: overwrite_def)

lemma overwrite_Nil [simp]: "overwrite off [] xs = xs"
  by (simp add: overwrite_def)

lemma nth_overwrite:
  assumes "off + length bs \<le> length xs"
  shows "overwrite off bs xs ! i =
    (if i < off then xs ! i else if i < off + length bs then bs ! (i - off) else xs ! i)"
proof (cases "i < off \<or> i < off + length bs")
  case True
  with assms show ?thesis by (auto simp: overwrite_def nth_append)
next
  case False
  then have i: "\<not> i < off" "\<not> i - off < length bs" by auto
  have "length (take off xs) = off" using assms by simp
  with i have "overwrite off bs xs ! i = drop (off + length bs) xs ! (i - off - length bs)"
    by (simp add: overwrite_def nth_append)
  also have "\<dots> = xs ! i"
    using assms False by (simp add: nth_drop)
  finally show ?thesis using False by simp
qed

lemma take_overwrite [simp]: "off \<le> length xs \<Longrightarrow> take off (overwrite off bs xs) = take off xs"
  by (simp add: overwrite_def)

lemma drop_overwrite [simp]:
  "off + length bs \<le> length xs \<Longrightarrow> n = off + length bs \<Longrightarrow> drop n (overwrite off bs xs) = drop n xs"
  by (simp add: overwrite_def)

lemma overwrite_overwrite_same [simp]:
  assumes "off + length bs \<le> length xs" and "length cs = length bs"
  shows "overwrite off cs (overwrite off bs xs) = overwrite off cs xs"
  using assms by (simp add: overwrite_def)

lemma overwrite_own: "off + n \<le> length xs \<Longrightarrow> overwrite off (take n (drop off xs)) xs = xs"
  by (simp add: overwrite_def) (metis add.commute append_take_drop_id drop_drop)

lemma overwrite_append:
  assumes "off + length bs + length cs \<le> length xs"
  shows "overwrite (off + length bs) cs (overwrite off bs xs) = overwrite off (bs @ cs) xs"
proof (rule nth_equalityI)
  show "length (overwrite (off + length bs) cs (overwrite off bs xs)) =
    length (overwrite off (bs @ cs) xs)" using assms by simp
  fix i assume "i < length (overwrite (off + length bs) cs (overwrite off bs xs))"
  then show "overwrite (off + length bs) cs (overwrite off bs xs) ! i =
    overwrite off (bs @ cs) xs ! i"
    using assms by (auto simp: nth_overwrite nth_append)
qed

text \<open>Overwriting a prefix of a range changes at most the range.\<close>

lemma overwrite_pad:
  assumes "length bs \<le> n" and "off + n \<le> length xs"
  shows "\<exists>cs. length cs = n \<and> overwrite off bs xs = overwrite off cs xs"
proof -
  let ?ys = "overwrite off bs xs" and ?k = "n - length bs"
  let ?tl = "take ?k (drop (off + length bs) ?ys)"
  have len: "length ?ys = length xs" using assms by simp
  have "overwrite off (bs @ ?tl) xs = overwrite (off + length bs) ?tl ?ys"
    using assms len by (subst overwrite_append) (simp_all add: min_def)
  also have "\<dots> = ?ys" using assms len by (intro overwrite_own) simp
  finally show ?thesis using assms len by (intro exI [of _ "bs @ ?tl"]) simp
qed

text \<open>A buffer that holds no secret any more: every byte is zero.\<close>

definition all_zero :: "byte list \<Rightarrow> bool" where
  "all_zero bs \<longleftrightarrow> list_all (\<lambda>b. b = 0) bs"

lemma all_zero_simps [simp]:
  "all_zero []" "all_zero (b # bs) \<longleftrightarrow> b = 0 \<and> all_zero bs"
  "all_zero (xs @ ys) \<longleftrightarrow> all_zero xs \<and> all_zero ys"
  "all_zero (replicate n 0)"
  by (auto simp: all_zero_def list_all_iff)

lemma all_zero_iff: "all_zero bs \<longleftrightarrow> bs = replicate (length bs) 0"
  by (induction bs) (auto simp: all_zero_def)

lemma all_zero_drop [simp]: "all_zero xs \<Longrightarrow> all_zero (drop n xs)"
  by (auto simp: all_zero_def list_all_iff dest: in_set_dropD)

lemma all_zero_take [simp]: "all_zero xs \<Longrightarrow> all_zero (take n xs)"
  by (auto simp: all_zero_def list_all_iff dest: in_set_takeD)

lemma all_zero_overwrite_zeros:
  "n \<le> length xs \<Longrightarrow> all_zero (drop n xs) \<Longrightarrow> all_zero (overwrite 0 (replicate n 0) xs)"
  by (simp add: overwrite_def)

lemma overwrite_zeros:
  assumes "all_zero xs" and "n \<le> length xs"
  shows "overwrite 0 (replicate n 0) xs = xs"
proof -
  have "take n xs = replicate n 0"
    using assms all_zero_take [of xs n] by (simp add: all_zero_iff [of "take n xs"] min_def)
  then show ?thesis using overwrite_own [of 0 n xs] assms(2) by simp
qed

lemma all_zero_drop_overwrite:
  "length bs \<le> length xs \<Longrightarrow> all_zero xs \<Longrightarrow> all_zero (drop (length bs) (overwrite 0 bs xs))"
  by (simp add: overwrite_def)

section \<open>Little-endian words\<close>

definition le32 :: "u32 \<Rightarrow> byte list" where
  "le32 w = [ucast w, ucast (drop_bit 8 w), ucast (drop_bit 16 w), ucast (drop_bit 24 w)]"

definition of_le32 :: "byte list \<Rightarrow> u32" where
  "of_le32 bs = ucast (bs ! 0) OR push_bit 8 (ucast (bs ! 1)) OR push_bit 16 (ucast (bs ! 2))
     OR push_bit 24 (ucast (bs ! 3))"

definition words_bytes :: "u32 list \<Rightarrow> byte list" where
  "words_bytes ws = concat (map le32 ws)"

lemma length_le32 [simp]: "length (le32 w) = 4"
  by (simp add: le32_def)

lemma length_words_bytes [simp]: "length (words_bytes ws) = 4 * length ws"
  by (induction ws) (simp_all add: words_bytes_def)

lemma of_le32_le32: "of_le32 (le32 w) = w"
proof (rule bit_eqI)
  fix n assume "possible_bit TYPE(u32) n"
  then have n: "n < 32" by simp
  then consider "n < 8" | "8 \<le> n" "n < 16" | "16 \<le> n" "n < 24" | "24 \<le> n" "n < 32"
    by linarith
  then show "bit (of_le32 (le32 w)) n = bit w n"
    by cases (insert n, auto simp: of_le32_def le32_def bit_or_iff bit_push_bit_iff
        bit_ucast_iff bit_drop_bit_eq)
qed

section \<open>The C string and memory comparisons\<close>

text \<open>
  \<^verbatim>\<open>memcmp(p, q, n) == 0\<close> and \<^verbatim>\<open>strcmp(s, t) == 0\<close>. A C string is the bytes of
  its object up to the first zero byte; reading past the end of the object without
  meeting one is undefined (\<open>None\<close>).
\<close>

definition memcmp_eq :: "byte list \<Rightarrow> byte list \<Rightarrow> nat \<Rightarrow> bool" where
  "memcmp_eq p q n \<longleftrightarrow> take n p = take n q"

fun cstr :: "byte list \<Rightarrow> byte list option" where
  "cstr [] = None"
| "cstr (b # bs) = (if b = 0 then Some [] else map_option ((#) b) (cstr bs))"

lemma cstr_takeWhile: "0 \<in> set bs \<Longrightarrow> cstr bs = Some (takeWhile (\<lambda>b. b \<noteq> 0) bs)"
  by (induction bs) auto

fun strcmp_eq :: "byte list \<Rightarrow> byte list \<Rightarrow> bool option" where
  "strcmp_eq (a # s) (b # t) =
     (if a \<noteq> b then Some False else if a = 0 then Some True else strcmp_eq s t)"
| "strcmp_eq [] t = None"
| "strcmp_eq s [] = None"

lemma strcmp_eq_cstr:
  "0 \<in> set s \<Longrightarrow> 0 \<in> set t \<Longrightarrow> strcmp_eq s t = Some (cstr s = cstr t)"
  by (induction s t rule: strcmp_eq.induct) (auto simp: cstr_takeWhile)

text \<open>
  \<^verbatim>\<open>strncmp(s, t, n) == 0\<close>: the first \<open>n\<close> bytes agree, or both strings end at
  the same place before that.
\<close>

fun strncmp_eq :: "byte list \<Rightarrow> byte list \<Rightarrow> nat \<Rightarrow> bool" where
  "strncmp_eq s t 0 = True"
| "strncmp_eq (a # s) (b # t) (Suc n) = (a = b \<and> (a = 0 \<or> strncmp_eq s t n))"
| "strncmp_eq [] [] (Suc n) = True"
| "strncmp_eq [] (b # t) (Suc n) = (b = 0)"
| "strncmp_eq (a # s) [] (Suc n) = (a = 0)"

text \<open>The bytes of a string literal, with its terminating zero.\<close>

definition clit :: "string \<Rightarrow> byte list" where
  "clit s = map (\<lambda>c. of_char c) s @ [0]"

end
