(* ===== verification/Trusty_Env.thy ===== *)
theory Trusty_Env
  imports Prelude
begin

text \<open>
  The environment of the application: everything the sources call that is not part of
  the repository. The Trusty kernel's system calls, the LK register and list headers,
  the CAAM hardware behind its registers, the allocator's verdicts and BoringSSL's
  HKDF are the fields of the record \<open>env\<close>, an argument of every definition that
  uses them; they act on an opaque world of type \<open>'w\<close>. The constants of the Trusty
  headers (error codes, command codes of the hwkey interface, structure sizes) and of the
  header generated from nxp_hwcrypto_uuid_consts.json are
  fields too, since their values are not in the repository. What the program relies
  on is stated as the named predicates at the end of this theory.

  The C objects that are shared with the device or passed between functions by address
  are blocks of bytes (\<open>cobj\<close>); a pointer is a block and an offset.
\<close>

section \<open>C objects and pointers\<close>

datatype cobj =
    Null              \<comment> \<open>what \<^verbatim>\<open>NULL\<close> points to: no bytes\<close>
  | Rings             \<comment> \<open>\<^verbatim>\<open>*g_rings\<close>\<close>
  | Job_dsc           \<comment> \<open>\<^verbatim>\<open>g_job->dsc\<close>\<close>
  | Key_data          \<comment> \<open>\<^verbatim>\<open>key_data\<close> of hwkey_srv.c\<close>
  | Req_data          \<comment> \<open>\<^verbatim>\<open>req_data\<close> of hwkey_srv.c\<close>
  | Rng_data          \<comment> \<open>\<^verbatim>\<open>rng_data\<close> of hwrng_srv.c\<close>
  | Kdfv1_key         \<comment> \<open>\<^verbatim>\<open>kdfv1_key\<close> of hwkey_srv_provider.c\<close>
  | Skeymod           \<comment> \<open>\<^verbatim>\<open>skeymod\<close> of hwkey_srv_provider.c\<close>
  | Rpmb_keyblob      \<comment> \<open>\<^verbatim>\<open>rpmb_keyblob\<close> of hwkey_srv_provider.c\<close>
  | Unittest_key32    \<comment> \<open>\<^verbatim>\<open>_unittest_key32\<close> of hwkey_srv.c\<close>
  | Sram              \<comment> \<open>the CAAM secure RAM mapped at \<^verbatim>\<open>sram_base\<close>\<close>
  | Local string      \<comment> \<open>a buffer on the stack of a self test\<close>

type_synonym cptr = "cobj \<times> nat"
type_synonym handle = int
type_synonym uuid = "byte list"

datatype dma_flag = DMA_FLAG_TO_DEVICE | DMA_FLAG_FROM_DEVICE | DMA_FLAG_ALLOW_PARTIAL

datatype poll_flag =
    IPC_HANDLE_POLL_READY | IPC_HANDLE_POLL_ERROR | IPC_HANDLE_POLL_HUP
  | IPC_HANDLE_POLL_MSG | IPC_HANDLE_POLL_SEND_UNBLOCKED

text \<open>
  A bit mask of named flags is the set of its flags: the program only joins flags and
  tests them, so no numeric value matters; \<^verbatim>\<open>IPC_HANDLE_POLL_NONE\<close> is the empty set.
\<close>

record dma_pmem =
  paddr :: "64 word"
  pm_size :: u32

text \<open>
  The addresses the program registers with \<^verbatim>\<open>set_cookie\<close>: those of the two static
  event handlers and of the \<^verbatim>\<open>evt_handler\<close> member of a channel context.
\<close>

datatype cookie =
    Hwkey_port_cookie | Hwrng_port_cookie | Hwkey_chan_cookie nat | Hwrng_chan_cookie nat

record uevent =
  ev_handle :: handle
  ev_event :: "poll_flag set"
  ev_cookie :: "cookie option"

record ipc_msg_info =
  msg_len :: nat
  msg_id :: u32

text \<open>The members of \<^verbatim>\<open>struct hwkey_msg\<close> the program touches; the others stay as they came.\<close>

record hwkey_msg =
  cmd :: u32
  status :: u32
  arg1 :: u32
  hdr_rest :: "byte list"

datatype mach = MACH_IMX6 | MACH_IMX7

section \<open>The environment\<close>

record 'w env =
  \<comment> \<open>build configuration\<close>
  mach_type :: mach
  with_caam_self_test :: bool
  with_hwcrypto_unittest :: bool
  \<comment> \<open>constants of the Trusty headers\<close>
  ERR_GENERIC :: int
  ERR_NO_MEMORY :: int
  ERR_BAD_LEN :: int
  ERR_NOT_ENOUGH_BUFFER :: int
  INVALID_IPC_HANDLE :: handle
  HWKEY_PORT :: string
  HWRNG_PORT :: string
  SECURE_STORAGE_SERVER_APP_UUID :: uuid
  HWCRYPTO_UNITTEST_APP_UUID :: uuid
  HWKEY_GET_KEYSLOT :: u32
  HWKEY_DERIVE :: u32
  HWKEY_RESP_BIT :: u32
  HWKEY_KDF_VERSION_BEST :: u32
  HWKEY_KDF_VERSION_1 :: u32
  HWKEY_NO_ERROR :: u32
  HWKEY_ERR_GENERIC :: u32
  HWKEY_ERR_NOT_FOUND :: u32
  HWKEY_ERR_BAD_LEN :: u32
  HWKEY_ERR_NOT_IMPLEMENTED :: u32
  sizeof_hwkey_msg :: nat
  hwkey_msg_of :: "byte list \<Rightarrow> hwkey_msg"
  bytes_of_hwkey_msg :: "hwkey_msg \<Rightarrow> byte list"
  sizeof_hwrng_req :: nat
  hwrng_req_len :: "byte list \<Rightarrow> u32"
  \<comment> \<open>memory-mapped registers (lk/reg.h) and the device behind them\<close>
  k_readl :: "u32 \<Rightarrow> 'w \<Rightarrow> u32 \<times> 'w"
  k_writel :: "u32 \<Rightarrow> u32 \<Rightarrow> 'w \<Rightarrow> 'w"
  poll_fuel :: nat
  \<comment> \<open>DMA and memory system calls\<close>
  k_mmap :: "u32 \<Rightarrow> int \<Rightarrow> 'w \<Rightarrow> u32 \<times> 'w"
  k_memalign :: "u32 \<Rightarrow> u32 \<Rightarrow> 'w \<Rightarrow> (nat \<Rightarrow> u32) option \<times> 'w"
  k_calloc :: "'w \<Rightarrow> bool \<times> 'w"
  stack_garbage :: "'w \<Rightarrow> string \<Rightarrow> nat \<Rightarrow> byte"
  k_prepare_dma :: "cptr \<Rightarrow> byte list \<Rightarrow> u32 \<Rightarrow> dma_flag set \<Rightarrow> 'w \<Rightarrow> (int \<times> dma_pmem) \<times> 'w"
  k_finish_dma :: "cptr \<Rightarrow> u32 \<Rightarrow> 'w \<Rightarrow> 'w"
  dma_ram :: "'w \<Rightarrow> cptr \<Rightarrow> nat \<Rightarrow> byte"
  dma_early :: "'w \<Rightarrow> cptr \<Rightarrow> nat \<Rightarrow> byte"
  \<comment> \<open>Trusty IPC system calls\<close>
  k_port_create :: "string \<Rightarrow> u32 \<Rightarrow> u32 \<Rightarrow> 'w \<Rightarrow> int \<times> 'w"
  k_set_cookie :: "handle \<Rightarrow> cookie \<Rightarrow> 'w \<Rightarrow> int \<times> 'w"
  k_accept :: "handle \<Rightarrow> 'w \<Rightarrow> (int \<times> uuid) \<times> 'w"
  k_close :: "handle \<Rightarrow> 'w \<Rightarrow> 'w"
  k_get_msg :: "handle \<Rightarrow> 'w \<Rightarrow> (int \<times> ipc_msg_info) \<times> 'w"
  k_read_msg :: "handle \<Rightarrow> u32 \<Rightarrow> nat list \<Rightarrow> 'w \<Rightarrow> (int \<times> byte list) \<times> 'w"
  k_put_msg :: "handle \<Rightarrow> u32 \<Rightarrow> 'w \<Rightarrow> 'w"
  k_send_msg :: "handle \<Rightarrow> byte list list \<Rightarrow> 'w \<Rightarrow> int \<times> 'w"
  k_wait_any :: "'w \<Rightarrow> (int \<times> uevent) \<times> 'w"
  \<comment> \<open>BoringSSL: \<open>HKDF out_len secret salt info\<close> with SHA-256: success and the bytes written\<close>
  HKDF :: "nat \<Rightarrow> byte list \<Rightarrow> byte list \<Rightarrow> byte list \<Rightarrow> bool \<times> (nat \<Rightarrow> byte)"
  \<comment> \<open>lk/list.h, on the sequence of the list's entries\<close>
  list_in_list :: "nat list \<Rightarrow> nat \<Rightarrow> bool"
  list_add_tail :: "nat list \<Rightarrow> nat \<Rightarrow> nat list"
  list_delete :: "nat list \<Rightarrow> nat \<Rightarrow> nat list"

text \<open>
  \<open>dma_ram\<close> is what the device has left in memory at an address, which the CPU sees
  after \<^verbatim>\<open>finish_dma\<close>; \<open>dma_early\<close> is what the CPU may see of a buffer the device
  has written before \<^verbatim>\<open>finish_dma\<close> has dropped its cached copy. \<open>poll_fuel\<close> is the
  number of reads after which a polling loop counts as not returning. \<open>k_memalign\<close>
  gives the words a fresh block happens to hold, or no block; \<open>k_calloc\<close> says whether
  there is memory for a context; \<open>stack_garbage\<close> is what an uninitialised local buffer
  happens to hold.
\<close>

section \<open>The machine state and the system calls\<close>

record 'w machine =
  world :: 'w
  mem :: "cobj \<Rightarrow> byte list"
  dma_windows :: "(cptr \<times> nat) list"
  heap_next :: nat

text \<open>
  \<open>mem\<close> holds the byte objects, \<open>dma_windows\<close> the ranges the device may write, and
  \<open>heap_next\<close> is the next address \<^verbatim>\<open>calloc\<close> gives out: addresses are never 0, which is
  NULL, and never given out twice, so that a dangling pointer stays one.
\<close>

definition sys :: "('w \<Rightarrow> 'a \<times> 'w) \<Rightarrow> (('w, 'z) machine_scheme, 'a) prog" where
  "sys f = (\<lambda>s. case f (world s) of (x, w) \<Rightarrow> Inr (x, s\<lparr>world := w\<rparr>))"

definition sys_do :: "('w \<Rightarrow> 'w) \<Rightarrow> (('w, 'z) machine_scheme, unit) prog" where
  "sys_do f = mmod (\<lambda>s. s\<lparr>world := f (world s)\<rparr>)"

definition readl :: "'w env \<Rightarrow> u32 \<Rightarrow> (('w, 'z) machine_scheme, u32) prog" where
  "readl E a = sys (k_readl E a)"

definition writel :: "'w env \<Rightarrow> u32 \<Rightarrow> u32 \<Rightarrow> (('w, 'z) machine_scheme, unit) prog" where
  "writel E v a = sys_do (k_writel E v a)"

definition close :: "'w env \<Rightarrow> handle \<Rightarrow> (('w, 'z) machine_scheme, unit) prog" where
  "close E h = sys_do (k_close E h)"

definition calloc :: "'w env \<Rightarrow> (('w, 'z) machine_scheme, nat) prog" where
  "calloc E = mbind (sys (k_calloc E)) (\<lambda>ok.
     if \<not> ok then mret 0 else
     mbind (mget heap_next) (\<lambda>p.
     mthen (mmod (\<lambda>s. s\<lparr>heap_next := Suc p\<rparr>))
     (mret p)))"

text \<open>Reading and writing a range of a C object; outside the object it is undefined.\<close>

definition in_obj :: "('w, 'z) machine_scheme \<Rightarrow> cptr \<Rightarrow> nat \<Rightarrow> bool" where
  "in_obj s p n \<longleftrightarrow> snd p + n \<le> length (mem s (fst p))"

definition mread :: "cptr \<Rightarrow> nat \<Rightarrow> (('w, 'z) machine_scheme, byte list) prog" where
  "mread p n = mbind (mget (\<lambda>s. in_obj s p n)) (\<lambda>ok.
     mthen (mcheck ok)
     (mget (\<lambda>s. take n (drop (snd p) (mem s (fst p))))))"

definition put_mem :: "cptr \<Rightarrow> byte list \<Rightarrow> ('w, 'z) machine_scheme \<Rightarrow> ('w, 'z) machine_scheme" where
  "put_mem p bs s = s\<lparr>mem := (mem s)(fst p := overwrite (snd p) bs (mem s (fst p)))\<rparr>"

definition mwrite :: "cptr \<Rightarrow> byte list \<Rightarrow> (('w, 'z) machine_scheme, unit) prog" where
  "mwrite p bs = mbind (mget (\<lambda>s. in_obj s p (length bs))) (\<lambda>ok.
     mthen (mcheck ok) (mmod (put_mem p bs)))"

definition memset :: "cptr \<Rightarrow> byte \<Rightarrow> nat \<Rightarrow> (('w, 'z) machine_scheme, unit) prog" where
  "memset p v n = mwrite p (replicate n v)"

definition memcpy :: "cptr \<Rightarrow> cptr \<Rightarrow> nat \<Rightarrow> (('w, 'z) machine_scheme, unit) prog" where
  "memcpy dst src n = mbind (mread src n) (mwrite dst)"

subsection \<open>DMA\<close>

text \<open>
  \<^verbatim>\<open>prepare_dma\<close> flushes the range for the device, which from then on may read it; a
  range prepared with \<^verbatim>\<open>DMA_FLAG_FROM_DEVICE\<close> is a window the device may write until
  its job is done. \<^verbatim>\<open>finish_dma\<close> makes the CPU see what the device wrote.
\<close>

definition prepare_dma_bytes ::
  "'w env \<Rightarrow> cptr \<Rightarrow> byte list \<Rightarrow> u32 \<Rightarrow> dma_flag set \<Rightarrow>
   (('w, 'z) machine_scheme, int \<times> dma_pmem) prog" where
  "prepare_dma_bytes E p bs n flags =
     mbind (sys (k_prepare_dma E p bs n flags)) (\<lambda>(rc, pmem).
     mthen (mmod (\<lambda>s. s\<lparr>dma_windows := dma_windows s @
       (if rc = 1 \<and> DMA_FLAG_FROM_DEVICE \<in> flags then [(p, unat (pm_size pmem))] else [])\<rparr>))
     (mret (rc, pmem)))"

definition prepare_dma ::
  "'w env \<Rightarrow> cptr \<Rightarrow> u32 \<Rightarrow> dma_flag set \<Rightarrow> (('w, 'z) machine_scheme, int \<times> dma_pmem) prog" where
  "prepare_dma E p n flags = mbind (mread p (unat n)) (\<lambda>bs. prepare_dma_bytes E p bs n flags)"

definition finish_dma :: "'w env \<Rightarrow> cptr \<Rightarrow> u32 \<Rightarrow> (('w, 'z) machine_scheme, unit) prog" where
  "finish_dma E p n =
     mthen (sys_do (k_finish_dma E p n))
     (mbind (mget (\<lambda>s. map (dma_ram E (world s) p) [0..<unat n])) (mwrite p))"

text \<open>The device has ended its job: each window may hold bytes it wrote.\<close>

fun device_writes ::
  "'w env \<Rightarrow> (cptr \<times> nat) list \<Rightarrow> (('w, 'z) machine_scheme, unit) prog" where
  "device_writes E [] = mmod (\<lambda>s. s\<lparr>dma_windows := []\<rparr>)"
| "device_writes E ((p, n) # ws) =
     mbind (mget (\<lambda>s. map (dma_early E (world s) p) [0..<n])) (\<lambda>bs.
     mthen (mwrite p bs)
     (device_writes E ws))"

definition device_done :: "'w env \<Rightarrow> (('w, 'z) machine_scheme, unit) prog" where
  "device_done E = mbind (mget dma_windows) (device_writes E)"

subsection \<open>Rules\<close>

lemma wp_sys [wp_simps]: "wp (sys f) Q s = (case f (world s) of (x, w) \<Rightarrow> Q x (s\<lparr>world := w\<rparr>))"
  by (simp add: wp_def sys_def split: prod.splits)

lemma wp_sysI: "(\<And>x w. f (world s) = (x, w) \<Longrightarrow> Q x (s\<lparr>world := w\<rparr>)) \<Longrightarrow> wp (sys f) Q s"
  by (simp add: wp_sys split: prod.splits)

lemma wp_sys_do [wp_simps, simp]: "wp (sys_do f) Q s = Q () (s\<lparr>world := f (world s)\<rparr>)"
  by (simp add: sys_do_def)

lemma wp_writel [wp_simps, simp]: "wp (writel E v a) Q s = Q () (s\<lparr>world := k_writel E v a (world s)\<rparr>)"
  by (simp add: writel_def)

lemma wp_close [wp_simps, simp]: "wp (close E h) Q s = Q () (s\<lparr>world := k_close E h (world s)\<rparr>)"
  by (simp add: close_def)

lemma wp_readlI: "(\<And>x w. Q x (s\<lparr>world := w\<rparr>)) \<Longrightarrow> wp (readl E a) Q s"
  by (simp add: readl_def wp_sysI)

lemma wp_mread [wp_simps, simp]:
  "wp (mread p n) Q s = (in_obj s p n \<and> Q (take n (drop (snd p) (mem s (fst p)))) s)"
  by (simp add: mread_def)

lemma wp_mwrite [wp_simps, simp]:
  "wp (mwrite p bs) Q s = (in_obj s p (length bs) \<and> Q () (put_mem p bs s))"
  by (simp add: mwrite_def)

lemma wp_memset [wp_simps, simp]:
  "wp (memset p v n) Q s = (in_obj s p n \<and> Q () (put_mem p (replicate n v) s))"
  by (simp add: memset_def)

lemma wp_memcpy [wp_simps, simp]:
  "wp (memcpy d p n) Q s =
     (in_obj s p n \<and> in_obj s d n \<and> Q () (put_mem d (take n (drop (snd p) (mem s (fst p)))) s))"
proof (cases "in_obj s p n")
  case True
  then have "length (take n (drop (snd p) (mem s (fst p)))) = n" by (auto simp: in_obj_def)
  with True show ?thesis by (simp add: memcpy_def)
qed (simp add: memcpy_def)

lemma put_mem_sel [simp]:
  "world (put_mem p bs s) = world s"
  "dma_windows (put_mem p bs s) = dma_windows s"
  "heap_next (put_mem p bs s) = heap_next s"
  "mem (put_mem p bs s) b =
     (if b = fst p then overwrite (snd p) bs (mem s b) else mem s b)"
  "machine.more (put_mem p bs s) = machine.more s"
  by (simp_all add: put_mem_def)

lemma put_mem_upd [simp]:
  "put_mem p bs (s\<lparr>world := w\<rparr>) = (put_mem p bs s)\<lparr>world := w\<rparr>"
  "put_mem p bs (s\<lparr>dma_windows := ws\<rparr>) = (put_mem p bs s)\<lparr>dma_windows := ws\<rparr>"
  by (simp_all add: put_mem_def)

lemma in_obj_world [simp]:
  "in_obj (s\<lparr>world := w\<rparr>) p n = in_obj s p n"
  "in_obj (s\<lparr>dma_windows := ws\<rparr>) p n = in_obj s p n"
  "in_obj (s\<lparr>heap_next := k\<rparr>) p n = in_obj s p n"
  by (simp_all add: in_obj_def)

lemma length_mem_put_mem [simp]:
  "in_obj s p (length bs) \<Longrightarrow> length (mem (put_mem p bs s) b) = length (mem s b)"
  by (simp add: in_obj_def)

lemma in_obj_put_mem [simp]:
  "in_obj s p (length bs) \<Longrightarrow> in_obj (put_mem p bs s) q n = in_obj s q n"
  by (simp add: in_obj_def)

lemma mem_put_mem_own:
  "in_obj s p n \<Longrightarrow> mem (put_mem p (take n (drop (snd p) (mem s (fst p)))) s) = mem s"
  by (simp add: in_obj_def fun_eq_iff overwrite_own)

section \<open>What the program relies on\<close>

text \<open>
  \<^verbatim>\<open>prepare_dma\<close>: 1 means that one physical segment covers the request; without
  \<^verbatim>\<open>DMA_FLAG_ALLOW_PARTIAL\<close> it covers all of it, with the flag a non-empty prefix.
\<close>

definition segment_ok :: "int \<Rightarrow> dma_pmem \<Rightarrow> u32 \<Rightarrow> dma_flag set \<Rightarrow> bool" where
  "segment_ok rc pmem n flags \<longleftrightarrow> (rc = 1 \<longrightarrow> pm_size pmem \<le> n
     \<and> (DMA_FLAG_ALLOW_PARTIAL \<notin> flags \<longrightarrow> pm_size pmem = n) \<and> (n \<noteq> 0 \<longrightarrow> pm_size pmem \<noteq> 0))"

definition dma_ok :: "'w env \<Rightarrow> bool" where
  "dma_ok E \<longleftrightarrow> (\<forall>p bs n flags w rc pmem w'.
     k_prepare_dma E p bs n flags w = ((rc, pmem), w') \<longrightarrow> segment_ok rc pmem n flags)"

text \<open>
  \<^verbatim>\<open>get_msg\<close> returns \<^verbatim>\<open>NO_ERROR\<close>, which is 0, or a negative code. \<^verbatim>\<open>read_msg\<close>: for the message \<^verbatim>\<open>get_msg\<close> announced, a result that is not an error
  is the number of bytes copied: the message's length, cut at the room offered.
\<close>

definition ipc_ok :: "'w env \<Rightarrow> bool" where
  "ipc_ok E \<longleftrightarrow> (\<forall>h w rc mi w1. k_get_msg E h w = ((rc, mi), w1) \<longrightarrow> rc \<le> 0) \<and>
   (\<forall>h w mi w1 lens rc bs w2.
     k_get_msg E h w = ((0, mi), w1) \<longrightarrow> k_read_msg E h (msg_id mi) lens w1 = ((rc, bs), w2) \<longrightarrow>
     0 \<le> rc \<longrightarrow> rc = int (min (msg_len mi) (sum_list lens)) \<and> length bs = nat rc)"

text \<open>
  The error codes are negative; the status codes of the key interface the service tells
  apart differ.
\<close>

definition err_ok :: "'w env \<Rightarrow> bool" where
  "err_ok E \<longleftrightarrow> ERR_GENERIC E < 0 \<and> ERR_NO_MEMORY E < 0 \<and> ERR_BAD_LEN E < 0
     \<and> ERR_NOT_ENOUGH_BUFFER E < 0 \<and> HWKEY_NO_ERROR E \<noteq> HWKEY_ERR_NOT_FOUND E"

text \<open>The list operations of lk/list.h.\<close>

definition list_ok :: "'w env \<Rightarrow> bool" where
  "list_ok E \<longleftrightarrow> (\<forall>l x. list_in_list E l x = (x \<in> set l) \<and> list_add_tail E l x = l @ [x]
     \<and> list_delete E l x = remove1 x l)"

lemma list_okD [simp]:
  assumes "list_ok E"
  shows "list_in_list E l x = (x \<in> set l)" "list_add_tail E l x = l @ [x]"
    "list_delete E l x = remove1 x l"
  using assms by (simp_all add: list_ok_def)

lemma wp_prepare_dma_bytes:
  assumes ok: "dma_ok E"
    and Q: "\<And>rc pmem w. segment_ok rc pmem n flags \<Longrightarrow>
      Q (rc, pmem) (s\<lparr>world := w, dma_windows := dma_windows s @
        (if rc = 1 \<and> DMA_FLAG_FROM_DEVICE \<in> flags then [(p, unat (pm_size pmem))] else [])\<rparr>)"
  shows "wp (prepare_dma_bytes E p bs n flags) Q s"
proof -
  obtain rc pmem w where k: "k_prepare_dma E p bs n flags (world s) = ((rc, pmem), w)"
    by (metis surj_pair)
  then have "segment_ok rc pmem n flags"
    using ok unfolding dma_ok_def by blast
  from Q [OF this] show ?thesis
    by (simp add: prepare_dma_bytes_def wp_sys k)
qed

lemma wp_prepare_dma:
  assumes "dma_ok E" and "in_obj s p (unat n)"
    and "\<And>rc pmem w. segment_ok rc pmem n flags \<Longrightarrow>
      Q (rc, pmem) (s\<lparr>world := w, dma_windows := dma_windows s @
        (if rc = 1 \<and> DMA_FLAG_FROM_DEVICE \<in> flags then [(p, unat (pm_size pmem))] else [])\<rparr>)"
  shows "wp (prepare_dma E p n flags) Q s"
  using assms by (simp add: prepare_dma_def wp_prepare_dma_bytes)

section \<open>Observations of the world\<close>

text \<open>
  \<open>keeps obs m\<close>: when \<open>m\<close> returns, the observation \<open>obs\<close> of the world is what it was.
\<close>

definition keeps :: "('w \<Rightarrow> 'o) \<Rightarrow> (('w, 'z) machine_scheme, 'a) prog \<Rightarrow> bool" where
  "keeps obs m \<longleftrightarrow> (\<forall>s x s'. m s = Inr (x, s') \<longrightarrow> obs (world s') = obs (world s))"

lemma keepsI: "(\<And>s x s'. m s = Inr (x, s') \<Longrightarrow> obs (world s') = obs (world s)) \<Longrightarrow> keeps obs m"
  by (simp add: keeps_def)

lemma keeps_basic [keeps_intros]:
  "keeps obs (mret x)" "keeps obs (mstop e)" "keeps obs (mget f)" "keeps obs (massert b)"
  "keeps obs (mcheck b)" "keeps obs (mderef h)"
  by (auto simp: keeps_def prog_simps split: option.splits)

lemma keeps_bind [keeps_intros]:
  assumes "keeps obs m" and "\<And>x. keeps obs (k x)"
  shows "keeps obs (mbind m k)"
proof (rule keepsI)
  fix s x s' assume "mbind m k s = Inr (x, s')"
  then obtain y t where "m s = Inr (y, t)" "k y t = Inr (x, s')"
    by (auto simp: prog_simps split: sum.splits)
  with assms show "obs (world s') = obs (world s)" unfolding keeps_def by metis
qed

lemma keeps_then [keeps_intros]: "keeps obs m \<Longrightarrow> keeps obs n \<Longrightarrow> keeps obs (mthen m n)"
  by (simp add: mthen_def keeps_bind)

lemma keeps_if [keeps_intros]:
  "(b \<Longrightarrow> keeps obs m) \<Longrightarrow> (\<not> b \<Longrightarrow> keeps obs n) \<Longrightarrow> keeps obs (if b then m else n)"
  by simp

lemma keeps_prod [keeps_intros]: "(\<And>x y. keeps obs (k x y)) \<Longrightarrow> keeps obs (case z of (x, y) \<Rightarrow> k x y)"
  by (cases z) simp

lemma keeps_let [keeps_intros]: "(\<And>x. keeps obs (k x)) \<Longrightarrow> keeps obs (let x = z in k x)"
  by simp

lemma keeps_mmod [keeps_intros]: "(\<And>s. obs (world (g s)) = obs (world s)) \<Longrightarrow> keeps obs (mmod g)"
  by (auto simp: keeps_def prog_simps)

lemma keeps_sys:
  assumes "\<And>w. obs (snd (f w)) = obs w"
  shows "keeps obs (sys f)"
proof (rule keepsI)
  fix s :: "('a, 'd) machine_scheme" and x s' assume "sys f s = Inr (x, s')"
  then show "obs (world s') = obs (world s)"
    using assms [of "world s"] by (auto simp: sys_def split: prod.splits)
qed

lemma keeps_sys_do: "(\<And>w. obs (f w) = obs w) \<Longrightarrow> keeps obs (sys_do f)"
  by (simp add: sys_do_def keeps_mmod)

lemma keeps_mem [keeps_intros]:
  "keeps obs (mread p n)" "keeps obs (mwrite p bs)" "keeps obs (memset p v n)" "keeps obs (memcpy p q n)"
  by (auto simp: mread_def mwrite_def memset_def memcpy_def intro!: keeps_intros)

lemma wp_keeps:
  assumes "wp m Q s" and "keeps obs m"
    and "\<And>x s'. Q x s' \<Longrightarrow> obs (world s') = obs (world s) \<Longrightarrow> R x s'"
  shows "wp m R s"
  using assms unfolding keeps_def by (auto simp: wp_def split: sum.splits)

text \<open>
  The observation the program relies on is the cookie of each handle, \<open>ck w h\<close>. The
  register, memory and DMA calls do not touch it (\<open>quiet\<close>). Of the IPC calls,
  \<^verbatim>\<open>set_cookie\<close> sets the cookie of its handle when it succeeds, \<^verbatim>\<open>close\<close> ends the handle
  and its cookie, no other call changes a cookie, and \<^verbatim>\<open>wait_any\<close> reports an event with the
  cookie of its handle.
\<close>

definition quiet :: "('w \<Rightarrow> 'o) \<Rightarrow> 'w env \<Rightarrow> bool" where
  "quiet obs E \<longleftrightarrow>
     (\<forall>a w. obs (snd (k_readl E a w)) = obs w) \<and> (\<forall>v a w. obs (k_writel E v a w) = obs w) \<and>
     (\<forall>n i w. obs (snd (k_mmap E n i w)) = obs w) \<and> (\<forall>a n w. obs (snd (k_memalign E a n w)) = obs w) \<and>
     (\<forall>w. obs (snd (k_calloc E w)) = obs w) \<and>
     (\<forall>p bs n f w. obs (snd (k_prepare_dma E p bs n f w)) = obs w) \<and>
     (\<forall>p n w. obs (k_finish_dma E p n w) = obs w)"

definition cookies_ok :: "('w \<Rightarrow> handle \<Rightarrow> cookie option) \<Rightarrow> 'w env \<Rightarrow> bool" where
  "cookies_ok ck E \<longleftrightarrow>
     (\<forall>h c w rc w'. k_set_cookie E h c w = (rc, w') \<longrightarrow>
        ck w' = (if rc = 0 then (ck w)(h := Some c) else ck w)) \<and>
     (\<forall>h w. ck (k_close E h w) = (ck w)(h := None)) \<and>
     (\<forall>nm n len w. ck (snd (k_port_create E nm n len w)) = ck w) \<and>
     (\<forall>h w. ck (snd (k_accept E h w)) = ck w) \<and> (\<forall>h w. ck (snd (k_get_msg E h w)) = ck w) \<and>
     (\<forall>h i lens w. ck (snd (k_read_msg E h i lens w)) = ck w) \<and>
     (\<forall>h i w. ck (k_put_msg E h i w) = ck w) \<and> (\<forall>h bss w. ck (snd (k_send_msg E h bss w)) = ck w) \<and>
     (\<forall>w rc ev w'. k_wait_any E w = ((rc, ev), w') \<longrightarrow>
        ck w' = ck w \<and> (rc = 0 \<longrightarrow> ev_cookie ev = ck w (ev_handle ev)))"

text \<open>Everything the services rely on.\<close>

definition env_ok :: "('w \<Rightarrow> handle \<Rightarrow> cookie option) \<Rightarrow> 'w env \<Rightarrow> bool" where
  "env_ok ck E \<longleftrightarrow> dma_ok E \<and> ipc_ok E \<and> err_ok E \<and> list_ok E \<and> quiet ck E \<and> cookies_ok ck E"

lemma env_okD:
  assumes "env_ok ck E"
  shows "dma_ok E" "ipc_ok E" "err_ok E" "list_ok E" "quiet ck E" "cookies_ok ck E"
  using assms by (simp_all add: env_ok_def)

lemma keeps_quiet [keeps_intros]:
  assumes "quiet obs E"
  shows "keeps obs (readl E a)" "keeps obs (writel E v a)" "keeps obs (sys (k_mmap E n i))"
    "keeps obs (sys (k_memalign E al n))" "keeps obs (calloc E)"
    "keeps obs (prepare_dma_bytes E p bs len fl)" "keeps obs (prepare_dma E p len fl)"
    "keeps obs (finish_dma E p len)" "keeps obs (sys_do (k_finish_dma E p len))"
  using assms
  by (auto simp: quiet_def readl_def writel_def calloc_def prepare_dma_bytes_def prepare_dma_def
      finish_dma_def simp del: split_paired_All intro!: keeps_intros keeps_sys keeps_sys_do)

lemma cookies_okD:
  assumes "cookies_ok ck E"
  shows "k_set_cookie E h c w = (rc, w') \<Longrightarrow> ck w' = (if rc = 0 then (ck w)(h := Some c) else ck w)"
    "ck (k_close E h w) = (ck w)(h := None)"
    "k_port_create E nm n len w = (rc, w') \<Longrightarrow> ck w' = ck w"
    "k_accept E h w = (r, w') \<Longrightarrow> ck w' = ck w"
    "k_send_msg E h bss w = (rc, w') \<Longrightarrow> ck w' = ck w"
    "k_wait_any E w = ((rc, ev), w') \<Longrightarrow> ck w' = ck w"
    "k_wait_any E w = ((0, ev), w') \<Longrightarrow> ev_cookie ev = ck w (ev_handle ev)"
  using assms unfolding cookies_ok_def by (metis snd_conv)+

lemma wp_calloc_obs:
  assumes "quiet obs E" and "\<And>w. obs w = obs (world s) \<Longrightarrow> Q 0 (s\<lparr>world := w\<rparr>)"
    and "\<And>w. obs w = obs (world s) \<Longrightarrow> Q (heap_next s) (s\<lparr>world := w, heap_next := Suc (heap_next s)\<rparr>)"
  shows "wp (calloc E) Q s"
proof -
  have "obs (snd (k_calloc E w)) = obs w" for w using assms(1) by (simp add: quiet_def)
  then show ?thesis using assms(2,3) by (simp add: calloc_def wp_sys split: prod.splits) (metis snd_conv)
qed

lemma keeps_device_writes [keeps_intros]: "keeps obs (device_writes E ws)"
  by (induction ws) (auto intro!: keeps_intros)

lemma keeps_device_done [keeps_intros]: "keeps obs (device_done E)"
  by (auto simp: device_done_def intro!: keeps_intros)

end
