(* ===== verification/Soc_Config.thy ===== *)
theory Soc_Config
  imports Trusty_Env
begin

text \<open>
  The memory maps of the two supported SoCs (imx-regs.h of imx6ul and imx7d), the
  constants the build hands to the hwcrypto manifest (nxp_hwcrypto_memmap_consts.json),
  and the facts the platform code relies on: the blocks that are reached through the
  boot-time mapping of the SoC registers lie inside it, and the two static mappings of
  the kernel do not overlap.
\<close>

section \<open>imx-regs.h\<close>

text \<open>
  The two headers define the same macros, so that one record holds what a SoC gives them; the
  build takes the header of the SoC it is for. A macro that is a sum of others is given the sum.
\<close>

record imx_regs =
  GIC_BASE_PHY :: u32
  GIC_BASE_VIRT :: u32
  SOC_REGS_PHY :: u32
  SOC_REGS_VIRT :: u32
  SOC_REGS_SIZE :: u32
  CAAM_PHY_BASE_ADDR :: u32
  CAAM_REG_SIZE :: u32
  CAAM_PHY_ARB_BASE_ADDR :: u32
  CAAM_SEC_RAM_SIZE :: u32
  CCM_PHY_BASE_ADDR :: u32
  CCM_REG_SIZE :: u32
  CCM_CAAM_CCGR_OFFSET :: u32
  MAX_INT :: nat
  GICC_SIZE :: u32
  GICD_SIZE :: u32
  GICC_OFFSET :: u32
  GICD_OFFSET :: u32
  GIC_REG_SIZE :: u32
  TZ_BASE :: u32
  TZ_BASE_VIRT :: u32
  TZ_REG_SIZE :: u32
  TZ_BYPASS_GPR_BASE :: u32
  TZ_BYPASS_GPR_BASE_VIRT :: u32

definition imx6ul_regs :: imx_regs where
  "imx6ul_regs = \<lparr>GIC_BASE_PHY = 0xa01000, GIC_BASE_VIRT = 0x70a01000, SOC_REGS_PHY = 0x02000000,
     SOC_REGS_VIRT = 0x72000000, SOC_REGS_SIZE = 0x00400000, CAAM_PHY_BASE_ADDR = 0x02140000,
     CAAM_REG_SIZE = 0x3C000, CAAM_PHY_ARB_BASE_ADDR = 0x00100000, CAAM_SEC_RAM_SIZE = 0x8000,
     CCM_PHY_BASE_ADDR = 0x02000000 + 0x80000 + 0x44000, CCM_REG_SIZE = 0x4000,
     CCM_CAAM_CCGR_OFFSET = 0x68, MAX_INT = 160, GICC_SIZE = 0x1000, GICD_SIZE = 0x100,
     GICC_OFFSET = 0x1000, GICD_OFFSET = 0x0000, GIC_REG_SIZE = 0x2000,
     TZ_BASE = (0x02100000 + 0x80000) + 0x50000,
     TZ_BASE_VIRT = 0x70000000 + ((0x02100000 + 0x80000) + 0x50000), TZ_REG_SIZE = 0x4000,
     TZ_BYPASS_GPR_BASE = 0x20E4024, TZ_BYPASS_GPR_BASE_VIRT = 0x70000000 + 0x20E4024\<rparr>"

definition imx7d_regs :: imx_regs where
  "imx7d_regs = \<lparr>GIC_BASE_PHY = 0x31001000, GIC_BASE_VIRT = 0x71001000, SOC_REGS_PHY = 0x30000000,
     SOC_REGS_VIRT = 0x70000000, SOC_REGS_SIZE = 0x01000000, CAAM_PHY_BASE_ADDR = 0x30900000,
     CAAM_REG_SIZE = 0x40000, CAAM_PHY_ARB_BASE_ADDR = 0x00100000, CAAM_SEC_RAM_SIZE = 0x8000,
     CCM_PHY_BASE_ADDR = 0x30380000, CCM_REG_SIZE = 0x10000,
     CCM_CAAM_CCGR_OFFSET = 0x4000 + 16 * 36, MAX_INT = 160, GICC_SIZE = 0x1000, GICD_SIZE = 0x100,
     GICC_OFFSET = 0x1000, GICD_OFFSET = 0x0000, GIC_REG_SIZE = 0x2000, TZ_BASE = 0x30780000,
     TZ_BASE_VIRT = 0x40000000 + 0x30780000, TZ_REG_SIZE = 0x4000, TZ_BYPASS_GPR_BASE = 0x30340024,
     TZ_BYPASS_GPR_BASE_VIRT = 0x40000000 + 0x30340024\<rparr>"

fun soc :: "mach \<Rightarrow> imx_regs" where
  "soc MACH_IMX6 = imx6ul_regs"
| "soc MACH_IMX7 = imx7d_regs"

lemmas soc_values [simp] = imx6ul_regs_def imx7d_regs_def

definition GICBASE :: "imx_regs \<Rightarrow> nat \<Rightarrow> u32" where
  "GICBASE r b = GIC_BASE_VIRT r"

definition GICC_BASE_VIRT :: "imx_regs \<Rightarrow> u32" where
  "GICC_BASE_VIRT r = GIC_BASE_VIRT r + GICC_OFFSET r"

definition GICD_BASE_VIRT :: "imx_regs \<Rightarrow> u32" where
  "GICD_BASE_VIRT r = GIC_BASE_VIRT r + GICD_OFFSET r"

text \<open>The system reset controller, used on the i.MX7 only.\<close>

definition SRC_GPR3_PHY :: u32 where "SRC_GPR3_PHY = 0x3039007C"
definition SRC_GPR3 :: u32 where "SRC_GPR3 = 0x40000000 + SRC_GPR3_PHY"
definition SRC_GPR4_PHY :: u32 where "SRC_GPR4_PHY = 0x30390080"
definition SRC_GPR4 :: u32 where "SRC_GPR4 = 0x40000000 + SRC_GPR4_PHY"
definition SRC_A7RCR1_PHY :: u32 where "SRC_A7RCR1_PHY = 0x30390008"
definition SRC_A7RCR1 :: u32 where "SRC_A7RCR1 = 0x40000000 + SRC_A7RCR1_PHY"

lemmas soc_defs = GICC_BASE_VIRT_def GICD_BASE_VIRT_def SRC_GPR3_PHY_def SRC_GPR3_def
  SRC_GPR4_PHY_def SRC_GPR4_def SRC_A7RCR1_PHY_def SRC_A7RCR1_def

text \<open>rules.mk of the platform and of the three boards (all imx7d).\<close>

definition MEMBASE :: u32 where "MEMBASE = 0x9e000000"
definition MEMSIZE :: u32 where "MEMSIZE = 0x02000000"

datatype board = Imx7d | Pico7d | Sdb7d

fun CONFIG_CONSOLE_TTY_BASE :: "board \<Rightarrow> u32" where
  "CONFIG_CONSOLE_TTY_BASE Imx7d = 0x30A70000"
| "CONFIG_CONSOLE_TTY_BASE Pico7d = 0x30A70000"
| "CONFIG_CONSOLE_TTY_BASE Sdb7d = 0x30860000"

text \<open>A block of \<open>n\<close> bytes at \<open>a\<close> lies in the range of \<open>len\<close> bytes at \<open>base\<close>.\<close>

definition block_in :: "u32 \<Rightarrow> nat \<Rightarrow> u32 \<Rightarrow> u32 \<Rightarrow> bool" where
  "block_in a n base len \<longleftrightarrow> unat base \<le> unat a \<and> unat a + n \<le> unat base + unat len"

definition disjoint_blocks :: "u32 \<Rightarrow> u32 \<Rightarrow> u32 \<Rightarrow> u32 \<Rightarrow> bool" where
  "disjoint_blocks a n b m \<longleftrightarrow> unat a + unat n \<le> unat b \<or> unat b + unat m \<le> unat a"

text \<open>The block lies in the window of the SoC's registers that the boot code maps.\<close>

definition in_window :: "mach \<Rightarrow> u32 \<Rightarrow> u32 \<Rightarrow> bool" where
  "in_window m a n \<longleftrightarrow> block_in a (unat n) (SOC_REGS_PHY (soc m)) (SOC_REGS_SIZE (soc m))"

text \<open>The address the boot mapping gives to a physical address of the register area.\<close>

definition soc_virt :: "mach \<Rightarrow> u32 \<Rightarrow> u32" where
  "soc_virt m pa = SOC_REGS_VIRT (soc m) + (pa - SOC_REGS_PHY (soc m))"

end
