(* ===== verification/Caam.thy ===== *)
theory Caam
  imports Soc_Config
begin

text \<open>
  The CAAM driver (caam.c with fsl_caam_internal.h and caam.h): the register file of job
  ring 0, the driver's state (the mapped bases, the single-entry job rings and the one
  job descriptor buffer), \<^verbatim>\<open>run_job\<close> with its completion poll, the initialisation
  sequence, and every job the driver submits. Each operation is the whole C function,
  with its assertions, its early returns and its calls in the order of the source.
\<close>

section \<open>Registers (fsl_caam_internal.h)\<close>

datatype caam_reg =
    CAAM_MCFGR | CAAM_SCFGR | CAAM_JR0MIDR | CAAM_JR1MIDR | CAAM_DECORR | CAAM_DECO0MID
  | CAAM_DAR | CAAM_DRR | CAAM_JDKEKR | CAAM_TDKEKR | CAAM_TDSKR | CAAM_SKNR | CAAM_SMSTA
  | CAAM_STA | CAAM_SMPO_0
  | CAAM_RTMCTL | CAAM_RTSDCTL | CAAM_RTFRQMIN | CAAM_RTFRQMAX | CAAM_RTSTATUS | CAAM_RDSTA
  | CAAM_IRBAR0 | CAAM_IRSR0 | CAAM_IRSAR0 | CAAM_IRJAR0 | CAAM_ORBAR0 | CAAM_ORSR0
  | CAAM_ORJRR0 | CAAM_ORSFR0 | CAAM_JRSTAR0 | CAAM_JRINTR0 | CAAM_JRCFGR0_MS
  | CAAM_JRCFGR0_LS | CAAM_IRRIR0 | CAAM_ORWIR0 | CAAM_JRCR0 | CAAM_SMCJR0 | CAAM_SMCSJR0

fun caam_reg_off :: "caam_reg \<Rightarrow> u32" where
  "caam_reg_off CAAM_MCFGR = 0x0004"
| "caam_reg_off CAAM_SCFGR = 0x000c"
| "caam_reg_off CAAM_JR0MIDR = 0x0010"
| "caam_reg_off CAAM_JR1MIDR = 0x0018"
| "caam_reg_off CAAM_DECORR = 0x009c"
| "caam_reg_off CAAM_DECO0MID = 0x00a0"
| "caam_reg_off CAAM_DAR = 0x0120"
| "caam_reg_off CAAM_DRR = 0x0124"
| "caam_reg_off CAAM_JDKEKR = 0x0400"
| "caam_reg_off CAAM_TDKEKR = 0x0420"
| "caam_reg_off CAAM_TDSKR = 0x0440"
| "caam_reg_off CAAM_SKNR = 0x04e0"
| "caam_reg_off CAAM_SMSTA = 0x0FB4"
| "caam_reg_off CAAM_STA = 0x0FD4"
| "caam_reg_off CAAM_SMPO_0 = 0x1FBC"
| "caam_reg_off CAAM_RTMCTL = 0x0600"
| "caam_reg_off CAAM_RTSDCTL = 0x0610"
| "caam_reg_off CAAM_RTFRQMIN = 0x0618"
| "caam_reg_off CAAM_RTFRQMAX = 0x061C"
| "caam_reg_off CAAM_RTSTATUS = 0x063C"
| "caam_reg_off CAAM_RDSTA = 0x06C0"
| "caam_reg_off CAAM_IRBAR0 = 0x1004"
| "caam_reg_off CAAM_IRSR0 = 0x100c"
| "caam_reg_off CAAM_IRSAR0 = 0x1014"
| "caam_reg_off CAAM_IRJAR0 = 0x101c"
| "caam_reg_off CAAM_ORBAR0 = 0x1024"
| "caam_reg_off CAAM_ORSR0 = 0x102c"
| "caam_reg_off CAAM_ORJRR0 = 0x1034"
| "caam_reg_off CAAM_ORSFR0 = 0x103c"
| "caam_reg_off CAAM_JRSTAR0 = 0x1044"
| "caam_reg_off CAAM_JRINTR0 = 0x104c"
| "caam_reg_off CAAM_JRCFGR0_MS = 0x1050"
| "caam_reg_off CAAM_JRCFGR0_LS = 0x1054"
| "caam_reg_off CAAM_IRRIR0 = 0x105c"
| "caam_reg_off CAAM_ORWIR0 = 0x1064"
| "caam_reg_off CAAM_JRCR0 = 0x106c"
| "caam_reg_off CAAM_SMCJR0 = 0x10f4"
| "caam_reg_off CAAM_SMCSJR0 = 0x10fc"

definition JRCFG_LS_IMSK :: u32 where "JRCFG_LS_IMSK = 0x00000001"
definition JOB_RING_STS :: u32 where "JOB_RING_STS = push_bit 28 0xF"
definition RNG_TRIM_OSC_DIV :: u32 where "RNG_TRIM_OSC_DIV = 0"
definition RNG_TRIM_ENT_DLY :: u32 where "RNG_TRIM_ENT_DLY = 3200"
definition RTMCTL_PGM :: u32 where "RTMCTL_PGM = push_bit 16 1"
definition RTMCTL_ERR :: u32 where "RTMCTL_ERR = push_bit 12 1"
definition RDSTA_IF0 :: u32 where "RDSTA_IF0 = 1"
definition RDSTA_SKVN :: u32 where "RDSTA_SKVN = push_bit 30 1"

lemmas caam_bits = JRCFG_LS_IMSK_def JOB_RING_STS_def RNG_TRIM_OSC_DIV_def RNG_TRIM_ENT_DLY_def
  RTMCTL_PGM_def RTMCTL_ERR_def RDSTA_IF0_def RDSTA_SKVN_def

text \<open>\<^verbatim>\<open>rng_inst_dsc\<close>, the descriptors \<^verbatim>\<open>RNG_INST_DESC1\<close> to \<^verbatim>\<open>RNG_INST_DESC9\<close>.\<close>

definition rng_inst_dsc :: "u32 list" where
  "rng_inst_dsc = [0xB0800009, 0x12A00008, 0x01020304, 0x05060708, 0x82500404,
     0xA2000001, 0x10880004, 0x00000001, 0x82501000]"

section \<open>State\<close>

definition CAAM_KB_HEADER_LEN :: u32 where "CAAM_KB_HEADER_LEN = 48"
definition CAAM_SUCCESS :: u32 where "CAAM_SUCCESS = 0"
definition CAAM_FAILURE :: u32 where "CAAM_FAILURE = 1"
definition MAX_DSC_NUM :: nat where "MAX_DSC_NUM = 64"
definition MAP_FAILED :: u32 where "MAP_FAILED = - 1"

lemma caam_results [simp]: "CAAM_FAILURE \<noteq> CAAM_SUCCESS" "CAAM_SUCCESS \<noteq> CAAM_FAILURE"
  by (simp_all add: CAAM_SUCCESS_def CAAM_FAILURE_def)

record caam_job_rings =
  ring_in :: u32
  ring_out0 :: u32
  ring_out1 :: u32

record caam_job =
  dsc :: "u32 list"
  dsc_used :: nat
  job_status :: u32

record 'w caam_state = "'w machine" +
  caam_base :: u32
  ccm_base :: u32
  sram_base :: u32
  g_rings :: "caam_job_rings option"
  g_job :: "caam_job option"

definition ring_bytes :: "caam_job_rings \<Rightarrow> byte list" where
  "ring_bytes r = words_bytes [ring_in r, ring_out0 r, ring_out1 r]"

text \<open>
  The object sizes the allocations use: three words of rings, and 64 descriptor words
  with two more members. \<^verbatim>\<open>sizeof(g_rings)\<close> is the size of the pointer.
\<close>

definition sizeof_caam_job_rings :: u32 where "sizeof_caam_job_rings = 12"
definition sizeof_caam_job :: u32 where "sizeof_caam_job = 264"
definition sizeof_g_rings :: u32 where "sizeof_g_rings = 4"

definition caam_reg_addr :: "('w, 'z) caam_state_scheme \<Rightarrow> caam_reg \<Rightarrow> u32" where
  "caam_reg_addr s r = caam_reg_off r + caam_base s"

definition read_reg :: "'w env \<Rightarrow> caam_reg \<Rightarrow> (('w, 'z) caam_state_scheme, u32) prog" where
  "read_reg E r = mbind (mget (\<lambda>s. caam_reg_addr s r)) (readl E)"

definition write_reg :: "'w env \<Rightarrow> u32 \<Rightarrow> caam_reg \<Rightarrow> (('w, 'z) caam_state_scheme, unit) prog" where
  "write_reg E v r = mbind (mget (\<lambda>s. caam_reg_addr s r)) (writel E v)"

section \<open>Clock, rings, job\<close>

text \<open>
  \<^verbatim>\<open>caam_clk_get\<close>. On the i.MX6 the middle operand is the comparison \<^verbatim>\<open>3 < 10\<close>, whose
  value is 1.
\<close>

definition caam_clk_val :: "mach \<Rightarrow> u32 \<Rightarrow> u32" where
  "caam_clk_val m val = (case m of
       MACH_IMX6 \<Rightarrow> val OR push_bit 8 3 OR (if (3::int) < 10 then 1 else 0) OR push_bit 12 3
     | MACH_IMX7 \<Rightarrow> push_bit 0 3)"

definition caam_clk_get :: "'w env \<Rightarrow> (('w, 'z) caam_state_scheme, unit) prog" where
  "caam_clk_get E =
     mbind (mget (\<lambda>s. ccm_base s + CCM_CAAM_CCGR_OFFSET (soc (mach_type E)))) (\<lambda>a.
     mbind (readl E a) (\<lambda>val.
     writel E (caam_clk_val (mach_type E) val) a))"

text \<open>
  The members \<^verbatim>\<open>in\<close> and \<^verbatim>\<open>out\<close> of the rings lie at the offsets 0 and 4, and the ring
  has one entry.
\<close>

definition setup_job_rings :: "'w env \<Rightarrow> (('w, 'z) caam_state_scheme, unit) prog" where
  "setup_job_rings E =
     mbind (mderef g_rings) (\<lambda>_.
     mthen (mmod (\<lambda>s. s\<lparr>g_rings := Some \<lparr>ring_in = 0, ring_out0 = 0, ring_out1 = 0\<rparr>\<rparr>))
     (mbind (mderef g_rings) (\<lambda>r.
     mbind (prepare_dma_bytes E (Rings, 0) (take (unat sizeof_g_rings) (ring_bytes r))
              sizeof_g_rings {DMA_FLAG_TO_DEVICE}) (\<lambda>(rc, pmem).
     if rc \<noteq> 1 then mstop Abort else
     mthen (write_reg E (ucast (paddr pmem) + 0) CAAM_IRBAR0)
     (mthen (write_reg E (ucast (paddr pmem) + 4) CAAM_ORBAR0)
     (mthen (write_reg E 1 CAAM_IRSR0)
     (write_reg E 1 CAAM_ORSR0)))))))"

text \<open>\<^verbatim>\<open>while (readl(CAAM_ORSFR0) != 1);\<close>\<close>

fun poll_reg :: "'w env \<Rightarrow> nat \<Rightarrow> u32 \<Rightarrow> (u32 \<Rightarrow> bool) \<Rightarrow> (('w, 'z) machine_scheme, unit) prog" where
  "poll_reg E 0 a done = mstop NoReturn"
| "poll_reg E (Suc n) a done =
     mbind (readl E a) (\<lambda>v. if done v then mret () else poll_reg E n a done)"

text \<open>The two words of \<^verbatim>\<open>g_rings->out\<close> as the CPU sees them after \<^verbatim>\<open>finish_dma\<close>.\<close>

definition finish_dma_out :: "'w env \<Rightarrow> (('w, 'z) caam_state_scheme, unit) prog" where
  "finish_dma_out E =
     mthen (sys_do (k_finish_dma E (Rings, 4) 8))
     (mbind (mget (\<lambda>s. map (dma_ram E (world s) (Rings, 4)) [0..<8])) (\<lambda>bs.
     mbind (mderef g_rings) (\<lambda>r.
     mmod (\<lambda>s. s\<lparr>g_rings := Some (r\<lparr>ring_out0 := of_le32 (take 4 bs),
                                    ring_out1 := of_le32 (drop 4 bs)\<rparr>)\<rparr>))))"

definition run_job :: "'w env \<Rightarrow> (('w, 'z) caam_state_scheme, unit) prog" where
  "run_job E =
     mbind (mderef g_job) (\<lambda>job.
     mthen (mcheck (dsc_used job \<le> length (dsc job)))
     (mbind (prepare_dma_bytes E (Job_dsc, 0) (words_bytes (take (dsc_used job) (dsc job)))
              (of_nat (dsc_used job) * 4) {DMA_FLAG_TO_DEVICE}) (\<lambda>(ret, pmem).
     mthen (massert (ret = 1))
     (let job_pa = ucast (paddr pmem) in
     mbind (mderef g_rings) (\<lambda>r.
     mthen (mmod (\<lambda>s. s\<lparr>g_rings := Some (r\<lparr>ring_out0 := 0, ring_out1 := 0, ring_in := job_pa\<rparr>)\<rparr>))
     (mbind (mderef g_rings) (\<lambda>r.
     mbind (prepare_dma_bytes E (Rings, 0) (take (unat sizeof_g_rings) (ring_bytes r))
              sizeof_g_rings {DMA_FLAG_TO_DEVICE}) (\<lambda>(ret, _).
     mthen (massert (ret = 1))
     (mthen (caam_clk_get E)
     (mthen (write_reg E 1 CAAM_IRJAR0)
     (mbind (mget (\<lambda>s. caam_reg_addr s CAAM_ORSFR0)) (\<lambda>a.
     mthen (poll_reg E (poll_fuel E) a (\<lambda>v. v = 1))
     (mthen (device_done E)
     (mthen (finish_dma_out E)
     (mbind (mderef g_rings) (\<lambda>r.
     mthen (massert (ring_out0 r = job_pa))
     (mthen (mmod (\<lambda>s. s\<lparr>g_job := Some (job\<lparr>job_status := ring_out1 r\<rparr>)\<rparr>))
     (write_reg E 1 CAAM_ORJRR0))))))))))))))))))"

text \<open>
  Filling the descriptor buffer: \<^verbatim>\<open>g_job->dsc[i] = ...\<close> for the first entries, the
  others keep their old words.
\<close>

definition set_dsc :: "u32 list \<Rightarrow> (('w, 'z) caam_state_scheme, unit) prog" where
  "set_dsc ws =
     mbind (mderef g_job) (\<lambda>job.
     mthen (mcheck (length ws \<le> length (dsc job)))
     (mmod (\<lambda>s. s\<lparr>g_job := Some (job\<lparr>dsc := overwrite 0 ws (dsc job), dsc_used := length ws\<rparr>)\<rparr>)))"

definition job_failed :: "(('w, 'z) caam_state_scheme, bool) prog" where
  "job_failed = mbind (mderef g_job) (\<lambda>job. mret (job_status job AND JOB_RING_STS \<noteq> 0))"

section \<open>Rules of the driver's building blocks\<close>

lemma wp_read_regI: "(\<And>x w. Q x (s\<lparr>world := w\<rparr>)) \<Longrightarrow> wp (read_reg E r) Q s"
  by (simp add: read_reg_def wp_readlI)

lemma wp_write_reg [wp_simps, simp]:
  "wp (write_reg E v r) Q s = Q () (s\<lparr>world := k_writel E v (caam_reg_addr s r) (world s)\<rparr>)"
  by (simp add: write_reg_def)

lemma wp_clk: "(\<And>w. Q () (s\<lparr>world := w\<rparr>)) \<Longrightarrow> wp (caam_clk_get E) Q s"
  by (simp add: caam_clk_get_def wp_readlI)

lemma wp_poll: "(\<And>w. Q () (s\<lparr>world := w\<rparr>)) \<Longrightarrow> wp (poll_reg E n a ok) Q s"
proof (induction n arbitrary: s)
  case (Suc n)
  have "wp (poll_reg E n a ok) Q (s\<lparr>world := w\<rparr>)" for w
    by (rule Suc.IH) (simp add: Suc.prems)
  then show ?case by (simp, intro wp_readlI) (simp add: Suc.prems)
qed simp

text \<open>
  The driver is initialised: both allocations succeeded and the descriptor buffer has
  its 64 entries.
\<close>

definition caam_ready :: "('w, 'z) caam_state_scheme \<Rightarrow> bool" where
  "caam_ready s \<longleftrightarrow> (\<exists>r j. g_rings s = Some r \<and> g_job s = Some j \<and> length (dsc j) = MAX_DSC_NUM)"

text \<open>The job's descriptor has been filled in.\<close>

definition job_filled :: "('w, 'z) caam_state_scheme \<Rightarrow> bool" where
  "job_filled s \<longleftrightarrow> (\<exists>j. g_job s = Some j \<and> dsc_used j \<le> MAX_DSC_NUM)"

text \<open>What no operation of the driver changes once it is initialised.\<close>

definition drv_frame :: "('w, 'z) caam_state_scheme \<Rightarrow> ('w, 'z) caam_state_scheme \<Rightarrow> bool" where
  "drv_frame s s' \<longleftrightarrow> caam_base s' = caam_base s \<and> ccm_base s' = ccm_base s
     \<and> sram_base s' = sram_base s \<and> heap_next s' = heap_next s
     \<and> caam_state.more s' = caam_state.more s
     \<and> (caam_ready s \<longrightarrow> caam_ready s')"

lemma drv_frame_refl [simp]: "drv_frame s s"
  by (simp add: drv_frame_def)

lemma drv_frame_trans: "drv_frame s t \<Longrightarrow> drv_frame t u \<Longrightarrow> drv_frame s u"
  by (auto simp: drv_frame_def)

lemma caam_ready_upd [simp]:
  "caam_ready (s\<lparr>world := w\<rparr>) = caam_ready s"
  "caam_ready (s\<lparr>mem := m\<rparr>) = caam_ready s"
  "caam_ready (s\<lparr>dma_windows := ws\<rparr>) = caam_ready s"
  "caam_ready (put_mem p bs s) = caam_ready s"
  by (simp_all add: caam_ready_def put_mem_def)

lemma caam_base_put_mem [simp]: "caam_base (put_mem p bs s) = caam_base s"
  by (simp add: put_mem_def)

lemma drv_frame_upd [simp]:
  "drv_frame s (s\<lparr>world := w\<rparr>)"
  "drv_frame s (s\<lparr>world := w, dma_windows := ws\<rparr>)"
  "drv_frame s (s\<lparr>dma_windows := ws\<rparr>)"
  "drv_frame s (put_mem p bs s)"
  by (simp_all add: drv_frame_def put_mem_def)

lemma wp_device_done1:
  assumes "dma_windows s = [(p, n)]" and "in_obj s p n"
    and "\<And>bs. length bs = n \<Longrightarrow> Q () ((put_mem p bs s)\<lparr>dma_windows := []\<rparr>)"
  shows "wp (device_done E) Q s"
  using assms by (simp add: device_done_def)

lemma wp_device_done0:
  "dma_windows s = [] \<Longrightarrow> Q () (s\<lparr>dma_windows := []\<rparr>) \<Longrightarrow> wp (device_done E) Q s"
  by (simp add: device_done_def)

lemma wp_finish_dma_out:
  assumes "g_rings s = Some r"
    and "\<And>w a b. Q () (s\<lparr>world := w, g_rings := Some (r\<lparr>ring_out0 := a, ring_out1 := b\<rparr>)\<rparr>)"
  shows "wp (finish_dma_out E) Q s"
  using assms by (simp add: finish_dma_out_def)

lemma wp_set_dsc:
  assumes "caam_ready s" and "length ws \<le> MAX_DSC_NUM"
    and "\<And>s'. drv_frame s s' \<Longrightarrow> dma_windows s' = dma_windows s \<Longrightarrow> mem s' = mem s \<Longrightarrow>
      world s' = world s \<Longrightarrow> job_filled s' \<Longrightarrow> Q () s'"
  shows "wp (set_dsc ws) Q s"
proof -
  from assms(1) obtain r j where rj: "g_rings s = Some r" "g_job s = Some j"
    "length (dsc j) = MAX_DSC_NUM" by (auto simp: caam_ready_def)
  show ?thesis using assms(2)
    by (auto simp: set_dsc_def rj drv_frame_def caam_ready_def job_filled_def intro!: assms(3))
qed

lemma wp_job_failed: "caam_ready s \<Longrightarrow> (\<And>b. Q b s) \<Longrightarrow> wp job_failed Q s"
  by (auto simp: job_failed_def caam_ready_def)

text \<open>
  \<^verbatim>\<open>run_job\<close> up to the start of the job: what comes after the two \<^verbatim>\<open>prepare_dma\<close> calls
  runs in a state where only the rings and the world have changed.
\<close>

lemma wp_run_job_gen:
  assumes ok: "dma_ok E" and rdy: "caam_ready s" and fill: "job_filled s"
    and dev: "\<And>t R. drv_frame s t \<Longrightarrow> caam_ready t \<Longrightarrow> dma_windows t = dma_windows s \<Longrightarrow>
      mem t = mem s \<Longrightarrow>
      (\<And>u. drv_frame t u \<Longrightarrow> g_rings u = g_rings t \<Longrightarrow> M (mem u) \<Longrightarrow> dma_windows u = [] \<Longrightarrow> R () u) \<Longrightarrow>
      wp (device_done E) R t"
    and Q: "\<And>s'. drv_frame s s' \<Longrightarrow> dma_windows s' = [] \<Longrightarrow> M (mem s') \<Longrightarrow> Q () s'"
  shows "wp (run_job E) Q s"
proof -
  from rdy obtain r j where rj: "g_rings s = Some r" "g_job s = Some j"
    and dsc: "length (dsc j) = MAX_DSC_NUM" "dsc_used j \<le> MAX_DSC_NUM"
    using fill by (auto simp: caam_ready_def job_filled_def)
  show ?thesis
    unfolding run_job_def
    apply (simp add: rj dsc Let_def)
    apply (rule wp_prepare_dma_bytes [OF ok])
    apply (simp add: rj, rule impI)
    apply (rule wp_prepare_dma_bytes [OF ok])
    apply (simp, rule impI)
    apply (rule wp_clk, simp)
    apply (rule wp_poll)
    apply (rule dev)
        apply (simp_all add: drv_frame_def caam_ready_def rj dsc)
    apply (rule wp_finish_dma_out)
     apply simp
    apply (simp, rule impI)
    apply (rule Q)
      apply (simp_all add: drv_frame_def caam_ready_def rj dsc)
    done
qed

lemma wp_run_job:
  fixes s :: "('w, 'z) caam_state_scheme"
  assumes ok: "dma_ok E" and rdy: "caam_ready s" and fill: "job_filled s"
    and win: "dma_windows s = [(p, n)]" "in_obj s p n"
    and Q: "\<And>s' bs. length bs = n \<Longrightarrow> drv_frame s s' \<Longrightarrow> dma_windows s' = [] \<Longrightarrow>
      mem s' = mem (put_mem p bs s) \<Longrightarrow> Q () s'"
  shows "wp (run_job E) Q s"
proof (rule wp_run_job_gen [OF ok rdy fill,
    where M = "\<lambda>m. \<exists>bs. length bs = n \<and> m = mem (put_mem p bs s)"])
  fix t :: "('w, 'z) caam_state_scheme" and R
  assume t: "dma_windows t = dma_windows s" "mem t = mem s"
    and R: "\<And>u. drv_frame t u \<Longrightarrow> g_rings u = g_rings t \<Longrightarrow>
      \<exists>bs. length bs = n \<and> mem u = mem (put_mem p bs s) \<Longrightarrow> dma_windows u = [] \<Longrightarrow> R () u"
  show "wp (device_done E) R t"
  proof (rule wp_device_done1)
    show "dma_windows t = [(p, n)]" "in_obj t p n" using t win by (simp_all add: in_obj_def)
    fix bs :: "byte list" assume "length bs = n"
    then show "R () ((put_mem p bs t)\<lparr>dma_windows := []\<rparr>)"
      using t by (intro R) (auto simp: drv_frame_def put_mem_def intro!: exI [of _ bs])
  qed
qed (use Q in blast)

lemma wp_run_job0:
  fixes s :: "('w, 'z) caam_state_scheme"
  assumes ok: "dma_ok E" and rdy: "caam_ready s" and fill: "job_filled s" and win: "dma_windows s = []"
    and Q: "\<And>s'. drv_frame s s' \<Longrightarrow> dma_windows s' = [] \<Longrightarrow> mem s' = mem s \<Longrightarrow> Q () s'"
  shows "wp (run_job E) Q s"
proof (rule wp_run_job_gen [OF ok rdy fill, where M = "\<lambda>m. m = mem s"])
  fix t :: "('w, 'z) caam_state_scheme" and R
  assume "dma_windows t = dma_windows s" "mem t = mem s"
    and R: "\<And>u. drv_frame t u \<Longrightarrow> g_rings u = g_rings t \<Longrightarrow> mem u = mem s \<Longrightarrow> dma_windows u = [] \<Longrightarrow> R () u"
  then show "wp (device_done E) R t" using win by (intro wp_device_done0 R) simp_all
qed (rule Q)

text \<open>
  What a job leaves behind: the driver is as it was, no window is open, only the bytes
  of the output range may have changed, and on success they are what the device left
  in memory there.
\<close>

definition job_post ::
  "'w env \<Rightarrow> cptr \<Rightarrow> nat \<Rightarrow> ('w, 'z) caam_state_scheme \<Rightarrow> u32 \<Rightarrow> ('w, 'z) caam_state_scheme \<Rightarrow> bool" where
  "job_post E out n s r s' \<longleftrightarrow> drv_frame s s' \<and> dma_windows s' = [] \<and>
     (r = CAAM_SUCCESS \<or> r = CAAM_FAILURE) \<and>
     (\<exists>bs. length bs = n \<and> mem s' = mem (put_mem out bs s) \<and>
       (r = CAAM_SUCCESS \<longrightarrow> bs = map (dma_ram E (world s') out) [0..<n]))"

lemma job_post_failed:
  assumes "in_obj s out n" and "drv_frame s s'" and "dma_windows s' = []" and "mem s' = mem s"
  shows "job_post E out n s CAAM_FAILURE s'"
proof -
  let ?bs = "take n (drop (snd out) (mem s (fst out)))"
  have "length ?bs = n"
    using assms(1) by (auto simp: in_obj_def)
  moreover have "mem s' = mem (put_mem out ?bs s)"
    using mem_put_mem_own [OF assms(1)] assms(4) by simp
  ultimately show ?thesis
    using assms(2,3) unfolding job_post_def by (intro conjI exI [of _ ?bs]) simp_all
qed

text \<open>
  The last part every job shares: fill the descriptor, run it, read its status, take the
  output over.
\<close>

lemma wp_submit:
  fixes s :: "('w, 'z) caam_state_scheme"
  assumes ok: "dma_ok E" and rdy: "caam_ready s" and win: "dma_windows s = [(out, unat n)]"
    and obj: "in_obj s out (unat n)" and ws: "length ws \<le> MAX_DSC_NUM"
    and Q: "\<And>r s'. job_post E out (unat n) s r s' \<Longrightarrow> Q r s'"
  shows "wp (mthen (set_dsc ws) (mthen (run_job E) (mbind job_failed (\<lambda>failed.
     if failed then mret CAAM_FAILURE else mthen (finish_dma E out n) (mret CAAM_SUCCESS))))) Q s"
proof -
  have tail: "wp (mbind job_failed (\<lambda>failed. if failed then mret CAAM_FAILURE
       else mthen (finish_dma E out n) (mret CAAM_SUCCESS))) Q u"
    if u: "drv_frame s u" "dma_windows u = []" "length bs = unat n" "mem u = mem (put_mem out bs s)"
    for u bs
  proof -
    have rdy': "caam_ready u" using rdy u by (simp add: drv_frame_def)
    have obj': "in_obj u out (unat n)" using obj u by (simp add: in_obj_def)
    have 1: "Q CAAM_FAILURE u" using u by (intro Q) (auto simp: job_post_def)
    have 2: "Q CAAM_SUCCESS ((put_mem out (map (dma_ram E w out) [0..<unat n]) u)\<lparr>world := w\<rparr>)" for w
      using u obj by (intro Q) (auto simp: job_post_def drv_frame_def put_mem_def in_obj_def)
    show ?thesis
      by (simp, rule wp_job_failed [OF rdy']) (simp add: 1 2 finish_dma_def obj')
  qed
  have "wp (mthen (run_job E) (mbind job_failed (\<lambda>failed. if failed then mret CAAM_FAILURE
       else mthen (finish_dma E out n) (mret CAAM_SUCCESS)))) Q t"
    if t: "drv_frame s t" "dma_windows t = dma_windows s" "mem t = mem s" "job_filled t" for t
  proof (subst wp_basic, rule wp_run_job [OF ok])
    show "caam_ready t" "job_filled t" "dma_windows t = [(out, unat n)]" "in_obj t out (unat n)"
      using t rdy win obj by (simp_all add: drv_frame_def in_obj_def)
    fix u and bs :: "byte list"
    assume "length bs = unat n" "drv_frame t u" "dma_windows u = []" "mem u = mem (put_mem out bs t)"
    moreover from this t have "mem u = mem (put_mem out bs s)" by (simp add: fun_eq_iff)
    ultimately show "wp (mbind job_failed (\<lambda>failed. if failed then mret CAAM_FAILURE
       else mthen (finish_dma E out n) (mret CAAM_SUCCESS))) Q u"
      using t tail drv_frame_trans by blast
  qed
  then show ?thesis
    by (subst wp_basic, intro wp_set_dsc [OF rdy ws]) simp_all
qed
lemma wp_prepare_to:
  fixes s :: "('w, 'z) caam_state_scheme"
  assumes "dma_ok E" and "in_obj s p (unat n)"
    and "\<And>rc pmem t. drv_frame s t \<Longrightarrow> mem t = mem s \<Longrightarrow> dma_windows t = dma_windows s \<Longrightarrow> Q (rc, pmem) t"
  shows "wp (prepare_dma E p n {DMA_FLAG_TO_DEVICE}) Q s"
  using assms by (intro wp_prepare_dma) simp_all

lemma wp_prepare_from:
  fixes s :: "('w, 'z) caam_state_scheme"
  assumes "dma_ok E" and "in_obj s p (unat n)" and "DMA_FLAG_FROM_DEVICE \<in> flags"
    and "\<And>rc pmem t. drv_frame s t \<Longrightarrow> mem t = mem s \<Longrightarrow> segment_ok rc pmem n flags \<Longrightarrow>
      dma_windows t = dma_windows s @ (if rc = 1 then [(p, unat (pm_size pmem))] else []) \<Longrightarrow>
      Q (rc, pmem) t"
  shows "wp (prepare_dma E p n flags) Q s"
  using assms by (intro wp_prepare_dma) simp_all

lemma job_post_trans:
  assumes "job_post E out n t r s'" and "drv_frame s t" and "mem t = mem s"
  shows "job_post E out n s r s'"
  using assms by (auto simp: job_post_def put_mem_def intro: drv_frame_trans)

lemma wp_out_job:
  fixes s :: "('w, 'z) caam_state_scheme"
  assumes ok: "dma_ok E" and rdy: "caam_ready s" and win: "dma_windows s = []"
    and obj: "in_obj s out (unat n)" and ws: "\<And>pa. length (ws pa) \<le> MAX_DSC_NUM"
    and Q: "\<And>r s'. job_post E out (unat n) s r s' \<Longrightarrow> Q r s'"
  shows "wp (mbind (prepare_dma E out n {DMA_FLAG_FROM_DEVICE}) (\<lambda>(ret, pmem).
     if ret \<noteq> 1 then mret CAAM_FAILURE else let pa = ucast (paddr pmem) in
     mthen (set_dsc (ws pa)) (mthen (run_job E) (mbind job_failed (\<lambda>failed.
     if failed then mret CAAM_FAILURE else mthen (finish_dma E out n) (mret CAAM_SUCCESS)))))) Q s"
proof (subst wp_basic, rule wp_prepare_from [OF ok obj])
  fix rc :: int and pmem and t :: "('w, 'z) caam_state_scheme"
  assume t: "drv_frame s t" "mem t = mem s" "segment_ok rc pmem n {DMA_FLAG_FROM_DEVICE}"
    "dma_windows t = dma_windows s @ (if rc = 1 then [(out, unat (pm_size pmem))] else [])"
  show "wp (case (rc, pmem) of (ret, pmem) \<Rightarrow>
     if ret \<noteq> 1 then mret CAAM_FAILURE else let pa = ucast (paddr pmem) in
     mthen (set_dsc (ws pa)) (mthen (run_job E) (mbind job_failed (\<lambda>failed.
     if failed then mret CAAM_FAILURE else mthen (finish_dma E out n) (mret CAAM_SUCCESS))))) Q t"
  proof (cases "rc = 1")
    case True
    have "wp (mthen (set_dsc (ws pa)) (mthen (run_job E) (mbind job_failed (\<lambda>failed.
       if failed then mret CAAM_FAILURE else mthen (finish_dma E out n) (mret CAAM_SUCCESS))))) Q t" for pa
    proof (rule wp_submit [OF ok])
      show "caam_ready t" "dma_windows t = [(out, unat n)]" "in_obj t out (unat n)"
        using True t rdy win obj by (simp_all add: segment_ok_def drv_frame_def in_obj_def)
    qed (auto intro: ws Q job_post_trans [OF _ t(1,2)])
    with True show ?thesis by (simp add: Let_def)
  next
    case False
    with t win obj show ?thesis by (simp add: Q job_post_failed)
  qed
qed simp

lemma wp_prep_then:
  fixes s :: "('w, 'z) caam_state_scheme"
  assumes ok: "dma_ok E" and rdy: "caam_ready s" and win: "dma_windows s = []"
    and obj: "in_obj s p (unat n)" "in_obj s out (unat m)"
    and Q: "\<And>r s'. job_post E out (unat m) s r s' \<Longrightarrow> Q r s'"
    and k: "\<And>pa t R. caam_ready t \<Longrightarrow> dma_windows t = [] \<Longrightarrow> mem t = mem s \<Longrightarrow>
      (\<And>r s'. job_post E out (unat m) t r s' \<Longrightarrow> R r s') \<Longrightarrow> wp (k pa) R t"
  shows "wp (mbind (prepare_dma E p n {DMA_FLAG_TO_DEVICE}) (\<lambda>(ret, pmem).
     if ret \<noteq> 1 then mret CAAM_FAILURE else let pa = ucast (paddr pmem) in k pa)) Q s"
proof (subst wp_basic, rule wp_prepare_to [OF ok obj(1)])
  fix rc :: int and pmem and t :: "('w, 'z) caam_state_scheme"
  assume t: "drv_frame s t" "mem t = mem s" "dma_windows t = dma_windows s"
  have "wp (k pa) Q t" for pa
    using t rdy win by (intro k) (auto simp: drv_frame_def intro!: Q job_post_trans [OF _ t(1,2)])
  moreover have "Q CAAM_FAILURE t" using t win obj by (intro Q job_post_failed) simp_all
  ultimately show "wp (case (rc, pmem) of (ret, pmem) \<Rightarrow>
     if ret \<noteq> 1 then mret CAAM_FAILURE else let pa = ucast (paddr pmem) in k pa) Q t"
    by (simp add: Let_def)
qed

text \<open>
  The weaker frame for an operation that runs several jobs on one range: at most the
  bytes of the range have changed.
\<close>

definition out_frame ::
  "cptr \<Rightarrow> nat \<Rightarrow> ('w, 'z) caam_state_scheme \<Rightarrow> ('w, 'z) caam_state_scheme \<Rightarrow> bool" where
  "out_frame out n s s' \<longleftrightarrow> drv_frame s s' \<and> dma_windows s' = [] \<and>
     (\<exists>bs. length bs = n \<and> mem s' = mem (put_mem out bs s))"

lemma job_post_out_frame: "job_post E out n s r s' \<Longrightarrow> out_frame out n s s'"
  by (auto simp: job_post_def out_frame_def)

lemma out_frame_refl: "in_obj s out n \<Longrightarrow> dma_windows s = [] \<Longrightarrow> out_frame out n s s"
  using job_post_failed [of s out n s] job_post_out_frame by fastforce

lemma out_frame_pad:
  assumes "out_frame out m s s'" and "m \<le> n" and "in_obj s out n"
  shows "out_frame out n s s'"
proof -
  from assms obtain bs where bs: "length bs = m" "mem s' = mem (put_mem out bs s)"
    by (auto simp: out_frame_def)
  with assms obtain cs where "length cs = n"
    "overwrite (snd out) bs (mem s (fst out)) = overwrite (snd out) cs (mem s (fst out))"
    using overwrite_pad [of bs n "snd out" "mem s (fst out)"] by (auto simp: in_obj_def)
  with assms(1) bs show ?thesis by (auto simp: out_frame_def put_mem_def)
qed

lemma out_frame_append:
  assumes "out_frame out m s t" and "out_frame (fst out, snd out + m) n t u"
    and "in_obj s out (m + n)"
  shows "out_frame out (m + n) s u"
proof -
  from assms(1) obtain bs where bs: "length bs = m" "mem t = mem (put_mem out bs s)"
    by (auto simp: out_frame_def)
  from assms(2) obtain cs where cs: "length cs = n"
    "mem u = mem (put_mem (fst out, snd out + m) cs t)" by (auto simp: out_frame_def)
  have "mem u = mem (put_mem out (bs @ cs) s)"
    using bs cs assms(3) overwrite_append [of "snd out" bs cs "mem s (fst out)"]
    by (auto simp: in_obj_def fun_eq_iff)
  with assms(1,2) bs cs show ?thesis
    by (auto simp: out_frame_def intro: drv_frame_trans intro!: exI [of _ "bs @ cs"])
qed

lemma out_frame_in_obj:
  "out_frame out m s t \<Longrightarrow> in_obj s out m \<Longrightarrow> in_obj t p n = in_obj s p n"
  by (auto simp: out_frame_def in_obj_def split: if_splits)

text \<open>A job whose success is followed by more work \<open>k\<close>.\<close>

lemma wp_submit_then:
  fixes s :: "('w, 'z) caam_state_scheme"
  assumes ok: "dma_ok E" and rdy: "caam_ready s" and win: "dma_windows s = [(out, unat n)]"
    and obj: "in_obj s out (unat n)" and ws: "length ws \<le> MAX_DSC_NUM"
    and fail: "\<And>s'. out_frame out (unat n) s s' \<Longrightarrow> Q CAAM_FAILURE s'"
    and k: "\<And>t. out_frame out (unat n) s t \<Longrightarrow> wp k Q t"
  shows "wp (mthen (set_dsc ws) (mthen (run_job E) (mbind job_failed (\<lambda>failed.
     if failed then mret CAAM_FAILURE else mthen (finish_dma E out n) k)))) Q s"
proof -
  have "wp (mthen (set_dsc ws) (mthen (run_job E) (mbind job_failed (\<lambda>failed.
     if failed then mret CAAM_FAILURE else mthen (finish_dma E out n) (mret CAAM_SUCCESS)))))
     (\<lambda>r s'. if r = CAAM_FAILURE then Q r s' else wp k Q s') s"
    using assms(1-5) by (rule wp_submit) (auto dest: job_post_out_frame intro: fail k)
  then show ?thesis by (simp cong: if_cong)
qed

section \<open>The driver keeps the cookies\<close>

lemma keeps_poll [keeps_intros]: "quiet obs E \<Longrightarrow> keeps obs (poll_reg E n a ok)"
  by (induction n) (auto intro!: keeps_intros)

lemma keeps_drv [keeps_intros]:
  assumes "quiet obs E"
  shows "keeps obs (read_reg E r)" "keeps obs (write_reg E v r)" "keeps obs (caam_clk_get E)"
    "keeps obs (setup_job_rings E)" "keeps obs (finish_dma_out E)" "keeps obs (set_dsc ws)"
    "keeps obs job_failed"
  using assms
  by (auto simp: read_reg_def write_reg_def caam_clk_get_def setup_job_rings_def finish_dma_out_def
      set_dsc_def job_failed_def intro!: keeps_intros)

lemma keeps_run_job [keeps_intros]: "quiet obs E \<Longrightarrow> keeps obs (run_job E)"
  unfolding run_job_def by (intro keeps_intros) (simp_all add: keeps_intros)

end
