(* ===== verification/Caam_Jobs.thy ===== *)
theory Caam_Jobs
  imports Caam
begin

text \<open>
  The jobs of the CAAM driver (caam.c): blob encapsulation and decapsulation, AES,
  random numbers, SHA-1 and the KDF root key.
\<close>

section \<open>Blobs\<close>

definition decap_dsc :: "u32 \<Rightarrow> u32 \<Rightarrow> u32 \<Rightarrow> u32 \<Rightarrow> u32 list" where
  "decap_dsc kmod_pa blob_pa plain_pa len =
     [0xB0800008, 0x14400010, kmod_pa,
      0xF0000000 OR (0x0000ffff AND (len + CAAM_KB_HEADER_LEN)), blob_pa,
      0xF8000000 OR (0x0000ffff AND len), plain_pa,
      0x860D0000]"

definition caam_decap_blob ::
  "'w env \<Rightarrow> cptr \<Rightarrow> u32 \<Rightarrow> cptr \<Rightarrow> cptr \<Rightarrow> u32 \<Rightarrow> (('w, 'z) caam_state_scheme, u32) prog" where
  "caam_decap_blob E kmod kmod_size plain blob len =
     mthen (massert (len + CAAM_KB_HEADER_LEN < 0xFFFF))
     (mthen (massert (kmod_size = 16))
     (mbind (prepare_dma E kmod kmod_size {DMA_FLAG_TO_DEVICE}) (\<lambda>(ret, pmem).
     if ret \<noteq> 1 then mret CAAM_FAILURE else
     let kmod_pa = ucast (paddr pmem) in
     mbind (prepare_dma E blob (len + CAAM_KB_HEADER_LEN) {DMA_FLAG_TO_DEVICE}) (\<lambda>(ret, pmem).
     if ret \<noteq> 1 then mret CAAM_FAILURE else
     let blob_pa = ucast (paddr pmem) in
     mbind (prepare_dma E plain len {DMA_FLAG_FROM_DEVICE}) (\<lambda>(ret, pmem).
     if ret \<noteq> 1 then mret CAAM_FAILURE else
     let plain_pa = ucast (paddr pmem) in
     mthen (set_dsc (decap_dsc kmod_pa blob_pa plain_pa len))
     (mthen (run_job E)
     (mbind job_failed (\<lambda>failed.
     if failed then mret CAAM_FAILURE else
     mthen (finish_dma E plain len)
     (mret CAAM_SUCCESS)))))))))"

definition encap_dsc :: "u32 \<Rightarrow> u32 \<Rightarrow> u32 \<Rightarrow> u32 \<Rightarrow> u32 list" where
  "encap_dsc kmod_pa plain_pa blob_pa len =
     [0xB0800008, 0x14400010, kmod_pa,
      0xF0000000 OR (0x0000ffff AND len), plain_pa,
      0xF8000000 OR (0x0000ffff AND (len + CAAM_KB_HEADER_LEN)), blob_pa,
      0x870D0000]"

definition caam_gen_blob ::
  "'w env \<Rightarrow> cptr \<Rightarrow> u32 \<Rightarrow> cptr \<Rightarrow> cptr \<Rightarrow> u32 \<Rightarrow> (('w, 'z) caam_state_scheme, u32) prog" where
  "caam_gen_blob E kmod kmod_size plain blob len =
     mthen (massert (len + CAAM_KB_HEADER_LEN < 0xFFFF))
     (mthen (massert (kmod_size = 16))
     (mbind (prepare_dma E kmod kmod_size {DMA_FLAG_TO_DEVICE}) (\<lambda>(ret, pmem).
     if ret \<noteq> 1 then mret CAAM_FAILURE else
     let kmod_pa = ucast (paddr pmem) in
     mbind (prepare_dma E plain len {DMA_FLAG_TO_DEVICE}) (\<lambda>(ret, pmem).
     if ret \<noteq> 1 then mret CAAM_FAILURE else
     let plain_pa = ucast (paddr pmem) in
     mbind (prepare_dma E blob (len + CAAM_KB_HEADER_LEN) {DMA_FLAG_FROM_DEVICE}) (\<lambda>(ret, pmem).
     if ret \<noteq> 1 then mret CAAM_FAILURE else
     let blob_pa = ucast (paddr pmem) in
     mthen (set_dsc (encap_dsc kmod_pa plain_pa blob_pa len))
     (mthen (run_job E)
     (mbind job_failed (\<lambda>failed.
     if failed then mret CAAM_FAILURE else
     mthen (finish_dma E blob (len + CAAM_KB_HEADER_LEN))
     (mret CAAM_SUCCESS)))))))))"

section \<open>AES\<close>

definition aes_dsc :: "u32 \<Rightarrow> u32 \<Rightarrow> u32 \<Rightarrow> u32 \<Rightarrow> bool \<Rightarrow> u32 list" where
  "aes_dsc key_pa in_pa out_pa len enc =
     [0xb0800008, 0x02000010, key_pa,
      if enc then 0x8210020D else 0x8210020C,
      0x22120000 OR (0x0000ffff AND len), in_pa,
      0x60300000 OR (0x0000ffff AND len), out_pa]"

definition caam_aes_op ::
  "'w env \<Rightarrow> cptr \<Rightarrow> u32 \<Rightarrow> cptr \<Rightarrow> cptr \<Rightarrow> u32 \<Rightarrow> bool \<Rightarrow> (('w, 'z) caam_state_scheme, u32) prog" where
  "caam_aes_op E key key_size inp out len enc =
     mthen (massert (key_size = 16))
     (mthen (massert (len \<le> 0xFFFF))
     (mthen (massert (len mod 16 = 0))
     (mbind (prepare_dma E key key_size {DMA_FLAG_TO_DEVICE}) (\<lambda>(ret, pmem).
     if ret \<noteq> 1 then mret CAAM_FAILURE else
     let key_pa = ucast (paddr pmem) in
     mbind (prepare_dma E inp len {DMA_FLAG_TO_DEVICE}) (\<lambda>(ret, pmem).
     if ret \<noteq> 1 then mret CAAM_FAILURE else
     let in_pa = ucast (paddr pmem) in
     mbind (prepare_dma E out len {DMA_FLAG_FROM_DEVICE}) (\<lambda>(ret, pmem).
     if ret \<noteq> 1 then mret CAAM_FAILURE else
     let out_pa = ucast (paddr pmem) in
     mthen (set_dsc (aes_dsc key_pa in_pa out_pa len enc))
     (mthen (run_job E)
     (mbind job_failed (\<lambda>failed.
     if failed then mret CAAM_FAILURE else
     mthen (finish_dma E out len)
     (mret CAAM_SUCCESS))))))))))"

section \<open>Random numbers\<close>

definition hwrng_dsc :: "u32 \<Rightarrow> u32 \<Rightarrow> u32 list" where
  "hwrng_dsc len pa = [0xB0800004, 0x82500000, 0x60340000 OR (0x0000ffff AND len), pa]"

text \<open>
  \<^verbatim>\<open>while (len) { ... }\<close>: each round serves one contiguous physical segment. The first
  argument is fuel; one more than the number of bytes is enough, since a segment is not
  empty.
\<close>

fun caam_hwrng_loop ::
  "'w env \<Rightarrow> nat \<Rightarrow> cptr \<Rightarrow> u32 \<Rightarrow> (('w, 'z) caam_state_scheme, u32) prog" where
  "caam_hwrng_loop E 0 out len = mstop NoReturn"
| "caam_hwrng_loop E (Suc fuel) out len =
     (if len = 0 then mret CAAM_SUCCESS else
     mbind (prepare_dma E out len {DMA_FLAG_FROM_DEVICE, DMA_FLAG_ALLOW_PARTIAL}) (\<lambda>(ret, pmem).
     if ret \<noteq> 1 then mret CAAM_FAILURE else
     mthen (set_dsc (hwrng_dsc (pm_size pmem) (ucast (paddr pmem))))
     (mthen (run_job E)
     (mbind job_failed (\<lambda>failed.
     if failed then mret CAAM_FAILURE else
     mthen (finish_dma E out (pm_size pmem))
     (caam_hwrng_loop E fuel (fst out, snd out + unat (pm_size pmem)) (len - pm_size pmem)))))))"

definition caam_hwrng :: "'w env \<Rightarrow> cptr \<Rightarrow> u32 \<Rightarrow> (('w, 'z) caam_state_scheme, u32) prog" where
  "caam_hwrng E out len = caam_hwrng_loop E (Suc (unat len)) out len"

section \<open>Key box, SHA-1, KDF root key\<close>

text \<open>\<^verbatim>\<open>caam_get_keybox\<close> returns \<^verbatim>\<open>sram_base\<close>: the start of the secure RAM.\<close>

definition caam_get_keybox :: cptr where
  "caam_get_keybox = (Sram, 0)"

definition hash_dsc :: "u32 \<Rightarrow> u32 \<Rightarrow> u32 \<Rightarrow> u32 list" where
  "hash_dsc in_pa out_pa len =
     [0xB0800006, 0x8441000D, 0x24140000 OR (0x0000ffff AND len), in_pa, 0x54200000 OR 20, out_pa]"

definition caam_hash :: "'w env \<Rightarrow> cptr \<Rightarrow> cptr \<Rightarrow> u32 \<Rightarrow> (('w, 'z) caam_state_scheme, u32) prog" where
  "caam_hash E inp out len =
     mthen (massert (len \<le> 0xFFFF))
     (mbind (prepare_dma E inp len {DMA_FLAG_TO_DEVICE}) (\<lambda>(ret, pmem).
     if ret \<noteq> 1 then mret CAAM_FAILURE else
     let in_pa = ucast (paddr pmem) in
     mbind (prepare_dma E out len {DMA_FLAG_FROM_DEVICE}) (\<lambda>(ret, pmem).
     if ret \<noteq> 1 then mret CAAM_FAILURE else
     let out_pa = ucast (paddr pmem) in
     mthen (set_dsc (hash_dsc in_pa out_pa len))
     (mthen (run_job E)
     (mbind job_failed (\<lambda>failed.
     if failed then mret CAAM_FAILURE else
     mthen (finish_dma E out len)
     (mret CAAM_SUCCESS)))))))"

definition kdfv1_dsc :: "u32 \<Rightarrow> u32 list" where
  "kdfv1_dsc pa =
     [0xB080000B, 0x14C00010, 0x7083A393, 0x2CC0C9F7, 0xFC5D2FC0, 0x2C4B04E7,
      0xF0000000, 0, 0xF8000030, pa, 0x870D0002]"

definition caam_gen_kdfv1_root_key ::
  "'w env \<Rightarrow> cptr \<Rightarrow> u32 \<Rightarrow> (('w, 'z) caam_state_scheme, u32) prog" where
  "caam_gen_kdfv1_root_key E out len =
     mthen (massert (len = 32))
     (mbind (prepare_dma E out len {DMA_FLAG_FROM_DEVICE}) (\<lambda>(ret, pmem).
     if ret \<noteq> 1 then mret CAAM_FAILURE else
     let pa = ucast (paddr pmem) in
     mthen (set_dsc (kdfv1_dsc pa))
     (mthen (run_job E)
     (mbind job_failed (\<lambda>failed.
     if failed then mret CAAM_FAILURE else
     mthen (finish_dma E out len)
     (mret CAAM_SUCCESS))))))"

section \<open>What each job leaves behind\<close>

lemma wp_caam_decap_blob:
  fixes s :: "('w, 'z) caam_state_scheme"
  assumes ok: "dma_ok E" and "caam_ready s" "dma_windows s = []"
    and obj: "in_obj s kmod 16" "in_obj s blob (unat (len + CAAM_KB_HEADER_LEN))"
      "in_obj s plain (unat len)"
    and "\<And>r s'. job_post E plain (unat len) s r s' \<Longrightarrow> Q r s'"
  shows "wp (caam_decap_blob E kmod kmod_size plain blob len) Q s"
  unfolding caam_decap_blob_def wp_basic(3,7)
  using assms
  by (intro impI wp_prep_then [OF ok, where m = len and out = plain] wp_out_job [OF ok])
     (simp_all del: wp_basic add: in_obj_def decap_dsc_def MAX_DSC_NUM_def)

lemma wp_caam_gen_blob:
  fixes s :: "('w, 'z) caam_state_scheme"
  assumes ok: "dma_ok E" and "caam_ready s" "dma_windows s = []"
    and "in_obj s kmod 16" "in_obj s plain (unat len)"
      "in_obj s blob (unat (len + CAAM_KB_HEADER_LEN))"
    and "\<And>r s'. job_post E blob (unat (len + CAAM_KB_HEADER_LEN)) s r s' \<Longrightarrow> Q r s'"
  shows "wp (caam_gen_blob E kmod kmod_size plain blob len) Q s"
  unfolding caam_gen_blob_def wp_basic(3,7)
  using assms
  by (intro impI wp_prep_then [OF ok, where m = "len + CAAM_KB_HEADER_LEN" and out = blob]
      wp_out_job [OF ok])
     (simp_all del: wp_basic add: in_obj_def encap_dsc_def MAX_DSC_NUM_def)

lemma wp_caam_aes_op:
  fixes s :: "('w, 'z) caam_state_scheme"
  assumes ok: "dma_ok E" and "caam_ready s" "dma_windows s = []"
    and "in_obj s key 16" "in_obj s inp (unat len)" "in_obj s out (unat len)"
    and "\<And>r s'. job_post E out (unat len) s r s' \<Longrightarrow> Q r s'"
  shows "wp (caam_aes_op E key key_size inp out len enc) Q s"
  unfolding caam_aes_op_def wp_basic(3,7)
  using assms
  by (intro impI wp_prep_then [OF ok, where m = len and out = out] wp_out_job [OF ok])
     (simp_all del: wp_basic add: in_obj_def aes_dsc_def MAX_DSC_NUM_def)

lemma wp_caam_hash:
  fixes s :: "('w, 'z) caam_state_scheme"
  assumes ok: "dma_ok E" and "caam_ready s" "dma_windows s = []"
    and "in_obj s inp (unat len)" "in_obj s out (unat len)"
    and "\<And>r s'. job_post E out (unat len) s r s' \<Longrightarrow> Q r s'"
  shows "wp (caam_hash E inp out len) Q s"
  unfolding caam_hash_def wp_basic(3,7)
  using assms
  by (intro impI wp_prep_then [OF ok, where m = len and out = out] wp_out_job [OF ok])
     (simp_all del: wp_basic add: in_obj_def hash_dsc_def MAX_DSC_NUM_def)

lemma wp_caam_gen_kdfv1_root_key:
  assumes "dma_ok E" "caam_ready s" "dma_windows s = []" "in_obj s out (unat len)"
    and Q: "\<And>r s'. job_post E out (unat len) s r s' \<Longrightarrow> Q r s'"
  shows "wp (caam_gen_kdfv1_root_key E out len) Q s"
  unfolding caam_gen_kdfv1_root_key_def wp_basic(3,7)
  using assms by (intro impI wp_out_job) (simp_all add: kdfv1_dsc_def MAX_DSC_NUM_def)

text \<open>One round of the loop of \<^verbatim>\<open>caam_hwrng\<close>, with what follows it as \<open>k\<close>.\<close>

lemma wp_hwrng_round:
  fixes s :: "('w, 'z) caam_state_scheme"
  assumes ok: "dma_ok E" and rdy: "caam_ready s" and win: "dma_windows s = []"
    and out: "in_obj s out (unat len)"
    and fail: "\<And>u. out_frame out (unat len) s u \<Longrightarrow> Q CAAM_FAILURE u"
    and k: "\<And>n u. n \<le> len \<Longrightarrow> out_frame out (unat n) s u \<Longrightarrow> wp (k n) Q u"
  shows "wp (mbind (prepare_dma E out len {DMA_FLAG_FROM_DEVICE, DMA_FLAG_ALLOW_PARTIAL})
     (\<lambda>(ret, pmem). if ret \<noteq> 1 then mret CAAM_FAILURE else
     mthen (set_dsc (hwrng_dsc (pm_size pmem) (ucast (paddr pmem)))) (mthen (run_job E)
     (mbind job_failed (\<lambda>failed. if failed then mret CAAM_FAILURE else
     mthen (finish_dma E out (pm_size pmem)) (k (pm_size pmem))))))) Q s"
proof (subst wp_basic, rule wp_prepare_from [OF ok out])
  fix rc :: int and pmem :: dma_pmem and t :: "('w, 'z) caam_state_scheme"
  let ?n = "pm_size pmem"
  assume t: "drv_frame s t" "mem t = mem s"
    "segment_ok rc pmem len {DMA_FLAG_FROM_DEVICE, DMA_FLAG_ALLOW_PARTIAL}"
    "dma_windows t = dma_windows s @ (if rc = 1 then [(out, unat ?n)] else [])"
  have tin: "in_obj t p i = in_obj s p i" for p i using t(2) by (simp add: in_obj_def)
  have tf: "out_frame p i t u \<Longrightarrow> out_frame p i s u" for p i u
    using t(1,2) by (auto simp: out_frame_def put_mem_def intro: drv_frame_trans)
  have "wp (mthen (set_dsc ws) (mthen (run_job E) (mbind job_failed (\<lambda>failed.
      if failed then mret CAAM_FAILURE else mthen (finish_dma E out ?n) (k ?n))))) Q t"
    if rc: "rc = 1" and ws: "length ws \<le> MAX_DSC_NUM" for ws
  proof (rule wp_submit_then [OF ok _ _ _ ws])
    have le: "?n \<le> len" using t rc by (simp add: segment_ok_def)
    then show "caam_ready t" "dma_windows t = [(out, unat ?n)]" "in_obj t out (unat ?n)"
      using rc t rdy win out by (simp_all add: drv_frame_def in_obj_def word_le_nat_alt)
    fix u assume "out_frame out (unat ?n) t u"
    then have u: "out_frame out (unat ?n) s u" by (rule tf)
    show "wp (k ?n) Q u" using le u by (rule k)
    show "Q CAAM_FAILURE u" using out le by (intro fail out_frame_pad [OF u]) (simp_all add: word_le_nat_alt)
  qed
  moreover have "Q CAAM_FAILURE t" if "rc \<noteq> 1"
    using that t win out by (intro fail tf out_frame_refl) (simp_all add: tin)
  ultimately show "wp (case (rc, pmem) of (ret, pmem) \<Rightarrow> if ret \<noteq> 1 then mret CAAM_FAILURE else
     mthen (set_dsc (hwrng_dsc (pm_size pmem) (ucast (paddr pmem)))) (mthen (run_job E)
     (mbind job_failed (\<lambda>failed. if failed then mret CAAM_FAILURE else
     mthen (finish_dma E out (pm_size pmem)) (k (pm_size pmem)))))) Q t"
    by (auto simp del: wp_basic(2,3) simp: hwrng_dsc_def MAX_DSC_NUM_def)
qed simp

lemma wp_caam_hwrng_loop:
  fixes s :: "('w, 'z) caam_state_scheme"
  assumes ok: "dma_ok E" and "caam_ready s" "dma_windows s = []" "in_obj s out (unat len)"
    and "\<And>r s'. out_frame out (unat len) s s' \<Longrightarrow> r = CAAM_SUCCESS \<or> r = CAAM_FAILURE \<Longrightarrow> Q r s'"
  shows "wp (caam_hwrng_loop E fuel out len) Q s"
  using assms(2-)
proof (induction fuel arbitrary: out len s)
  case (Suc fuel)
  note out = \<open>in_obj s out (unat len)\<close>
  have round: "wp (caam_hwrng_loop E fuel (fst out, snd out + unat n) (len - n)) Q u"
    if n: "n \<le> len" and u: "out_frame out (unat n) s u" for n u
  proof (rule Suc.IH)
    from n have len: "unat len = unat n + unat (len - n)"
      by (simp add: unat_sub word_le_nat_alt)
    show "caam_ready u" "dma_windows u = []"
      using u Suc.prems by (simp_all add: out_frame_def drv_frame_def)
    have "in_obj s out (unat n)" using out len by (simp add: in_obj_def)
    then have "in_obj u p i = in_obj s p i" for p i by (rule out_frame_in_obj [OF u])
    then show "in_obj u (fst out, snd out + unat n) (unat (len - n))"
      using out len by (simp only:) (simp add: in_obj_def)
    fix r v assume v: "out_frame (fst out, snd out + unat n) (unat (len - n)) u v"
      and r: "r = CAAM_SUCCESS \<or> r = CAAM_FAILURE"
    have "out_frame out (unat len) s v" using out_frame_append [OF u v] out len by simp
    with r show "Q r v" by (intro Suc.prems(4))
  qed
  show ?case
  proof (cases "len = 0")
    case True
    with Suc.prems show ?thesis by (simp add: out_frame_refl)
  next
    case False
    show ?thesis unfolding caam_hwrng_loop.simps if_not_P [OF False]
      using Suc.prems by (intro wp_hwrng_round [OF ok] round) simp_all
  qed
qed simp

lemma wp_caam_hwrng:
  fixes s :: "('w, 'z) caam_state_scheme"
  assumes "dma_ok E" and "caam_ready s" "dma_windows s = []" "in_obj s out (unat len)"
    and "\<And>r s'. out_frame out (unat len) s s' \<Longrightarrow> r = CAAM_SUCCESS \<or> r = CAAM_FAILURE \<Longrightarrow> Q r s'"
  shows "wp (caam_hwrng E out len) Q s"
  unfolding caam_hwrng_def using assms by (rule wp_caam_hwrng_loop)

text \<open>
  The fuel of the loop does not matter as long as it exceeds the number of bytes: a
  segment is never empty, so every round makes progress.
\<close>

lemma hwrng_fuel:
  fixes s :: "('w, 'z) caam_state_scheme"
  assumes ok: "dma_ok E" and "unat len < f" and "unat len < g"
  shows "caam_hwrng_loop E f out len s = caam_hwrng_loop E g out len s"
  using assms(2,3)
proof (induction f arbitrary: g out len s)
  case (Suc f)
  then obtain g' where g: "g = Suc g'" by (cases g) auto
  show ?case
  proof (cases "len = 0")
    case False
    have "caam_hwrng_loop E f o' (len - n) t = caam_hwrng_loop E g' o' (len - n) t"
      if "n \<le> len" "n \<noteq> 0" for n o' and t :: "('w, 'z) caam_state_scheme"
    proof (rule Suc.IH)
      have "unat (len - n) < unat len"
        using that False by (simp add: unat_sub word_le_nat_alt unat_gt_0)
      then show "unat (len - n) < f" "unat (len - n) < g'" using Suc.prems g by auto
    qed
    moreover have "segment_ok rc pm n fl" if "k_prepare_dma E p bs n fl w = ((rc, pm), w')" for p bs n fl w rc pm w'
      using ok that unfolding dma_ok_def by blast
    ultimately show ?thesis
      using False by (auto simp: g prog_simps prepare_dma_def prepare_dma_bytes_def sys_def segment_ok_def
           split: sum.splits prod.splits if_splits)
  qed (simp add: g)
qed simp

section \<open>The jobs keep the cookies\<close>

lemma keeps_jobs [keeps_intros]:
  assumes "quiet obs E"
  shows "keeps obs (caam_decap_blob E kmod n plain blob len)"
    "keeps obs (caam_gen_blob E kmod n plain blob len)"
    "keeps obs (caam_aes_op E key n inp out len enc)"
    "keeps obs (caam_hash E inp out len)" "keeps obs (caam_gen_kdfv1_root_key E out len)"
  unfolding caam_decap_blob_def caam_gen_blob_def caam_aes_op_def caam_hash_def
    caam_gen_kdfv1_root_key_def
  using assms by (intro keeps_intros; simp)+

lemma keeps_hwrng [keeps_intros]: "quiet obs E \<Longrightarrow> keeps obs (caam_hwrng E out len)"
proof -
  assume q: "quiet obs E"
  have "keeps obs (caam_hwrng_loop E fuel out len)" for fuel out len
  proof (induction fuel arbitrary: out len)
    case (Suc fuel)
    show ?case unfolding caam_hwrng_loop.simps using q Suc.IH by (intro keeps_intros; simp)
  qed (simp add: keeps_intros)
  then show ?thesis unfolding caam_hwrng_def by blast
qed

end
