(* ===== verification/Caam_Test.thy ===== *)
theory Caam_Test
  imports Caam_Jobs
begin

text \<open>
  The driver's self tests (caam.c under \<^verbatim>\<open>WITH_CAAM_SELF_TEST\<close>). Each test returns the
  verdicts it logs, True for a line that says PASS; as in the source, the results of the
  driver calls are not looked at.
\<close>

section \<open>The tests\<close>

text \<open>\<^verbatim>\<open>DECLARE_SG_SAFE_BUF(nm, sz)\<close>: an uninitialised local buffer.\<close>

definition local_buf :: "'w env \<Rightarrow> string \<Rightarrow> nat \<Rightarrow> (('w, 'z) machine_scheme, unit) prog" where
  "local_buf E nm n =
     mmod (\<lambda>s. s\<lparr>mem := (mem s)(Local nm := map (stack_garbage E (world s) nm) [0..<n])\<rparr>)"

definition memcmp :: "cptr \<Rightarrow> cptr \<Rightarrow> nat \<Rightarrow> (('w, 'z) machine_scheme, bool) prog" where
  "memcmp p q n = mbind (mread p n) (\<lambda>a. mbind (mread q n) (\<lambda>b. mret (memcmp_eq a b n)))"

definition caam_hwrng_test :: "'w env \<Rightarrow> (('w, 'z) caam_state_scheme, bool list) prog" where
  "caam_hwrng_test E =
     mthen (local_buf E ''out1'' 32)
     (mthen (local_buf E ''out2'' 32)
     (mthen (caam_hwrng E (Local ''out1'', 0) 32)
     (mthen (caam_hwrng E (Local ''out2'', 0) 32)
     (mbind (memcmp (Local ''out1'', 0) (Local ''out2'', 0) 32) (\<lambda>eq.
     mret [\<not> eq])))))"

text \<open>The known input: \<^verbatim>\<open>buf[i] = i + c\<close> for every index.\<close>

definition pattern :: "nat \<Rightarrow> nat \<Rightarrow> byte list" where
  "pattern c n = map (\<lambda>i. of_nat (i + c)) [0..<n]"

definition caam_blob_test :: "'w env \<Rightarrow> (('w, 'z) caam_state_scheme, bool list) prog" where
  "caam_blob_test E =
     mthen (local_buf E ''keymd'' 16)
     (mthen (local_buf E ''plain'' 32)
     (mthen (local_buf E ''plain_bak'' 32)
     (mthen (local_buf E ''blob'' 128)
     (mthen (caam_hwrng E (Local ''keymd'', 0) 16)
     (mthen (mwrite (Local ''plain'', 0) (pattern 48 32))
     (mthen (mwrite (Local ''plain_bak'', 0) (pattern 48 32))
     (mthen (caam_gen_blob E (Local ''keymd'', 0) 16 (Local ''plain'', 0) (Local ''blob'', 0) 32)
     (mthen (memset (Local ''plain'', 0) 0xff 32)
     (mthen (caam_decap_blob E (Local ''keymd'', 0) 16 (Local ''plain'', 0) (Local ''blob'', 0) 32)
     (mbind (memcmp (Local ''plain'', 0) (Local ''plain_bak'', 0) 32) (\<lambda>eq.
     mret [eq])))))))))))"

definition caam_aes_test :: "'w env \<Rightarrow> (('w, 'z) caam_state_scheme, bool list) prog" where
  "caam_aes_test E =
     mthen (local_buf E ''key'' 16)
     (mthen (local_buf E ''buf1'' 32)
     (mthen (local_buf E ''buf2'' 32)
     (mthen (local_buf E ''buf3'' 32)
     (mthen (caam_hwrng E (Local ''key'', 0) 16)
     (mthen (mwrite (Local ''buf1'', 0) (pattern 48 32))
     (mthen (memset (Local ''buf2'', 0) 0x55 32)
     (mthen (memset (Local ''buf3'', 0) 0xAA 32)
     (mthen (caam_aes_op E (Local ''key'', 0) 16 (Local ''buf1'', 0) (Local ''buf2'', 0) 32 True)
     (mthen (caam_aes_op E (Local ''key'', 0) 16 (Local ''buf1'', 0) (Local ''buf3'', 0) 32 True)
     (mbind (memcmp (Local ''buf2'', 0) (Local ''buf3'', 0) 32) (\<lambda>eq1.
     mthen (caam_aes_op E (Local ''key'', 0) 16 (Local ''buf3'', 0) (Local ''buf2'', 0) 32 False)
     (mbind (memcmp (Local ''buf1'', 0) (Local ''buf2'', 0) 32) (\<lambda>eq2.
     mret [eq1, eq2])))))))))))))"

definition caam_hash_test :: "'w env \<Rightarrow> (('w, 'z) caam_state_scheme, bool list) prog" where
  "caam_hash_test E =
     mthen (local_buf E ''in'' 32)
     (mthen (local_buf E ''hash1'' 32)
     (mthen (local_buf E ''hash2'' 32)
     (mthen (mwrite (Local ''in'', 0) (pattern 49 32))
     (mthen (memset (Local ''hash1'', 0) 0x55 32)
     (mthen (memset (Local ''hash2'', 0) 0xAA 32)
     (mthen (caam_hash E (Local ''in'', 0) (Local ''hash1'', 0) 32)
     (mthen (caam_hash E (Local ''in'', 0) (Local ''hash2'', 0) 32)
     (mbind (memcmp (Local ''hash1'', 0) (Local ''hash2'', 0) 20) (\<lambda>eq.
     mret [eq])))))))))"

definition caam_kdfv1_root_key_test :: "'w env \<Rightarrow> (('w, 'z) caam_state_scheme, bool list) prog" where
  "caam_kdfv1_root_key_test E =
     mthen (local_buf E ''out1'' 32)
     (mthen (local_buf E ''out2'' 32)
     (mthen (caam_gen_kdfv1_root_key E (Local ''out1'', 0) 32)
     (mthen (caam_gen_kdfv1_root_key E (Local ''out2'', 0) 32)
     (mbind (memcmp (Local ''out1'', 0) (Local ''out2'', 0) 32) (\<lambda>eq.
     mret [eq])))))"

definition caam_test :: "'w env \<Rightarrow> (('w, 'z) caam_state_scheme, bool list) prog" where
  "caam_test E =
     mbind (caam_hwrng_test E) (\<lambda>v1.
     mbind (caam_blob_test E) (\<lambda>v2.
     mbind (caam_kdfv1_root_key_test E) (\<lambda>v3.
     mbind (caam_aes_test E) (\<lambda>v4.
     mbind (caam_hash_test E) (\<lambda>v5.
     mret (v1 @ v2 @ v3 @ v4 @ v5))))))"

section \<open>The tests are memory safe\<close>

text \<open>
  While a test runs: the driver is ready, only local buffers have changed, and those
  declared so far (\<open>L\<close>) have their sizes.
\<close>

definition test_inv ::
  "(string \<times> nat) list \<Rightarrow> ('w, 'z) caam_state_scheme \<Rightarrow> ('w, 'z) caam_state_scheme \<Rightarrow> bool" where
  "test_inv L s0 s \<longleftrightarrow> drv_frame s0 s \<and> caam_ready s \<and> dma_windows s = []
     \<and> (\<forall>b. (\<forall>nm. b \<noteq> Local nm) \<longrightarrow> mem s b = mem s0 b)
     \<and> (\<forall>(nm, n) \<in> set L. length (mem s (Local nm)) = n)"

lemma test_inv_obj: "test_inv L s0 s \<Longrightarrow> (nm, n) \<in> set L \<Longrightarrow> k \<le> n \<Longrightarrow> in_obj s (Local nm, 0) k"
  by (auto simp: test_inv_def in_obj_def)

lemma test_inv_out:
  assumes "test_inv L s0 s" and "out_frame (Local nm, 0) k s s'" and "(nm, n) \<in> set L" and "k \<le> n"
  shows "test_inv L s0 s'"
proof -
  obtain bs where bs: "length bs = k" "mem s' = mem (put_mem (Local nm, 0) bs s)"
    using assms(2) by (auto simp: out_frame_def)
  have "in_obj s (Local nm, 0) (length bs)" using assms bs by (auto intro: test_inv_obj)
  with assms bs show ?thesis
    by (auto simp: test_inv_def out_frame_def drv_frame_def in_obj_def split: if_splits)
qed

lemma test_inv_put:
  assumes "test_inv L s0 s" and "(nm, n) \<in> set L" and "length bs \<le> n"
  shows "test_inv L s0 (put_mem (Local nm, 0) bs s)"
proof (rule test_inv_out [OF assms(1) _ assms(2,3)])
  show "out_frame (Local nm, 0) (length bs) s (put_mem (Local nm, 0) bs s)"
    using assms(1) by (auto simp: out_frame_def test_inv_def put_mem_def drv_frame_def caam_ready_def)
qed

lemma wp_local_buf:
  assumes "test_inv L s0 s" and "\<And>s'. test_inv ((nm, n) # filter (\<lambda>(m, _). m \<noteq> nm) L) s0 s' \<Longrightarrow> Q () s'"
  shows "wp (local_buf E nm n) Q s"
  unfolding local_buf_def wp_basic
  using assms(1) by (intro assms(2)) (auto simp: test_inv_def drv_frame_def caam_ready_def)

lemma wp_test_write:
  assumes "test_inv L s0 s" and "(nm, n) \<in> set L" and "length bs \<le> n" and "\<And>s'. test_inv L s0 s' \<Longrightarrow> Q () s'"
  shows "wp (mwrite (Local nm, 0) bs) Q s"
  using assms by (simp add: test_inv_obj test_inv_put)

lemma wp_test_memset:
  assumes "test_inv L s0 s" and "(nm, n) \<in> set L" and "k \<le> n" and "\<And>s'. test_inv L s0 s' \<Longrightarrow> Q () s'"
  shows "wp (memset (Local nm, 0) v k) Q s"
  using assms by (simp add: memset_def wp_test_write del: wp_mwrite)

lemma wp_test_memcmp:
  assumes "test_inv L s0 s" and "(nm, n) \<in> set L" and "(nm', n') \<in> set L" and "k \<le> n" "k \<le> n'"
    and "\<And>b. Q b s"
  shows "wp (memcmp (Local nm, 0) (Local nm', 0) k) Q s"
  using assms by (simp add: memcmp_def test_inv_obj)

lemma wp_test_hwrng:
  assumes "dma_ok E" "test_inv L s0 s" and "(nm, n) \<in> set L" and "unat len \<le> n"
    and "\<And>r s'. test_inv L s0 s' \<Longrightarrow> Q r s'"
  shows "wp (caam_hwrng E (Local nm, 0) len) Q s"
proof (rule wp_caam_hwrng [OF assms(1)])
  show "caam_ready s" "dma_windows s = []" using assms(2) by (simp_all add: test_inv_def)
  show "in_obj s (Local nm, 0) (unat len)" using assms by (simp add: test_inv_obj)
qed (use assms in \<open>blast intro: test_inv_out\<close>)

lemma test_inv_job:
  "test_inv L s0 s \<Longrightarrow> job_post E (Local nm, 0) k s r s' \<Longrightarrow> (nm, n) \<in> set L \<Longrightarrow> k \<le> n \<Longrightarrow> test_inv L s0 s'"
  by (blast intro: test_inv_out job_post_out_frame)

lemma test_inv_ready: "test_inv L s0 s \<Longrightarrow> caam_ready s" "test_inv L s0 s \<Longrightarrow> dma_windows s = []"
  by (simp_all add: test_inv_def)

lemma wp_test_gen_blob:
  assumes "dma_ok E" "test_inv L s0 s" and "(km, 16) \<in> set L" "(pl, n) \<in> set L" "(bl, m) \<in> set L"
    and "unat len \<le> n" "unat (len + CAAM_KB_HEADER_LEN) \<le> m" and "\<And>r s'. test_inv L s0 s' \<Longrightarrow> Q r s'"
  shows "wp (caam_gen_blob E (Local km, 0) 16 (Local pl, 0) (Local bl, 0) len) Q s"
  using assms by (intro wp_caam_gen_blob) (auto intro: test_inv_obj test_inv_ready test_inv_job)

lemma wp_test_decap_blob:
  assumes "dma_ok E" "test_inv L s0 s" and "(km, 16) \<in> set L" "(pl, n) \<in> set L" "(bl, m) \<in> set L"
    and "unat len \<le> n" "unat (len + CAAM_KB_HEADER_LEN) \<le> m" and "\<And>r s'. test_inv L s0 s' \<Longrightarrow> Q r s'"
  shows "wp (caam_decap_blob E (Local km, 0) 16 (Local pl, 0) (Local bl, 0) len) Q s"
  using assms by (intro wp_caam_decap_blob) (auto intro: test_inv_obj test_inv_ready test_inv_job)

lemma wp_test_aes:
  assumes "dma_ok E" "test_inv L s0 s" and "(ky, 16) \<in> set L" "(i, n) \<in> set L" "(ou, m) \<in> set L"
    and "unat len \<le> n" "unat len \<le> m" and "\<And>r s'. test_inv L s0 s' \<Longrightarrow> Q r s'"
  shows "wp (caam_aes_op E (Local ky, 0) 16 (Local i, 0) (Local ou, 0) len enc) Q s"
  using assms by (intro wp_caam_aes_op) (auto intro: test_inv_obj test_inv_ready test_inv_job)

lemma wp_test_hash:
  assumes "dma_ok E" "test_inv L s0 s" and "(i, n) \<in> set L" "(ou, m) \<in> set L"
    and "unat len \<le> n" "unat len \<le> m" and "\<And>r s'. test_inv L s0 s' \<Longrightarrow> Q r s'"
  shows "wp (caam_hash E (Local i, 0) (Local ou, 0) len) Q s"
  using assms by (intro wp_caam_hash) (auto intro: test_inv_obj test_inv_ready test_inv_job)

lemma wp_test_kdf:
  assumes "dma_ok E" "test_inv L s0 s" and "(ou, n) \<in> set L" "unat len \<le> n"
    and "\<And>r s'. test_inv L s0 s' \<Longrightarrow> Q r s'"
  shows "wp (caam_gen_kdfv1_root_key E (Local ou, 0) len) Q s"
  using assms by (intro wp_caam_gen_kdfv1_root_key) (auto intro: test_inv_obj test_inv_ready test_inv_job)

lemmas test_rules = wp_local_buf wp_test_write wp_test_memset wp_test_memcmp wp_test_hwrng
  wp_test_gen_blob wp_test_decap_blob wp_test_aes wp_test_hash wp_test_kdf

lemma test_inv_forget: "test_inv L s0 s \<Longrightarrow> test_inv [] s0 s"
  by (simp add: test_inv_def)

lemma wp_hwrng_test:
  assumes "dma_ok E" and "test_inv [] s0 s"
  shows "wp (caam_hwrng_test E) (\<lambda>_. test_inv [] s0) s"
  unfolding caam_hwrng_test_def wp_basic
  by (insert assms, (rule test_rules | assumption | erule test_inv_forget
      | (simp add: pattern_def CAAM_KB_HEADER_LEN_def; fail))+)

lemma wp_blob_test:
  assumes "dma_ok E" and "test_inv [] s0 s"
  shows "wp (caam_blob_test E) (\<lambda>_. test_inv [] s0) s"
  unfolding caam_blob_test_def wp_basic
  by (insert assms, (rule test_rules | assumption | erule test_inv_forget
      | (simp add: pattern_def CAAM_KB_HEADER_LEN_def; fail))+)

lemma wp_kdfv1_root_key_test:
  assumes "dma_ok E" and "test_inv [] s0 s"
  shows "wp (caam_kdfv1_root_key_test E) (\<lambda>_. test_inv [] s0) s"
  unfolding caam_kdfv1_root_key_test_def wp_basic
  by (insert assms, (rule test_rules | assumption | erule test_inv_forget
      | (simp add: pattern_def CAAM_KB_HEADER_LEN_def; fail))+)

lemma wp_aes_test:
  assumes "dma_ok E" and "test_inv [] s0 s"
  shows "wp (caam_aes_test E) (\<lambda>_. test_inv [] s0) s"
  unfolding caam_aes_test_def wp_basic
  by (insert assms, (rule test_rules | assumption | erule test_inv_forget
      | (simp add: pattern_def CAAM_KB_HEADER_LEN_def; fail))+)

lemma wp_hash_test:
  assumes "dma_ok E" and "test_inv [] s0 s"
  shows "wp (caam_hash_test E) (\<lambda>_. test_inv [] s0) s"
  unfolding caam_hash_test_def wp_basic
  by (insert assms, (rule test_rules | assumption | erule test_inv_forget
      | (simp add: pattern_def CAAM_KB_HEADER_LEN_def; fail))+)

lemma wp_caam_test:
  assumes "dma_ok E" and "caam_ready s" and "dma_windows s = []"
  shows "wp (caam_test E) (\<lambda>_. test_inv [] s) s"
proof -
  have "test_inv [] s s" using assms by (simp add: test_inv_def)
  then show ?thesis
    unfolding caam_test_def wp_basic using assms(1)
    by (intro wp_hwrng_test [THEN wp_mono] wp_blob_test [THEN wp_mono]
        wp_kdfv1_root_key_test [THEN wp_mono] wp_aes_test [THEN wp_mono] wp_hash_test [THEN wp_mono])
qed

lemma keeps_tests [keeps_intros]:
  assumes "quiet obs E"
  shows "keeps obs (caam_test E)"
proof -
  have l: "keeps obs (local_buf E nm n)" "keeps obs (memcmp p q n)" for nm n p q
    by (auto simp: local_buf_def memcmp_def intro!: keeps_intros)
  show ?thesis
    unfolding caam_test_def caam_hwrng_test_def caam_blob_test_def caam_kdfv1_root_key_test_def
      caam_aes_test_def caam_hash_test_def
    using assms by (intro keeps_intros l; simp)
qed

end
