(* ===== verification/Caam_Init.thy ===== *)
theory Caam_Init
  imports Caam_Test
begin

text \<open>
  Bringing the driver up (caam.c): \<^verbatim>\<open>caam_open\<close>, which sets up the job rings and
  instantiates the random number generator unless that is done already, and
  \<^verbatim>\<open>init_caam_env\<close>, which maps the register blocks and allocates the rings and the job
  first.
\<close>

text \<open>The block that programs the entropy source: trim values in program mode, then run mode.\<close>

definition caam_open_trng :: "'w env \<Rightarrow> (('w, 'z) caam_state_scheme, unit) prog" where
  "caam_open_trng E =
     mthen (write_reg E RTMCTL_PGM CAAM_RTMCTL)
     (mbind (read_reg E CAAM_RTMCTL) (\<lambda>v.
     mthen (write_reg E (v OR push_bit 2 RNG_TRIM_OSC_DIV) CAAM_RTMCTL)
     (mthen (write_reg E (push_bit 16 RNG_TRIM_ENT_DLY OR 0x09C4) CAAM_RTSDCTL)
     (mthen (write_reg E (drop_bit 1 RNG_TRIM_ENT_DLY) CAAM_RTFRQMIN)
     (mthen (write_reg E (push_bit 4 RNG_TRIM_ENT_DLY) CAAM_RTFRQMAX)
     (mbind (read_reg E CAAM_RTMCTL) (\<lambda>v.
     mthen (write_reg E (v XOR RTMCTL_PGM) CAAM_RTMCTL)
     (mbind (read_reg E CAAM_RTMCTL) (\<lambda>v.
     write_reg E (v OR RTMCTL_ERR) CAAM_RTMCTL)))))))))"

text \<open>The block that instantiates the generator with a job and checks the result.\<close>

definition caam_open_rng :: "'w env \<Rightarrow> (('w, 'z) caam_state_scheme, unit) prog" where
  "caam_open_rng E =
     mthen (massert (4 * length rng_inst_dsc \<le> 4 * MAX_DSC_NUM))
     (mthen (set_dsc rng_inst_dsc)
     (mthen (run_job E)
     (mbind job_failed (\<lambda>failed.
     if failed then mstop Abort else
     mbind (read_reg E CAAM_RDSTA) (\<lambda>v.
     if v \<noteq> RDSTA_IF0 OR RDSTA_SKVN then mstop Abort else mret ())))))"

definition caam_open :: "'w env \<Rightarrow> (('w, 'z) caam_state_scheme, unit) prog" where
  "caam_open E =
     mthen (caam_clk_get E)
     (mthen (setup_job_rings E)
     (mbind (read_reg E CAAM_JRCFGR0_LS) (\<lambda>v.
     mthen (write_reg E (v OR JRCFG_LS_IMSK) CAAM_JRCFGR0_LS)
     (mbind (read_reg E CAAM_RDSTA) (\<lambda>v.
     if v AND RDSTA_IF0 \<noteq> RDSTA_IF0
     then mthen (caam_open_trng E) (caam_open_rng E)
     else mret ())))))"

definition CAAM_MMIO_ID :: int where "CAAM_MMIO_ID = 8"
definition CAAM_SEC_RAM_MMIO_ID :: int where "CAAM_SEC_RAM_MMIO_ID = 9"
definition CCM_MMIO_ID :: int where "CCM_MMIO_ID = 10"

definition init_caam_env :: "'w env \<Rightarrow> (('w, 'z) caam_state_scheme, int) prog" where
  "init_caam_env E =
     mbind (sys (k_mmap E (CAAM_REG_SIZE (soc (mach_type E))) CAAM_MMIO_ID)) (\<lambda>a.
     mthen (mmod (\<lambda>s. s\<lparr>caam_base := a\<rparr>))
     (if a = MAP_FAILED then mret (ERR_GENERIC E) else
     mbind (sys (k_mmap E (CAAM_SEC_RAM_SIZE (soc (mach_type E))) CAAM_SEC_RAM_MMIO_ID)) (\<lambda>a.
     mthen (mmod (\<lambda>s. s\<lparr>sram_base := a\<rparr>))
     (if a = MAP_FAILED then mret (ERR_GENERIC E) else
     mbind (sys (k_mmap E (CCM_REG_SIZE (soc (mach_type E))) CCM_MMIO_ID)) (\<lambda>a.
     mthen (mmod (\<lambda>s. s\<lparr>ccm_base := a\<rparr>))
     (if a = MAP_FAILED then mret (ERR_GENERIC E) else
     mthen (massert (sizeof_caam_job_rings \<le> 16))
     (mbind (sys (k_memalign E 16 sizeof_caam_job_rings)) (\<lambda>p.
     mthen (mmod (\<lambda>s. s\<lparr>g_rings := map_option
        (\<lambda>f. \<lparr>ring_in = f 0, ring_out0 = f 1, ring_out1 = f 2\<rparr>) p\<rparr>))
     (if p = None then mret (ERR_NO_MEMORY E) else
     mbind (sys (k_memalign E (of_nat MAX_DSC_NUM * 4) sizeof_caam_job)) (\<lambda>p.
     mthen (mmod (\<lambda>s. s\<lparr>g_job := map_option
        (\<lambda>f. \<lparr>dsc = map f [0..<MAX_DSC_NUM], dsc_used = unat (f 64), job_status = f 65\<rparr>) p\<rparr>))
     (if p = None then mret (ERR_NO_MEMORY E) else
     mthen (caam_open E)
     (mthen (if with_caam_self_test E then mthen (caam_test E) (mret ()) else mret ())
     (mret 0)))))))))))))"

section \<open>Rules\<close>

text \<open>
  What bringing the device up keeps: nothing but the world, the rings and the job has
  changed.
\<close>

definition init_frame :: "('w, 'z) caam_state_scheme \<Rightarrow> ('w, 'z) caam_state_scheme \<Rightarrow> bool" where
  "init_frame s t \<longleftrightarrow> drv_frame s t \<and> mem t = mem s \<and> dma_windows t = dma_windows s"

lemma init_frame_refl [simp]: "init_frame s s"
  by (simp add: init_frame_def)

lemma init_frame_world [simp]:
  "init_frame s (t\<lparr>world := w\<rparr>) = init_frame s t" "init_frame (s\<lparr>world := w\<rparr>) t = init_frame s t"
  by (simp_all add: init_frame_def drv_frame_def)

lemma init_frame_trans: "init_frame s t \<Longrightarrow> init_frame t u \<Longrightarrow> init_frame s u"
  by (auto simp: init_frame_def intro: drv_frame_trans)

lemma init_frame_ready: "init_frame s t \<Longrightarrow> caam_ready s \<Longrightarrow> caam_ready t"
  by (simp add: init_frame_def drv_frame_def)

lemma wp_setup_job_rings:
  assumes ok: "dma_ok E" and "caam_ready s" and Q: "\<And>t. init_frame s t \<Longrightarrow> Q () t"
  shows "wp (setup_job_rings E) Q s"
proof -
  from assms(2) obtain r where r: "g_rings s = Some r" by (auto simp: caam_ready_def)
  show ?thesis
    unfolding setup_job_rings_def
    by (simp add: r, rule wp_prepare_dma_bytes [OF ok])
       (use assms(2) in \<open>auto simp: init_frame_def drv_frame_def caam_ready_def intro!: Q\<close>)
qed

lemma wp_caam_open_trng: "(\<And>w. Q () (s\<lparr>world := w\<rparr>)) \<Longrightarrow> wp (caam_open_trng E) Q s"
  by (auto simp: caam_open_trng_def intro!: wp_read_regI)

lemma wp_caam_open_rng:
  assumes ok: "dma_ok E" and rdy: "caam_ready s" and win: "dma_windows s = []"
    and Q: "\<And>t. init_frame s t \<Longrightarrow> Q () t"
  shows "wp (caam_open_rng E) Q s"
proof -
  have len: "length rng_inst_dsc \<le> MAX_DSC_NUM" by (simp add: rng_inst_dsc_def MAX_DSC_NUM_def)
  have last: "wp job_failed (\<lambda>failed. wp (if failed then mstop Abort
      else mbind (read_reg E CAAM_RDSTA) (\<lambda>v. if v \<noteq> RDSTA_IF0 OR RDSTA_SKVN
      then mstop Abort else mret ())) Q) t" if t: "init_frame s t" for t
    using init_frame_ready [OF t rdy] t Q by (intro wp_job_failed) (auto intro!: wp_read_regI)
  show ?thesis
    unfolding caam_open_rng_def wp_basic(2,3,7)
    by (intro impI wp_set_dsc [OF rdy len] wp_run_job0 [OF ok] last)
       (use rdy win in \<open>auto simp: init_frame_def drv_frame_def\<close>)
qed

lemma wp_caam_open:
  assumes ok: "dma_ok E" and rdy: "caam_ready s" and win: "dma_windows s = []"
    and Q: "\<And>t. init_frame s t \<Longrightarrow> Q () t"
  shows "wp (caam_open E) Q s"
proof -
  have "wp (mbind (read_reg E CAAM_JRCFGR0_LS) (\<lambda>v.
     mthen (write_reg E (v OR JRCFG_LS_IMSK) CAAM_JRCFGR0_LS)
     (mbind (read_reg E CAAM_RDSTA) (\<lambda>v. if v AND RDSTA_IF0 \<noteq> RDSTA_IF0
     then mthen (caam_open_trng E) (caam_open_rng E) else mret ())))) Q t"
    if t: "init_frame s t" for t
  proof -
    have "Q () (t\<lparr>world := w\<rparr>)" for w using t by (intro Q) simp
    moreover have "wp (caam_open_rng E) Q (t\<lparr>world := w\<rparr>)" for w
      using t init_frame_ready [OF t rdy] win
      by (intro wp_caam_open_rng [OF ok] Q) (auto simp: init_frame_def drv_frame_def)
    ultimately show ?thesis
      by (auto intro!: wp_read_regI wp_caam_open_trng)
  qed
  then show ?thesis
    unfolding caam_open_def wp_basic(3) using rdy
    by (intro wp_clk wp_setup_job_rings [OF ok]) (auto elim: init_frame_trans)
qed

text \<open>
  What \<^verbatim>\<open>init_caam_env\<close> keeps on every path: the other components' state and every
  object but the self tests' local buffers.
\<close>

definition init_post :: "('w, 'z) caam_state_scheme \<Rightarrow> ('w, 'z) caam_state_scheme \<Rightarrow> bool" where
  "init_post s t \<longleftrightarrow> caam_state.more t = caam_state.more s \<and> dma_windows t = []
     \<and> heap_next t = heap_next s
     \<and> (\<forall>b. (\<forall>nm. b \<noteq> Local nm) \<longrightarrow> mem t b = mem s b)"

lemma wp_init_caam_env:
  fixes s :: "('w, 'z) caam_state_scheme"
  assumes ok: "dma_ok E" and win: "dma_windows s = []"
    and fail: "\<And>r t. r \<in> {ERR_GENERIC E, ERR_NO_MEMORY E} \<Longrightarrow> init_post s t \<Longrightarrow> Q r t"
    and fin: "\<And>t. caam_ready t \<Longrightarrow> init_post s t \<Longrightarrow> Q 0 t"
  shows "wp (init_caam_env E) Q s"
proof -
  have u: "caam_ready u" "init_post s u" if "caam_ready t" "init_post s t" "init_frame t u" for t u
    using that by (auto simp: init_post_def init_frame_def drv_frame_def)
  have off: "wp (caam_open E) (\<lambda>_. Q 0) t" if "caam_ready t" "init_post s t" for t
    using that(2) by (intro wp_caam_open [OF ok that(1)] fin u [OF that]) (simp_all add: init_post_def)
  have test: "wp (caam_test E) (\<lambda>_. Q 0) t" if "caam_ready t" "init_post s t" for t
    using that by (intro wp_mono [OF wp_caam_test [OF ok]] fin)
      (auto simp: init_post_def test_inv_def drv_frame_def)
  have on: "wp (caam_open E) (\<lambda>_. wp (caam_test E) (\<lambda>_. Q 0)) t"
    if "caam_ready t" "init_post s t" for t
    using that(2) by (intro wp_caam_open [OF ok that(1)] test u [OF that]) (simp_all add: init_post_def)
  show ?thesis
    using win
    by (auto simp: init_caam_env_def intro!: wp_sysI fail on off) (auto simp: init_post_def caam_ready_def)
qed

lemma keeps_init_caam_env [keeps_intros]: "quiet obs E \<Longrightarrow> keeps obs (init_caam_env E)"
  unfolding init_caam_env_def caam_open_def caam_open_trng_def caam_open_rng_def
  by (intro keeps_intros; simp)

end
