(* ===== verification/Tipc.thy ===== *)
theory Tipc
  imports Trusty_Env
begin

text \<open>
  The IPC helpers of main.c (with common.h): the checks for events that must not happen,
  sending and receiving messages of one or two segments, and the hex dump.
\<close>

section \<open>Event handlers (common.h)\<close>

datatype ev_proc =
    Hwkey_port_handler | Hwkey_chan_handler | Hwrng_port_handler | Hwrng_chan_handler

record tipc_event_handler =
  proc :: "ev_proc option"
  priv :: nat

section \<open>Unexpected events\<close>

definition tipc_handle_port_errors :: "uevent \<Rightarrow> (('w, 'z) machine_scheme, unit) prog" where
  "tipc_handle_port_errors ev =
     (if IPC_HANDLE_POLL_ERROR \<in> ev_event ev \<or> IPC_HANDLE_POLL_HUP \<in> ev_event ev
         \<or> IPC_HANDLE_POLL_MSG \<in> ev_event ev \<or> IPC_HANDLE_POLL_SEND_UNBLOCKED \<in> ev_event ev
      then mstop Abort else mret ())"

definition tipc_handle_chan_errors :: "uevent \<Rightarrow> (('w, 'z) machine_scheme, unit) prog" where
  "tipc_handle_chan_errors ev =
     (if IPC_HANDLE_POLL_ERROR \<in> ev_event ev \<or> IPC_HANDLE_POLL_READY \<in> ev_event ev
      then mstop Abort else mret ())"

section \<open>Messages\<close>

definition tipc_send_single_buf ::
  "'w env \<Rightarrow> handle \<Rightarrow> cptr \<Rightarrow> u32 \<Rightarrow> (('w, 'z) machine_scheme, int) prog" where
  "tipc_send_single_buf E chan buf len =
     mbind (mread buf (unat len)) (\<lambda>bs. sys (k_send_msg E chan [bs]))"

text \<open>The receiving helpers return the result code and the bytes put into the caller's buffer.\<close>

definition tipc_recv_single_buf ::
  "'w env \<Rightarrow> handle \<Rightarrow> nat \<Rightarrow> (('w, 'z) machine_scheme, int \<times> byte list) prog" where
  "tipc_recv_single_buf E chan len =
     mbind (sys (k_get_msg E chan)) (\<lambda>(rc, msg_inf).
     if rc \<noteq> 0 then mret (rc, []) else
     mbind (if msg_len msg_inf \<noteq> len then mret (ERR_BAD_LEN E, [])
            else sys (k_read_msg E chan (msg_id msg_inf) [len])) (\<lambda>(rc, bs).
     mthen (sys_do (k_put_msg E chan (msg_id msg_inf)))
     (mret (rc, bs))))"

definition tipc_send_two_segments ::
  "'w env \<Rightarrow> handle \<Rightarrow> byte list \<Rightarrow> cptr \<Rightarrow> nat \<Rightarrow> (('w, 'z) machine_scheme, int) prog" where
  "tipc_send_two_segments E chan hdr payload payload_len =
     mbind (mread payload payload_len) (\<lambda>bs. sys (k_send_msg E chan [hdr, bs]))"

text \<open>
  The kernel scatters the message over the two segments: the header's bytes are
  returned, the others are stored in the payload buffer.
\<close>

definition tipc_recv_two_segments ::
  "'w env \<Rightarrow> handle \<Rightarrow> nat \<Rightarrow> cptr \<Rightarrow> nat \<Rightarrow> (('w, 'z) machine_scheme, int \<times> byte list) prog" where
  "tipc_recv_two_segments E chan hdr_len payload payload_len =
     mbind (sys (k_get_msg E chan)) (\<lambda>(rc, msg_inf).
     if rc \<noteq> 0 then mret (rc, []) else
     mbind (if msg_len msg_inf < hdr_len then mret (ERR_BAD_LEN E, [])
            else mbind (sys (k_read_msg E chan (msg_id msg_inf) [hdr_len, payload_len])) (\<lambda>(rc, bs).
                 mthen (if rc < 0 then mret () else mwrite payload (drop hdr_len bs))
                 (mret (rc, take hdr_len bs)))) (\<lambda>(rc, hdr).
     mthen (sys_do (k_put_msg E chan (msg_id msg_inf)))
     (mret (rc, hdr))))"

section \<open>The hex dump\<close>

text \<open>
  \<^verbatim>\<open>_hexdump8\<close> prints one line for each 16 bytes: the address and the bytes of the line.
\<close>

function hexdump8 :: "u32 \<Rightarrow> byte list \<Rightarrow> (u32 \<times> byte list) list" where
  "hexdump8 address bs =
     (if bs = [] then [] else (address, take 16 bs) # hexdump8 (address + 16) (drop 16 bs))"
  by pat_completeness auto
termination
  by (relation "measure (\<lambda>(_, bs). length bs)") auto

declare hexdump8.simps [simp del]

lemma hexdump8_bytes: "concat (map snd (hexdump8 a bs)) = bs"
proof (induction a bs rule: hexdump8.induct)
  case (1 a bs)
  then show ?case by (subst hexdump8.simps) simp
qed

lemma hexdump8_lines: "l \<in> set (hexdump8 a bs) \<Longrightarrow> 0 < length (snd l) \<and> length (snd l) \<le> 16"
proof (induction a bs rule: hexdump8.induct)
  case (1 a bs)
  then show ?case by (subst (asm) (2) hexdump8.simps) (auto split: if_splits)
qed

section \<open>Rules\<close>

lemma wp_port_errors [wp_simps]:
  "wp (tipc_handle_port_errors ev) Q s \<longleftrightarrow> (ev_event ev \<inter> {IPC_HANDLE_POLL_ERROR,
     IPC_HANDLE_POLL_HUP, IPC_HANDLE_POLL_MSG, IPC_HANDLE_POLL_SEND_UNBLOCKED} = {} \<longrightarrow> Q () s)"
  by (auto simp: tipc_handle_port_errors_def)

lemma wp_chan_errors [wp_simps]:
  "wp (tipc_handle_chan_errors ev) Q s \<longleftrightarrow> (ev_event ev \<inter> {IPC_HANDLE_POLL_ERROR,
     IPC_HANDLE_POLL_READY} = {} \<longrightarrow> Q () s)"
  by (auto simp: tipc_handle_chan_errors_def)

lemma wp_send_single:
  assumes "in_obj s buf (unat len)"
    and "\<And>rc w. k_send_msg E chan [take (unat len) (drop (snd buf) (mem s (fst buf)))] (world s) = (rc, w) \<Longrightarrow>
      Q rc (s\<lparr>world := w\<rparr>)"
  shows "wp (tipc_send_single_buf E chan buf len) Q s"
  using assms by (auto simp: tipc_send_single_buf_def intro: wp_sysI)

lemma wp_send_two:
  assumes "in_obj s p n"
    and "\<And>rc w. k_send_msg E chan [hdr, take n (drop (snd p) (mem s (fst p)))] (world s) = (rc, w) \<Longrightarrow>
      Q rc (s\<lparr>world := w\<rparr>)"
  shows "wp (tipc_send_two_segments E chan hdr p n) Q s"
  using assms by (auto simp: tipc_send_two_segments_def intro: wp_sysI)

lemma ipc_okD:
  assumes "ipc_ok E" and "k_get_msg E h w = ((rc, mi), w1)"
  shows "rc \<le> 0"
    and "rc = 0 \<Longrightarrow> k_read_msg E h (msg_id mi) lens w1 = ((rc', bs), w2) \<Longrightarrow> 0 \<le> rc' \<Longrightarrow>
      rc' = int (min (msg_len mi) (sum_list lens)) \<and> length bs = nat rc'"
  using assms unfolding ipc_ok_def by blast+

lemma wp_recv_single:
  assumes ok: "ipc_ok E" and err: "err_ok E"
    and Q: "\<And>rc bs w. (0 < rc \<Longrightarrow> rc = int len \<and> length bs = len) \<Longrightarrow> Q (rc, bs) (s\<lparr>world := w\<rparr>)"
  shows "wp (tipc_recv_single_buf E chan len) Q s"
proof -
  obtain rc mi w where g: "k_get_msg E chan (world s) = ((rc, mi), w)" by (metis surj_pair)
  obtain rc' bs w' where r: "k_read_msg E chan (msg_id mi) [len] w = ((rc', bs), w')" by (metis surj_pair)
  have "rc' = int len \<and> length bs = len" if "rc = 0" "msg_len mi = len" "0 \<le> rc'"
    using ipc_okD(2) [OF ok g that(1) r that(3)] that(2) by simp
  then show ?thesis
    using ipc_okD(1) [OF ok g] err unfolding tipc_recv_single_buf_def
    by (auto simp: wp_sys g r err_ok_def intro!: Q)
qed

lemma wp_recv_two:
  assumes ok: "ipc_ok E" and err: "err_ok E" and obj: "in_obj s p n"
    and bad: "\<And>rc hdr w. rc < 0 \<Longrightarrow> Q (rc, hdr) (s\<lparr>world := w\<rparr>)"
    and Q: "\<And>hdr bs w. length hdr = h \<Longrightarrow> length bs \<le> n \<Longrightarrow>
      Q (int (h + length bs), hdr) ((put_mem p bs s)\<lparr>world := w\<rparr>)"
  shows "wp (tipc_recv_two_segments E chan h p n) Q s"
proof -
  obtain rc mi w where g: "k_get_msg E chan (world s) = ((rc, mi), w)" by (metis surj_pair)
  obtain rc' bs w' where r: "k_read_msg E chan (msg_id mi) [h, n] w = ((rc', bs), w')" by (metis surj_pair)
  show ?thesis
  proof (cases "rc = 0 \<and> h \<le> msg_len mi \<and> 0 \<le> rc'")
    case True
    with ipc_okD(2) [OF ok g _ r] have len: "length bs = min (msg_len mi) (h + n)" "rc' = int (length bs)"
      by auto
    with True have "in_obj s p (length (drop h bs))" using obj by (auto simp: in_obj_def)
    moreover have "rc' = int (h + length (drop h bs))" using len True by auto
    moreover have "Q (int (h + length (drop h bs)), take h bs)
      ((put_mem p (drop h bs) s)\<lparr>world := w''\<rparr>)" for w''
      using len True by (intro Q) auto
    ultimately show ?thesis
      using True unfolding tipc_recv_two_segments_def by (simp add: wp_sys g r)
  next
    case False
    then show ?thesis
      using ipc_okD(1) [OF ok g] err unfolding tipc_recv_two_segments_def
      by (auto simp: wp_sys g r err_ok_def intro!: bad)
  qed
qed

lemma keeps_ipc [keeps_intros]:
  assumes "cookies_ok ck E"
  shows "keeps ck (sys (k_send_msg E h bss))" "keeps ck (sys (k_get_msg E h))"
    "keeps ck (sys (k_read_msg E h i lens))" "keeps ck (sys_do (k_put_msg E h i))"
    "keeps ck (sys (k_accept E h))" "keeps ck (sys (k_port_create E nm cnt len))"
  using assms by (auto simp: cookies_ok_def intro!: keeps_sys keeps_sys_do)

lemma keeps_tipc [keeps_intros]:
  assumes "cookies_ok ck E"
  shows "keeps ck (tipc_send_single_buf E h p n)" "keeps ck (tipc_recv_single_buf E h k)"
    "keeps ck (tipc_send_two_segments E h hdr p k)" "keeps ck (tipc_recv_two_segments E h k p m)"
  unfolding tipc_send_single_buf_def tipc_recv_single_buf_def tipc_send_two_segments_def
    tipc_recv_two_segments_def
  using assms by (intro keeps_intros; simp)+

section \<open>The messages sent\<close>

text \<open>
  An observer of the messages sent: what has been sent so far is the observation \<open>log\<close> of the
  world, to which sending a message appends it and which nothing else changes.
\<close>

definition sent_log :: "('w \<Rightarrow> (handle \<times> byte list list) list) \<Rightarrow> 'w env \<Rightarrow> bool" where
  "sent_log log E \<longleftrightarrow> quiet log E \<and> (\<forall>h bss w. log (snd (k_send_msg E h bss w)) = log w @ [(h, bss)]) \<and>
     (\<forall>h w. log (k_close E h w) = log w) \<and>
     (\<forall>h w. log (snd (k_get_msg E h w)) = log w) \<and> (\<forall>h i w. log (k_put_msg E h i w) = log w) \<and>
     (\<forall>h i lens w. log (snd (k_read_msg E h i lens w)) = log w)"

lemma sent_log_send:
  assumes "sent_log log E" and "k_send_msg E h bss w = (rc, w')"
  shows "log w' = log w @ [(h, bss)]"
  using assms unfolding sent_log_def by (metis snd_conv)

lemma sent_log_single:
  assumes "sent_log log E" and "tipc_send_single_buf E chan buf n s = Inr (rc, s')"
  shows "\<exists>bs. length bs = unat n \<and> log (world s') = log (world s) @ [(chan, [bs])]" and "\<exists>w. s' = s\<lparr>world := w\<rparr>"
  using assms(2) sent_log_send [OF assms(1)]
  by (fastforce simp: tipc_send_single_buf_def mread_def in_obj_def prog_simps sys_def split: if_splits prod.splits)+

end
