(* ===== verification/Hwrng_Srv.thy ===== *)
theory Hwrng_Srv
  imports Caam_Jobs Tipc
begin

text \<open>
  The random number service (hwrng_srv.c): its channel contexts, the list of pending
  requests, the pass that serves them, and the channel and port event handlers. The
  service calls \<^verbatim>\<open>hwrng_dev_get_rng_data\<close>, which hwrng_srv_priv.h declares and a provider
  implements; it is the argument \<open>dev\<close> of the definitions that use it.
\<close>

section \<open>State\<close>

definition MAX_HWRNG_MSG_SIZE :: u32 where "MAX_HWRNG_MSG_SIZE = 4096"

text \<open>
  \<^verbatim>\<open>struct hwrng_chan_ctx\<close>. Its list node is represented by the position of the context's
  address in \<open>hwrng_req_list\<close>.
\<close>

record hwrng_chan_ctx =
  rng_evt_handler :: tipc_event_handler
  rng_chan :: handle
  req_size :: u32
  send_blocked :: bool

record 'w hwrng_state = "'w caam_state" +
  hwrng_port :: handle
  rng_ctxs :: "nat \<rightharpoonup> hwrng_chan_ctx"
  hwrng_req_list :: "nat list"

type_synonym ('w, 'z) rng_dev = "cptr \<Rightarrow> u32 \<Rightarrow> (('w, 'z) hwrng_state_scheme, unit) prog"

definition put_ctx :: "nat \<Rightarrow> hwrng_chan_ctx \<Rightarrow> (('w, 'z) hwrng_state_scheme, unit) prog" where
  "put_ctx p ctx = mmod (\<lambda>s. s\<lparr>rng_ctxs := (rng_ctxs s)(p \<mapsto> ctx)\<rparr>)"

section \<open>Operations\<close>

text \<open>
  The file's own copy of \<^verbatim>\<open>_hexdump8\<close>, with the counter of the source: \<open>count\<close> bytes have been
  printed, and a line holds the next ones. A region has fewer than 2 ^ 32 - 16 bytes, so that the
  counter does not wrap around.
\<close>

function hwrng_hexdump8_loop :: "byte list \<Rightarrow> nat \<Rightarrow> u32 \<Rightarrow> (u32 \<times> byte list) list" where
  "hwrng_hexdump8_loop bs count address =
     (if count < length bs
      then (address, map (\<lambda>i. bs ! (count + i)) [0..<min (length bs - count) 16]) #
           hwrng_hexdump8_loop bs (count + 16) (address + 16)
      else [])"
  by pat_completeness auto
termination
  by (relation "measure (\<lambda>(bs, count, _). length bs - count)") auto

declare hwrng_hexdump8_loop.simps [simp del]

definition hwrng_hexdump8 :: "u32 \<Rightarrow> byte list \<Rightarrow> (u32 \<times> byte list) list" where
  "hwrng_hexdump8 ptr bs = hwrng_hexdump8_loop bs 0 ptr"

definition hwrng_close_chan :: "'w env \<Rightarrow> nat \<Rightarrow> (('w, 'z) hwrng_state_scheme, unit) prog" where
  "hwrng_close_chan E p =
     mbind (mderef (\<lambda>s. rng_ctxs s p)) (\<lambda>ctx.
     mthen (close E (rng_chan ctx))
     (mthen (mmod (\<lambda>s. if list_in_list E (hwrng_req_list s) p
                       then s\<lparr>hwrng_req_list := list_delete E (hwrng_req_list s) p\<rparr> else s))
     (mmod (\<lambda>s. s\<lparr>rng_ctxs := (rng_ctxs s)(p := None)\<rparr>))))"

text \<open>
  \<^verbatim>\<open>hwrng_handle_req_queue\<close>: the loop over the list as it was at the start. The safe
  iteration of the source reads the next entry before the body runs, and the body takes
  no entry but its own off the list. The result is \<^verbatim>\<open>need_more\<close>.
\<close>

fun hwrng_serve ::
  "'w env \<Rightarrow> ('w, 'z) rng_dev \<Rightarrow> nat list \<Rightarrow> bool \<Rightarrow> (('w, 'z) hwrng_state_scheme, bool) prog" where
  "hwrng_serve E dev [] need_more = mret need_more"
| "hwrng_serve E dev (p # ps) need_more =
     mbind (mderef (\<lambda>s. rng_ctxs s p)) (\<lambda>ctx.
     if send_blocked ctx then hwrng_serve E dev ps need_more else
     let len = (if req_size ctx > MAX_HWRNG_MSG_SIZE then MAX_HWRNG_MSG_SIZE else req_size ctx) in
     mthen (dev (Rng_data, 0) len)
     (mbind (tipc_send_single_buf E (rng_chan ctx) (Rng_data, 0) len) (\<lambda>rc.
     if rc < 0 then
       mthen (if rc = ERR_NOT_ENOUGH_BUFFER E then put_ctx p (ctx\<lparr>send_blocked := True\<rparr>)
              else hwrng_close_chan E p)
       (hwrng_serve E dev ps need_more)
     else
       mthen (put_ctx p (ctx\<lparr>req_size := req_size ctx - len\<rparr>))
       (if req_size ctx - len = 0
        then mthen (mmod (\<lambda>s. s\<lparr>hwrng_req_list := list_delete E (hwrng_req_list s) p\<rparr>))
             (hwrng_serve E dev ps need_more)
        else hwrng_serve E dev ps True))))"

definition hwrng_handle_req_queue ::
  "'w env \<Rightarrow> ('w, 'z) rng_dev \<Rightarrow> (('w, 'z) hwrng_state_scheme, bool) prog" where
  "hwrng_handle_req_queue E dev = mbind (mget hwrng_req_list) (\<lambda>ps. hwrng_serve E dev ps False)"

definition hwrng_kick_req_queue ::
  "'w env \<Rightarrow> ('w, 'z) rng_dev \<Rightarrow> (('w, 'z) hwrng_state_scheme, unit) prog" where
  "hwrng_kick_req_queue E dev = mthen (hwrng_handle_req_queue E dev) (mret ())"

definition hwrng_chan_handle_msg :: "'w env \<Rightarrow> nat \<Rightarrow> (('w, 'z) hwrng_state_scheme, int) prog" where
  "hwrng_chan_handle_msg E p =
     mthen (massert (p \<noteq> 0))
     (mbind (mderef (\<lambda>s. rng_ctxs s p)) (\<lambda>ctx.
     mbind (tipc_recv_single_buf E (rng_chan ctx) (sizeof_hwrng_req E)) (\<lambda>(rc, req).
     if rc \<noteq> int (sizeof_hwrng_req E) then mret rc else
     mbind (mget hwrng_req_list) (\<lambda>l.
     mthen (if list_in_list E l p
            then put_ctx p (ctx\<lparr>req_size := req_size ctx + hwrng_req_len E req\<rparr>)
            else mthen (put_ctx p (ctx\<lparr>req_size := hwrng_req_len E req\<rparr>))
                 (mmod (\<lambda>s. s\<lparr>hwrng_req_list := list_add_tail E l p\<rparr>)))
     (mret 0)))))"

definition hwrng_chan_handler ::
  "'w env \<Rightarrow> ('w, 'z) rng_dev \<Rightarrow> uevent \<Rightarrow> nat \<Rightarrow> (('w, 'z) hwrng_state_scheme, unit) prog" where
  "hwrng_chan_handler E dev ev p =
     mthen (massert (p \<noteq> 0))
     (mbind (mderef (\<lambda>s. rng_ctxs s p)) (\<lambda>ctx.
     mthen (massert (ev_handle ev = rng_chan ctx))
     (mthen (tipc_handle_chan_errors ev)
     (mthen
       (if IPC_HANDLE_POLL_HUP \<in> ev_event ev then hwrng_close_chan E p else
        mthen (if IPC_HANDLE_POLL_SEND_UNBLOCKED \<in> ev_event ev
               then put_ctx p (ctx\<lparr>send_blocked := False\<rparr>) else mret ())
        (if IPC_HANDLE_POLL_MSG \<in> ev_event ev
         then mbind (hwrng_chan_handle_msg E p) (\<lambda>rc.
              if rc \<noteq> 0 then hwrng_close_chan E p else mret ())
         else mret ()))
     (hwrng_kick_req_queue E dev)))))"

text \<open>\<^verbatim>\<open>calloc\<close> clears the context; the handler then fills in three members.\<close>

definition new_rng_ctx :: "nat \<Rightarrow> handle \<Rightarrow> hwrng_chan_ctx" where
  "new_rng_ctx p chan = \<lparr>rng_evt_handler = \<lparr>proc = Some Hwrng_chan_handler, priv = p\<rparr>,
     rng_chan = chan, req_size = 0, send_blocked = False\<rparr>"

definition hwrng_port_handler :: "'w env \<Rightarrow> uevent \<Rightarrow> (('w, 'z) hwrng_state_scheme, unit) prog" where
  "hwrng_port_handler E ev =
     mthen (tipc_handle_port_errors ev)
     (if IPC_HANDLE_POLL_READY \<notin> ev_event ev then mret () else
     mbind (sys (k_accept E (ev_handle ev))) (\<lambda>(rc, _).
     if rc < 0 then mret () else
     let chan = rc in
     mbind (calloc E) (\<lambda>p.
     if p = 0 then close E chan else
     mthen (put_ctx p (new_rng_ctx p chan))
     (mbind (sys (k_set_cookie E chan (Hwrng_chan_cookie p))) (\<lambda>rc.
     if rc \<noteq> 0 then
       mthen (mmod (\<lambda>s. s\<lparr>rng_ctxs := (rng_ctxs s)(p := None)\<rparr>))
       (close E chan)
     else mret ())))))"

definition hwrng_start_service :: "'w env \<Rightarrow> (('w, 'z) hwrng_state_scheme, int) prog" where
  "hwrng_start_service E =
     mbind (sys (k_port_create E (HWRNG_PORT E) 1 MAX_HWRNG_MSG_SIZE)) (\<lambda>rc.
     if rc < 0 then mret rc else
     mthen (mmod (\<lambda>s. s\<lparr>hwrng_port := rc\<rparr>))
     (mbind (sys (k_set_cookie E rc Hwrng_port_cookie)) (\<lambda>_.
     mret 0)))"

section \<open>The abstract request queue\<close>

text \<open>
  What the service promises of its queue: an entry is a channel context with the number
  of bytes it is owed and whether its channel is full. One pass offers every entry that
  is not blocked one message of at most \<^verbatim>\<open>MAX_HWRNG_MSG_SIZE\<close> bytes; the reply of the
  kernel decides what becomes of the entry.
\<close>

type_synonym pending_req = "nat \<times> u32 \<times> bool"

datatype reply = Sent | Full | Broken

definition blocked :: "pending_req \<Rightarrow> bool" where
  "blocked x = snd (snd x)"

definition reply_of :: "'w env \<Rightarrow> int \<Rightarrow> reply" where
  "reply_of E rc = (if 0 \<le> rc then Sent else if rc = ERR_NOT_ENOUGH_BUFFER E then Full else Broken)"

text \<open>The replies the kernel may give to a message.\<close>

definition replies :: "'w env \<Rightarrow> reply set" where
  "replies E = {reply_of E (fst (k_send_msg E h segs w)) | h segs w. True}"

fun serve_entry :: "pending_req \<Rightarrow> reply \<Rightarrow> pending_req list" where
  "serve_entry (p, n, b) Sent = (if n > MAX_HWRNG_MSG_SIZE then [(p, n - MAX_HWRNG_MSG_SIZE, b)] else [])"
| "serve_entry (p, n, b) Full = [(p, n, True)]"
| "serve_entry (p, n, b) Broken = []"

fun pass :: "pending_req list \<Rightarrow> reply list \<Rightarrow> pending_req list" where
  "pass [] rs = []"
| "pass (x # q) rs =
     (if blocked x then x # pass q rs else
      case rs of [] \<Rightarrow> x # pass q [] | r # rs' \<Rightarrow> serve_entry x r @ pass q rs')"

definition pending :: "('w, 'z) hwrng_state_scheme \<Rightarrow> nat \<Rightarrow> pending_req" where
  "pending s p = (p, req_size (the (rng_ctxs s p)), send_blocked (the (rng_ctxs s p)))"

definition req_queue :: "('w, 'z) hwrng_state_scheme \<Rightarrow> pending_req list" where
  "req_queue s = map (pending s) (hwrng_req_list s)"

section \<open>Invariant\<close>

text \<open>
  The context of a channel lies at an address that has been allocated and names the
  channel handler; the pending list holds live contexts, each once; the cookie of a
  channel is the context that serves it.
\<close>

definition rng_ctx_ok :: "('w, 'z) hwrng_state_scheme \<Rightarrow> nat \<Rightarrow> hwrng_chan_ctx \<Rightarrow> bool" where
  "rng_ctx_ok s p c \<longleftrightarrow> 0 < p \<and> p < heap_next s
     \<and> rng_evt_handler c = \<lparr>proc = Some Hwrng_chan_handler, priv = p\<rparr>"

definition hwrng_inv ::
  "('w \<Rightarrow> handle \<Rightarrow> cookie option) \<Rightarrow> ('w, 'z) hwrng_state_scheme \<Rightarrow> bool" where
  "hwrng_inv ck s \<longleftrightarrow> caam_ready s \<and> dma_windows s = [] \<and> 0 < heap_next s
     \<and> length (mem s Rng_data) = unat MAX_HWRNG_MSG_SIZE
     \<and> distinct (hwrng_req_list s) \<and> set (hwrng_req_list s) \<subseteq> dom (rng_ctxs s)
     \<and> (\<forall>p c. rng_ctxs s p = Some c \<longrightarrow> rng_ctx_ok s p c)
     \<and> (\<forall>h p. ck (world s) h = Some (Hwrng_chan_cookie p) \<longrightarrow>
          (\<exists>c. rng_ctxs s p = Some c \<and> rng_chan c = h))"

lemma hwrng_cookieD:
  assumes "hwrng_inv ck s" and "ck (world s) h = Some (Hwrng_chan_cookie p)"
  shows "\<exists>c. rng_ctxs s p = Some c \<and> rng_chan c = h"
  using assms unfolding hwrng_inv_def by blast

text \<open>What the operations of the service leave alone.\<close>

definition hwrng_frame ::
  "('w \<Rightarrow> handle \<Rightarrow> cookie option) \<Rightarrow> ('w, 'z) hwrng_state_scheme \<Rightarrow> ('w, 'z) hwrng_state_scheme \<Rightarrow> bool" where
  "hwrng_frame ck s s' \<longleftrightarrow> hwrng_state.more s' = hwrng_state.more s \<and> hwrng_port s' = hwrng_port s
     \<and> caam_base s' = caam_base s
     \<and> (\<forall>b. b \<noteq> Rng_data \<longrightarrow> mem s' b = mem s b) \<and> heap_next s \<le> heap_next s'
     \<and> (\<forall>h c. ck (world s') h = Some c \<longrightarrow>
          ck (world s) h = Some c \<or> (\<exists>p. c = Hwrng_chan_cookie p))"

lemma hwrng_frame_refl [simp]: "hwrng_frame ck s s"
  by (simp add: hwrng_frame_def)

lemma hwrng_frame_trans:
  assumes "hwrng_frame ck s t" and "hwrng_frame ck t u"
  shows "hwrng_frame ck s u"
proof -
  have "\<forall>h c. ck (world u) h = Some c \<longrightarrow> ck (world s) h = Some c \<or> (\<exists>p. c = Hwrng_chan_cookie p)"
    using assms unfolding hwrng_frame_def by blast
  then show ?thesis using assms by (simp add: hwrng_frame_def)
qed

lemma hwrng_frame_ctxs [simp]:
  "hwrng_frame ck s (t\<lparr>rng_ctxs := m\<rparr>) = hwrng_frame ck s t"
  "hwrng_frame ck s (t\<lparr>hwrng_req_list := l\<rparr>) = hwrng_frame ck s t"
  by (simp_all add: hwrng_frame_def)

lemma hwrng_world_sub:
  assumes "hwrng_inv ck s" and "\<And>h c. ck w h = Some c \<Longrightarrow> ck (world s) h = Some c" and "heap_next s \<le> n"
  shows "hwrng_inv ck (s\<lparr>world := w, heap_next := n\<rparr>)" "hwrng_frame ck s (s\<lparr>world := w, heap_next := n\<rparr>)"
  using assms(1,3) hwrng_cookieD [OF assms(1)]
  by (fastforce simp: hwrng_inv_def hwrng_frame_def rng_ctx_ok_def caam_ready_def dest: assms(2))+

lemma hwrng_world:
  assumes "hwrng_inv ck s" and "ck w = ck (world s)"
  shows "hwrng_inv ck (s\<lparr>world := w\<rparr>)" "hwrng_frame ck s (s\<lparr>world := w\<rparr>)"
  using assms by (auto simp: hwrng_inv_def hwrng_frame_def rng_ctx_ok_def)

lemma hwrng_more_sel:
  assumes "caam_state.more s' = caam_state.more s"
  shows "hwrng_port s' = hwrng_port s" "rng_ctxs s' = rng_ctxs s"
    "hwrng_req_list s' = hwrng_req_list s" "hwrng_state.more s' = hwrng_state.more s"
  using assms by (cases s; cases s'; simp)+

text \<open>A device that fills the random data buffer keeps the service as it is.\<close>

lemma hwrng_out:
  assumes "hwrng_inv ck s" and "out_frame (Rng_data, 0) n s s'" and "ck (world s') = ck (world s)"
    and "n \<le> unat MAX_HWRNG_MSG_SIZE"
  shows "hwrng_inv ck s'" "hwrng_frame ck s s'"
proof -
  from assms(2) have f: "caam_state.more s' = caam_state.more s" "dma_windows s' = []"
    "heap_next s' = heap_next s" "caam_ready s \<Longrightarrow> caam_ready s'" "caam_base s' = caam_base s"
    by (simp_all add: out_frame_def drv_frame_def)
  obtain bs where "length bs = n" "mem s' = mem (put_mem (Rng_data, 0) bs s)"
    using assms(2) by (auto simp: out_frame_def)
  then have m: "length (mem s' Rng_data) = length (mem s Rng_data)" "\<And>b. b \<noteq> Rng_data \<Longrightarrow> mem s' b = mem s b"
    using assms(1,4) by (auto simp: hwrng_inv_def)
  show "hwrng_inv ck s'" "hwrng_frame ck s s'"
    using assms(1,3) f m hwrng_more_sel [OF f(1)]
    by (auto simp: hwrng_inv_def hwrng_frame_def rng_ctx_ok_def)
qed

lemma hwrng_put:
  assumes "hwrng_inv ck s" and "rng_ctxs s p = Some c"
    and "rng_chan c' = rng_chan c" "rng_evt_handler c' = rng_evt_handler c"
  shows "hwrng_inv ck (s\<lparr>rng_ctxs := (rng_ctxs s)(p \<mapsto> c')\<rparr>)"
proof -
  have "\<exists>d. ((rng_ctxs s)(p \<mapsto> c')) q = Some d \<and> rng_chan d = h"
    if "ck (world s) h = Some (Hwrng_chan_cookie q)" for h q
    using hwrng_cookieD [OF assms(1) that] assms by auto
  with assms show ?thesis
    by (auto simp: hwrng_inv_def rng_ctx_ok_def caam_ready_def)
qed

lemma hwrng_list:
  assumes "hwrng_inv ck s" and "distinct l" and "set l \<subseteq> dom (rng_ctxs s)"
  shows "hwrng_inv ck (s\<lparr>hwrng_req_list := l\<rparr>)"
  using assms by (simp add: hwrng_inv_def rng_ctx_ok_def caam_ready_def)

section \<open>Rules of the operations\<close>

lemma wp_hwrng_close_chan:
  assumes env: "env_ok ck E" and inv: "hwrng_inv ck s" and p: "rng_ctxs s p = Some c"
    and Q: "\<And>s'. hwrng_inv ck s' \<Longrightarrow> hwrng_frame ck s s' \<Longrightarrow> rng_ctxs s' = (rng_ctxs s)(p := None) \<Longrightarrow>
      hwrng_req_list s' = remove1 p (hwrng_req_list s) \<Longrightarrow> Q () s'"
  shows "wp (hwrng_close_chan E p) Q s"
proof -
  let ?s = "s\<lparr>world := k_close E (rng_chan c) (world s), hwrng_req_list := remove1 p (hwrng_req_list s),
    rng_ctxs := (rng_ctxs s)(p := None)\<rparr>"
  have ck: "ck (k_close E (rng_chan c) w) = (ck w)(rng_chan c := None)" for w
    using env by (simp add: env_ok_def cookies_ok_def)
  have d: "distinct (hwrng_req_list s)" using inv by (simp add: hwrng_inv_def)
  have cks: "\<exists>d. ((rng_ctxs s)(p := None)) q = Some d \<and> rng_chan d = h"
    if "((ck (world s))(rng_chan c := None)) h = Some (Hwrng_chan_cookie q)" for h q
    using hwrng_cookieD [OF inv, of h q] that p by (auto split: if_splits)
  have "hwrng_inv ck ?s" using inv cks d unfolding hwrng_inv_def ck
    by (auto simp: rng_ctx_ok_def ck caam_ready_def split: if_splits)
  moreover have "hwrng_frame ck s ?s"
    by (auto simp: hwrng_frame_def ck split: if_splits)
  ultimately have "Q () ?s" by (intro Q) simp_all
  moreover have "?s = s\<lparr>world := k_close E (rng_chan c) (world s), rng_ctxs := (rng_ctxs s)(p := None)\<rparr>"
    if "p \<notin> set (hwrng_req_list s)" using that by (cases s) (simp add: remove1_idem)
  ultimately show ?thesis
    using env_okD(4) [OF env] by (auto simp: hwrng_close_chan_def p)
qed

text \<open>
  The result of serving the entries \<open>ps\<close>, which the list holds after \<open>l\<close>: the entries
  of \<open>l\<close> are as they were, those of \<open>ps\<close> have become what one pass makes of them, and
  more work is announced exactly when an entry is left that is not blocked.
\<close>

definition serve_post ::
  "'w env \<Rightarrow> ('w \<Rightarrow> handle \<Rightarrow> cookie option) \<Rightarrow> nat list \<Rightarrow> nat list \<Rightarrow> bool \<Rightarrow> ('w, 'z) hwrng_state_scheme \<Rightarrow>
   bool \<Rightarrow> ('w, 'z) hwrng_state_scheme \<Rightarrow> bool" where
  "serve_post E ck l ps need s need' s' \<longleftrightarrow> hwrng_inv ck s' \<and> hwrng_frame ck s s'
     \<and> (\<forall>p. p \<notin> set ps \<longrightarrow> rng_ctxs s' p = rng_ctxs s p)
     \<and> (\<exists>l' rs. set rs \<subseteq> replies E \<and> hwrng_req_list s' = l @ l'
          \<and> length rs = length (filter (\<lambda>x. \<not> blocked x) (map (pending s) ps))
          \<and> map (pending s') l' = pass (map (pending s) ps) rs
          \<and> need' = (need \<or> (\<exists>p \<in> set l'. \<not> blocked (pending s' p))))"

lemma pending_cong: "rng_ctxs t p = rng_ctxs s p \<Longrightarrow> pending t p = pending s p"
  by (simp add: pending_def)

text \<open>One entry has been dealt with and the rest follows.\<close>

lemma serve_post_step:
  assumes t: "hwrng_frame ck s t" "\<And>q. q \<noteq> p \<Longrightarrow> rng_ctxs t q = rng_ctxs s q" "p \<notin> set ps"
    and r: "serve_entry (pending s p) r = [] \<and> l2 = l \<and> need2 = need
      \<or> serve_entry (pending s p) r = [pending t p] \<and> l2 = l @ [p] \<and> need2 = (need \<or> \<not> blocked (pending t p))"
    and "\<not> blocked (pending s p)" "r \<in> replies E"
    and post: "serve_post E ck l2 ps need2 t need' s'"
  shows "serve_post E ck l (p # ps) need s need' s'"
proof -
  have eq: "map (pending t) ps = map (pending s) ps"
    using t(2,3) by (auto intro!: pending_cong t(2))
  have p: "pending s' p = pending t p"
    using post t(3) by (auto simp: serve_post_def intro!: pending_cong)
  from post obtain l' rs where rs: "set rs \<subseteq> replies E" and l': "hwrng_req_list s' = l2 @ l'"
    "length rs = length (filter (\<lambda>x. \<not> blocked x) (map (pending s) ps))"
    "map (pending s') l' = pass (map (pending s) ps) rs"
    "need' = (need2 \<or> (\<exists>p \<in> set l'. \<not> blocked (pending s' p)))"
    unfolding serve_post_def eq by blast
  have "\<exists>l' rs. set rs \<subseteq> replies E \<and> hwrng_req_list s' = l @ l'
      \<and> length rs = length (filter (\<lambda>x. \<not> blocked x) (map (pending s) (p # ps)))
      \<and> map (pending s') l' = pass (map (pending s) (p # ps)) rs
      \<and> need' = (need \<or> (\<exists>p \<in> set l'. \<not> blocked (pending s' p)))"
    using r
  proof
    assume "serve_entry (pending s p) r = [] \<and> l2 = l \<and> need2 = need"
    then show ?thesis using l' rs assms(5,6) by (intro exI [of _ l'] exI [of _ "r # rs"]) simp
  next
    assume "serve_entry (pending s p) r = [pending t p] \<and> l2 = l @ [p] \<and> need2 = (need \<or> \<not> blocked (pending t p))"
    then show ?thesis using l' rs assms(5,6) p by (intro exI [of _ "p # l'"] exI [of _ "r # rs"]) auto
  qed
  then show ?thesis
    using post t(1,2) unfolding serve_post_def by (auto intro: hwrng_frame_trans)
qed

lemma serve_post_skip:
  assumes "serve_post E ck (l @ [p]) ps need s need' s'" and "blocked (pending s p)" and "p \<notin> set ps"
  shows "serve_post E ck l (p # ps) need s need' s'"
proof -
  have p: "pending s' p = pending s p"
    using assms by (auto simp: serve_post_def intro!: pending_cong)
  from assms obtain l' rs where rs: "set rs \<subseteq> replies E" and l': "hwrng_req_list s' = (l @ [p]) @ l'"
    "length rs = length (filter (\<lambda>x. \<not> blocked x) (map (pending s) ps))"
    "map (pending s') l' = pass (map (pending s) ps) rs"
    "need' = (need \<or> (\<exists>p \<in> set l'. \<not> blocked (pending s' p)))"
    unfolding serve_post_def by blast
  then have "\<exists>l' rs. set rs \<subseteq> replies E \<and> hwrng_req_list s' = l @ l'
      \<and> length rs = length (filter (\<lambda>x. \<not> blocked x) (map (pending s) (p # ps)))
      \<and> map (pending s') l' = pass (map (pending s) (p # ps)) rs
      \<and> need' = (need \<or> (\<exists>p \<in> set l'. \<not> blocked (pending s' p)))"
    using assms(2) p rs by (intro exI [of _ "p # l'"] exI [of _ rs]) auto
  then show ?thesis using assms(1) by (auto simp: serve_post_def)
qed

text \<open>What the kernel's reply to one message makes of the entry, with the rest of the list to follow.\<close>

lemma wp_serve_step:
  fixes s :: "('w, 'z) hwrng_state_scheme"
  assumes IH: "\<And>(t :: ('w, 'z) hwrng_state_scheme) l' need. hwrng_inv ck t \<Longrightarrow> hwrng_req_list t = l' @ ps \<Longrightarrow>
      wp (serve need) (serve_post E ck l' ps need t) t"
    and c: "rng_ctxs s p = Some c" "\<not> send_blocked c" "p \<notin> set ps" and r: "r \<in> replies E"
    and u: "hwrng_frame ck s u" "\<And>q. q \<noteq> p \<Longrightarrow> rng_ctxs u q = rng_ctxs s q" "hwrng_inv ck u" "hwrng_req_list u = l2 @ ps"
    and entry: "serve_entry (pending s p) r = [] \<and> l2 = l \<and> need2 = need
      \<or> serve_entry (pending s p) r = [pending u p] \<and> l2 = l @ [p] \<and> need2 = (need \<or> \<not> blocked (pending u p))"
  shows "wp (serve need2) (serve_post E ck l (p # ps) need s) u"
  using r c by (intro wp_mono [OF IH [OF u(3,4)]] serve_post_step [OF u(1,2) c(3) entry])
    (simp_all add: pending_def blocked_def)

lemma wp_serve_reply:
  fixes s :: "('w, 'z) hwrng_state_scheme"
  assumes env: "env_ok ck E" and inv: "hwrng_inv ck s" and list: "hwrng_req_list s = l @ p # ps"
    and c: "rng_ctxs s p = Some c" "\<not> send_blocked c"
    and len: "len = (if req_size c > MAX_HWRNG_MSG_SIZE then MAX_HWRNG_MSG_SIZE else req_size c)"
    and IH: "\<And>(t :: ('w, 'z) hwrng_state_scheme) l' need. hwrng_inv ck t \<Longrightarrow> hwrng_req_list t = l' @ ps \<Longrightarrow>
      wp (serve need) (serve_post E ck l' ps need t) t"
    and rep: "reply_of E rc \<in> replies E" and t: "hwrng_inv ck t" "hwrng_frame ck s t" "rng_ctxs t = rng_ctxs s"
      "hwrng_req_list t = hwrng_req_list s"
  shows "wp (if rc < 0 then
       mthen (if rc = ERR_NOT_ENOUGH_BUFFER E then put_ctx p (c\<lparr>send_blocked := True\<rparr>)
              else hwrng_close_chan E p) (serve need)
     else mthen (put_ctx p (c\<lparr>req_size := req_size c - len\<rparr>))
       (if req_size c - len = 0
        then mthen (mmod (\<lambda>s. s\<lparr>hwrng_req_list := list_delete E (hwrng_req_list s) p\<rparr>)) (serve need)
        else serve True)) (serve_post E ck l (p # ps) need s) t"
proof -
  have p: "p \<notin> set ps" "p \<notin> set l" "distinct (l @ ps)" "set (l @ ps) \<subseteq> dom (rng_ctxs s)"
    using inv list by (auto simp: hwrng_inv_def)
  note step = wp_serve_step [where serve = serve, OF IH c p(1)]
  let ?put = "\<lambda>d. t\<lparr>rng_ctxs := (rng_ctxs t)(p \<mapsto> d)\<rparr>"
  have put: "hwrng_inv ck (?put d)" if "rng_chan d = rng_chan c" "rng_evt_handler d = rng_evt_handler c" for d
    using t c that by (intro hwrng_put) simp_all
  consider (full) "rc < 0" "rc = ERR_NOT_ENOUGH_BUFFER E" | (broken) "rc < 0" "rc \<noteq> ERR_NOT_ENOUGH_BUFFER E"
    | (sent) "\<not> rc < 0" "\<not> req_size c > MAX_HWRNG_MSG_SIZE" | (left) "\<not> rc < 0" "req_size c > MAX_HWRNG_MSG_SIZE"
    by blast
  then show ?thesis
  proof cases
    case full
    have "wp (serve need) (serve_post E ck l (p # ps) need s) (?put (c\<lparr>send_blocked := True\<rparr>))"
      by (rule step [of Full _ "l @ [p]"]) (use t c rep list put full in \<open>auto simp: pending_def blocked_def reply_of_def\<close>)
    with full show ?thesis by (simp add: put_ctx_def)
  next
    case broken
    then have "wp (hwrng_close_chan E p) (\<lambda>_. wp (serve need) (serve_post E ck l (p # ps) need s)) t"
      using t c p rep list
      by (intro wp_hwrng_close_chan [OF env t(1)] step [of Broken _ l])
         (auto simp: remove1_append pending_def reply_of_def intro: hwrng_frame_trans)
    with broken show ?thesis by simp
  next
    case sent
    have "wp (serve need) (serve_post E ck l (p # ps) need s)
        ((?put (c\<lparr>req_size := 0\<rparr>))\<lparr>hwrng_req_list := remove1 p (hwrng_req_list t)\<rparr>)"
      by (rule step [of Sent _ l]) (use t c p rep sent list put in
          \<open>auto simp: remove1_append pending_def reply_of_def intro!: hwrng_list\<close>)
    with sent show ?thesis using env_okD(4) [OF env] by (simp add: put_ctx_def len)
  next
    case left
    have "wp (serve True) (serve_post E ck l (p # ps) need s) (?put (c\<lparr>req_size := req_size c - MAX_HWRNG_MSG_SIZE\<rparr>))"
      by (rule step [of Sent _ "l @ [p]"]) (use t c left rep list put in \<open>auto simp: pending_def blocked_def reply_of_def\<close>)
    with left show ?thesis by (auto simp: put_ctx_def len)
  qed
qed

section \<open>The service over its device\<close>

text \<open>
  The contract of \<^verbatim>\<open>hwrng_dev_get_rng_data\<close> (hwrng_srv_priv.h) the service relies on: the
  device writes at most the bytes asked for, and touches nothing else of the program.
\<close>

locale rng_device =
  fixes ck :: "'w \<Rightarrow> handle \<Rightarrow> cookie option"
    and dev :: "'w env \<Rightarrow> ('w, 'z) rng_dev"
  assumes dev_fills: "env_ok ck E \<Longrightarrow> caam_ready s \<Longrightarrow> dma_windows s = [] \<Longrightarrow>
    in_obj s buf (unat n) \<Longrightarrow>
    (\<And>s'. out_frame buf (unat n) s s' \<Longrightarrow> ck (world s') = ck (world s) \<Longrightarrow> Q () s') \<Longrightarrow>
    wp (dev E buf n) Q s"
begin

text \<open>Filling the buffer and sending it: only the buffer and the world have changed.\<close>

lemma wp_fill_send:
  assumes env: "env_ok ck E" and inv: "hwrng_inv ck s" and n: "n \<le> MAX_HWRNG_MSG_SIZE"
    and Q: "\<And>rc s'. reply_of E rc \<in> replies E \<Longrightarrow> hwrng_inv ck s' \<Longrightarrow> hwrng_frame ck s s' \<Longrightarrow>
      rng_ctxs s' = rng_ctxs s \<Longrightarrow> hwrng_req_list s' = hwrng_req_list s \<Longrightarrow> wp (k rc) Q s'"
  shows "wp (mthen (dev E (Rng_data, 0) n) (mbind (tipc_send_single_buf E chan (Rng_data, 0) n) k)) Q s"
  unfolding wp_basic(2,3)
proof (rule dev_fills [OF env])
  have n': "unat n \<le> unat MAX_HWRNG_MSG_SIZE" using n by (simp add: word_le_nat_alt)
  then show "caam_ready s" "dma_windows s = []" "in_obj s (Rng_data, 0) (unat n)"
    using inv by (simp_all add: hwrng_inv_def in_obj_def)
  fix t assume t: "out_frame (Rng_data, 0) (unat n) s t" "ck (world t) = ck (world s)"
  note f = hwrng_out [OF inv t n']
  have sel: "rng_ctxs t = rng_ctxs s" "hwrng_req_list t = hwrng_req_list s"
    using t(1) by (auto simp: out_frame_def drv_frame_def dest: hwrng_more_sel)
  show "wp (tipc_send_single_buf E chan (Rng_data, 0) n) (\<lambda>rc s'. wp (k rc) Q s') t"
  proof (rule wp_send_single)
    show "in_obj t (Rng_data, 0) (unat n)" using f(1) n' by (simp add: hwrng_inv_def in_obj_def)
    fix rc w assume snd: "k_send_msg E chan [take (unat n) (drop (snd (Rng_data, 0)) (mem t (fst (Rng_data, 0))))] (world t) = (rc, w)"
    then have ck: "ck w = ck (world t)" by (rule cookies_okD(5) [OF env_okD(6) [OF env]])
    have rep: "reply_of E rc \<in> replies E" using snd unfolding replies_def by (metis (mono_tags) fst_conv mem_Collect_eq)
    show "wp (k rc) Q (t\<lparr>world := w\<rparr>)"
      using f hwrng_world [OF f(1) ck] sel rep by (intro Q) (auto intro: hwrng_frame_trans)
  qed
qed

text \<open>The loop refines one pass of the abstract queue.\<close>

lemma wp_hwrng_serve:
  assumes env: "env_ok ck E"
  shows "hwrng_inv ck s \<Longrightarrow> hwrng_req_list s = l @ ps \<Longrightarrow>
    wp (hwrng_serve E (dev E) ps need) (serve_post E ck l ps need s) s"
proof (induction ps arbitrary: s l need)
  case Nil
  then show ?case by (auto simp: serve_post_def)
next
  case (Cons p ps)
  obtain c where c: "rng_ctxs s p = Some c"
    using Cons.prems by (auto simp: hwrng_inv_def)
  have p: "p \<notin> set ps" using Cons.prems by (auto simp: hwrng_inv_def)
  show ?case
  proof (cases "send_blocked c")
    case True
    then show ?thesis
      using c p Cons.prems
      by (auto intro!: wp_mono [OF Cons.IH [of s "l @ [p]"]] serve_post_skip simp: pending_def blocked_def)
  next
    case False
    let ?len = "if req_size c > MAX_HWRNG_MSG_SIZE then MAX_HWRNG_MSG_SIZE else req_size c"
    have "?len \<le> MAX_HWRNG_MSG_SIZE" by (simp add: not_less)
    from wp_fill_send [OF env Cons.prems(1) this wp_serve_reply [OF env Cons.prems c False refl Cons.IH]] show ?thesis
      unfolding hwrng_serve.simps wp_basic(2) [of "mderef h" for h] wp_mderef
      using c False by (simp only: Let_def if_False simp_thms option.inject)
  qed
qed

text \<open>The pass over the whole list, and the wake-up that drops its result.\<close>

lemma wp_hwrng_handle_req_queue:
  assumes "env_ok ck E" and "hwrng_inv ck s"
  shows "wp (hwrng_handle_req_queue E (dev E)) (\<lambda>need s'. hwrng_inv ck s' \<and> hwrng_frame ck s s' \<and>
     (\<exists>rs. set rs \<subseteq> replies E \<and> length rs = length (filter (\<lambda>x. \<not> blocked x) (req_queue s)) \<and>
       req_queue s' = pass (req_queue s) rs \<and> need = (\<exists>x \<in> set (req_queue s'). \<not> blocked x))) s"
  unfolding hwrng_handle_req_queue_def wp_basic(2,5)
  by (rule wp_mono [OF wp_hwrng_serve [OF assms, of "[]"]]) (auto simp: serve_post_def req_queue_def)

lemma wp_hwrng_kick:
  assumes "env_ok ck E" and "hwrng_inv ck s"
    and "\<And>s'. hwrng_inv ck s' \<Longrightarrow> hwrng_frame ck s s' \<Longrightarrow> Q () s'"
  shows "wp (hwrng_kick_req_queue E (dev E)) Q s"
  unfolding hwrng_kick_req_queue_def wp_basic(3)
  by (rule wp_mono [OF wp_hwrng_handle_req_queue [OF assms(1,2)]]) (simp add: assms(3))

end

lemma wp_hwrng_chan_handle_msg:
  assumes env: "env_ok ck E" and inv: "hwrng_inv ck s" and p: "rng_ctxs s p = Some c"
    and Q: "\<And>rc s'. hwrng_inv ck s' \<Longrightarrow> hwrng_frame ck s s' \<Longrightarrow> \<exists>c'. rng_ctxs s' p = Some c' \<Longrightarrow> Q rc s'"
  shows "wp (hwrng_chan_handle_msg E p) Q s"
proof -
  note e = env_okD [OF env]
  let ?recv = "tipc_recv_single_buf E (rng_chan c) (sizeof_hwrng_req E)"
  have recv: "wp ?recv R s" if R: "\<And>x w. ck w = ck (world s) \<Longrightarrow> R x (s\<lparr>world := w\<rparr>)" for R
    by (rule wp_keeps [OF wp_recv_single [OF e(2,3), where Q = "\<lambda>_ t. \<exists>w. t = s\<lparr>world := w\<rparr>"]
          keeps_tipc(2) [OF e(6)]]) (auto intro: R)
  have put: "hwrng_inv ck (s\<lparr>world := w, rng_ctxs := (rng_ctxs s)(p \<mapsto> c\<lparr>req_size := n\<rparr>)\<rparr>)"
    if "ck w = ck (world s)" for w n
    using hwrng_put [OF hwrng_world(1) [OF inv that], of p c "c\<lparr>req_size := n\<rparr>"] p by simp
  have add: "hwrng_inv ck (s\<lparr>world := w, rng_ctxs := (rng_ctxs s)(p \<mapsto> c\<lparr>req_size := n\<rparr>),
      hwrng_req_list := hwrng_req_list s @ [p]\<rparr>)"
    if "ck w = ck (world s)" "p \<notin> set (hwrng_req_list s)" for w n
  proof -
    have "distinct (hwrng_req_list s)" "set (hwrng_req_list s) \<subseteq> dom (rng_ctxs s)"
      using inv by (simp_all add: hwrng_inv_def)
    with hwrng_list [OF put [OF that(1)], of "hwrng_req_list s @ [p]" n] that(2) show ?thesis
      by (simp add: subset_insertI2)
  qed
  show ?thesis
    using hwrng_world [OF inv] p put add e(4)
    by (auto simp: hwrng_chan_handle_msg_def put_ctx_def Let_def intro!: recv Q)
qed

text \<open>A context is made at a fresh address, and its channel gets it as its cookie.\<close>

lemma hwrng_fresh: "hwrng_inv ck s \<Longrightarrow> rng_ctxs s (heap_next s) = None"
  by (cases "rng_ctxs s (heap_next s)") (auto simp: hwrng_inv_def rng_ctx_ok_def)

lemma hwrng_new:
  assumes inv: "hwrng_inv ck s" and ck: "ck w = (ck (world s))(chan := Some (Hwrng_chan_cookie (heap_next s)))"
  shows "hwrng_inv ck (s\<lparr>heap_next := Suc (heap_next s),
      rng_ctxs := (rng_ctxs s)(heap_next s \<mapsto> new_rng_ctx (heap_next s) chan), world := w\<rparr>)" (is "hwrng_inv ck ?t")
    and "hwrng_frame ck s (s\<lparr>heap_next := Suc (heap_next s),
      rng_ctxs := (rng_ctxs s)(heap_next s \<mapsto> new_rng_ctx (heap_next s) chan), world := w\<rparr>)"
proof -
  have "\<exists>d. rng_ctxs ?t q = Some d \<and> rng_chan d = h" if "ck w h = Some (Hwrng_chan_cookie q)" for h q
    using hwrng_cookieD [OF inv, of h q] hwrng_fresh [OF inv] that
    by (auto simp: ck new_rng_ctx_def split: if_splits)
  then show "hwrng_inv ck ?t"
    using inv by (auto simp: hwrng_inv_def rng_ctx_ok_def new_rng_ctx_def caam_ready_def less_Suc_eq)
  show "hwrng_frame ck s ?t" by (auto simp: hwrng_frame_def ck split: if_splits)
qed

lemma wp_hwrng_port_handler:
  assumes env: "env_ok ck E" and inv: "hwrng_inv ck s"
    and Q: "\<And>s'. hwrng_inv ck s' \<Longrightarrow> hwrng_frame ck s s' \<Longrightarrow> hwrng_req_list s' = hwrng_req_list s \<Longrightarrow> Q () s'"
  shows "wp (hwrng_port_handler E ev) Q s"
proof -
  note e = env_okD [OF env] and cks = cookies_okD [OF env_okD(6) [OF env]]
  have keep: "Q () (s\<lparr>world := w\<rparr>)" if "\<And>h c. ck w h = Some c \<Longrightarrow> ck (world s) h = Some c" for w
    using hwrng_world_sub [OF inv that, where n = "heap_next s"] by (intro Q) (cases s; simp)+
  have undo: "Q () (s\<lparr>heap_next := Suc (heap_next s), rng_ctxs := (rng_ctxs s)(heap_next s := None), world := w\<rparr>)"
    if "\<And>h c. ck w h = Some c \<Longrightarrow> ck (world s) h = Some c" for w
  proof -
    have "(rng_ctxs s)(heap_next s := None) = rng_ctxs s" using hwrng_fresh [OF inv] by auto
    then show ?thesis using hwrng_world_sub [OF inv that, where n = "Suc (heap_next s)"] by (intro Q) (cases s; simp)+
  qed
  have new: "Q () (s\<lparr>heap_next := Suc (heap_next s),
      rng_ctxs := (rng_ctxs s)(heap_next s \<mapsto> new_rng_ctx (heap_next s) chan), world := w\<rparr>)"
    if "ck w = (ck (world s))(chan := Some (Hwrng_chan_cookie (heap_next s)))" for w chan
    using hwrng_new [OF inv that] by (intro Q) simp_all
  have "Q () s" "0 < heap_next s" using inv Q by (simp_all add: hwrng_inv_def)
  then show ?thesis
    by (auto simp: hwrng_port_handler_def wp_port_errors put_ctx_def Let_def cks(2)
        intro!: wp_sysI wp_calloc_obs [OF e(5)] keep undo new dest!: cks(1) cks(4) split: if_splits)
qed

lemma wp_hwrng_start_service:
  assumes env: "env_ok ck E" and inv: "hwrng_inv ck s"
    and Q: "\<And>rc s'. hwrng_inv ck s' \<Longrightarrow> hwrng_frame ck s (s'\<lparr>hwrng_port := hwrng_port s, world := world s\<rparr>) \<Longrightarrow>
      (\<And>h c. ck (world s') h = Some c \<Longrightarrow> ck (world s) h = Some c \<or> c = Hwrng_port_cookie) \<Longrightarrow>
      hwrng_req_list s' = hwrng_req_list s \<Longrightarrow> rng_ctxs s' = rng_ctxs s \<Longrightarrow> Q rc s'"
  shows "wp (hwrng_start_service E) Q s"
proof -
  note cks = cookies_okD [OF env_okD(6) [OF env]]
  have "hwrng_inv ck (s\<lparr>hwrng_port := h, world := w\<rparr>)"
    if "\<And>h c. ck w h = Some c \<Longrightarrow> ck (world s) h = Some c \<or> c = Hwrng_port_cookie" for w h
    using inv that unfolding hwrng_inv_def by (fastforce simp: rng_ctx_ok_def caam_ready_def)
  note inv' = this
  show ?thesis
    using hwrng_world [OF inv]
    by (auto simp: hwrng_start_service_def intro!: wp_sysI Q inv' dest!: cks(1,3) split: if_splits)
qed

context rng_device
begin

lemma wp_hwrng_chan_handler:
  assumes env: "env_ok ck E" and inv: "hwrng_inv ck s" and p: "rng_ctxs s p = Some c"
    and Q: "\<And>s'. hwrng_inv ck s' \<Longrightarrow> hwrng_frame ck s s' \<Longrightarrow> Q () s'"
  shows "wp (hwrng_chan_handler E (dev E) ev p) Q s"
proof -
  let ?K = "\<lambda>_. wp (hwrng_kick_req_queue E (dev E)) Q"
  have kick: "?K x t" if "hwrng_inv ck t" "hwrng_frame ck s t" for x t
    using that by (intro wp_hwrng_kick [OF env] Q) (auto intro: hwrng_frame_trans)
  have cl: "wp (hwrng_close_chan E p) ?K t"
    if "hwrng_inv ck t" "hwrng_frame ck s t" "rng_ctxs t p = Some d" for t d
    using that by (intro wp_hwrng_close_chan [OF env] kick) (auto intro: hwrng_frame_trans)
  have msg: "wp (hwrng_chan_handle_msg E p) (\<lambda>rc t. (rc \<noteq> 0 \<longrightarrow> wp (hwrng_close_chan E p) ?K t) \<and> (rc = 0 \<longrightarrow> ?K () t)) t"
    if "hwrng_inv ck t" "hwrng_frame ck s t" "rng_ctxs t p = Some d" for t d
    by (rule wp_hwrng_chan_handle_msg [OF env that(1,3)])
       (use that in \<open>auto intro: cl kick hwrng_frame_trans\<close>)
  let ?t = "s\<lparr>rng_ctxs := (rng_ctxs s)(p \<mapsto> c\<lparr>send_blocked := False\<rparr>)\<rparr>"
  have "hwrng_inv ck ?t" "hwrng_frame ck s ?t" "rng_ctxs ?t p = Some (c\<lparr>send_blocked := False\<rparr>)"
    using hwrng_put [OF inv p] by simp_all
  then show ?thesis
    using kick [OF inv] cl [OF inv _ p] msg [OF inv _ p] kick [of ?t] msg [of ?t]
    by (simp add: hwrng_chan_handler_def p wp_chan_errors put_ctx_def)
qed

end

section \<open>The abstract queue\<close>

text \<open>After a pass every entry left is blocked or still owed bytes.\<close>

lemma serve_entry_left:
  "x \<in> set (serve_entry y r) \<Longrightarrow> blocked x \<or> fst (snd x) \<noteq> 0"
  by (cases "(y, r)" rule: serve_entry.cases) (auto simp: blocked_def split: if_splits)

lemma pass_left:
  assumes "length (filter (\<lambda>x. \<not> blocked x) q) \<le> length rs" and "x \<in> set (pass q rs)"
  shows "blocked x \<or> fst (snd x) \<noteq> 0"
  using assms
  by (induction q rs rule: pass.induct) (auto split: list.splits if_splits dest: serve_entry_left)

text \<open>When every send succeeds, \<open>k\<close> passes serve every entry that asked for at most \<open>k\<close> messages.\<close>

definition pass_all :: "pending_req list \<Rightarrow> pending_req list" where
  "pass_all q = pass q (replicate (length q) Sent)"

lemma pass_Sent:
  "length (filter (\<lambda>x. \<not> blocked x) q) \<le> m \<Longrightarrow>
   pass q (replicate m Sent) = concat (map (\<lambda>x. if blocked x then [x] else serve_entry x Sent) q)"
proof (induction q arbitrary: m)
  case (Cons x q)
  show ?case
  proof (cases "blocked x")
    case False
    with Cons.prems obtain m' where m: "m = Suc m'" "length (filter (\<lambda>x. \<not> blocked x) q) \<le> m'" by (cases m) auto
    with Cons.IH [of m'] False show ?thesis by simp
  qed (use Cons in simp)
qed simp

lemma pass_all_eq: "pass_all q = concat (map (\<lambda>x. if blocked x then [x] else serve_entry x Sent) q)"
  unfolding pass_all_def by (rule pass_Sent) simp

lemma pass_all_unique:
  assumes "set rs \<subseteq> {Sent}" and "length rs = length (filter (\<lambda>x. \<not> blocked x) q)"
  shows "pass q rs = pass_all q"
proof -
  have "rs = replicate (length rs) Sent" using assms(1) by (induction rs) auto
  then show ?thesis using pass_Sent [of q "length rs"] assms(2) pass_all_eq by simp
qed

lemma pass_all_size:
  assumes "(p, n, False) \<in> set ((pass_all ^^ k) q)"
  shows "\<exists>m. (p, m, False) \<in> set q \<and> unat m = unat n + k * 4096"
  using assms
proof (induction k arbitrary: n)
  case (Suc k)
  let ?q = "(pass_all ^^ k) q"
  have "(p, n, False) \<in> set (pass_all ?q)" using Suc.prems by simp
  then obtain y where y: "y \<in> set ?q" "\<not> blocked y" "(p, n, False) \<in> set (serve_entry y Sent)"
    unfolding pass_all_eq by (auto simp: blocked_def split: if_splits)
  obtain m where m: "y = (p, m, False)" "MAX_HWRNG_MSG_SIZE < m" "n = m - MAX_HWRNG_MSG_SIZE"
    by (cases y) (use y(2,3) in \<open>auto simp: blocked_def split: if_splits\<close>)
  then have "unat m = unat n + 4096"
    using unat_sub [of "4096 :: u32" m] by (simp add: MAX_HWRNG_MSG_SIZE_def word_less_nat_alt word_le_nat_alt)
  with Suc.IH [of m] y(1) m(1) show ?case by auto
qed auto

text \<open>Every request is served after finitely many passes.\<close>

lemma pass_all_drains:
  assumes "(p, n, False) \<in> set ((pass_all ^^ k) q)" "0 < k"
  shows "\<exists>m. (p, m, False) \<in> set q \<and> k * 4096 < unat m"
proof -
  from assms(2) obtain j where k: "k = Suc j" by (cases k) auto
  have "(p, n, False) \<in> set (pass_all ((pass_all ^^ j) q))" using assms(1) k by simp
  then have "n \<noteq> 0"
    by (auto simp: pass_all_def dest!: pass_left [rotated] simp: blocked_def)
  with pass_all_size [OF assms(1)] show ?thesis by (auto simp: unat_gt_0)
qed

end
