(* ===== verification/Hwrng_Provider.thy ===== *)
theory Hwrng_Provider
  imports Hwrng_Srv
begin

text \<open>The provider of the random number service (hwrng_srv_provider.c): the CAAM.\<close>

definition hwrng_dev_get_rng_data :: "'w env \<Rightarrow> ('w, 'z) rng_dev" where
  "hwrng_dev_get_rng_data E buf buf_len =
     mbind (caam_hwrng E buf buf_len) (\<lambda>res. massert (res = CAAM_SUCCESS))"

definition hwrng_init_srv_provider :: "'w env \<Rightarrow> (('w, 'z) hwrng_state_scheme, unit) prog" where
  "hwrng_init_srv_provider E = mthen (hwrng_start_service E) (mret ())"

lemma wp_hwrng_dev:
  assumes env: "env_ok ck E" and "caam_ready s" "dma_windows s = []" "in_obj s buf (unat n)"
    and Q: "\<And>s'. out_frame buf (unat n) s s' \<Longrightarrow> ck (world s') = ck (world s) \<Longrightarrow> Q () s'"
  shows "wp (hwrng_dev_get_rng_data E buf n) Q s"
proof -
  have "wp (hwrng_dev_get_rng_data E buf n) (\<lambda>_. out_frame buf (unat n) s) s"
    unfolding hwrng_dev_get_rng_data_def wp_basic(2,7)
    using assms(2-4) by (intro wp_caam_hwrng [OF env_okD(1) [OF env]]) auto
  moreover have "keeps ck (hwrng_dev_get_rng_data E buf n)"
    unfolding hwrng_dev_get_rng_data_def by (intro keeps_intros env_okD(5) [OF env])
  ultimately show ?thesis by (rule wp_keeps) (simp add: Q)
qed

text \<open>The CAAM provides what the service relies on.\<close>

interpretation caam_rng: rng_device ck hwrng_dev_get_rng_data for ck
  by unfold_locales (rule wp_hwrng_dev)

end
