(* ===== verification/Hwkey_Srv.thy ===== *)
theory Hwkey_Srv
  imports Hwrng_Srv
begin

text \<open>
  The key service (hwkey_srv.c with hwkey_srv_priv.h): the key slots, the requests for a
  slot and for a derived key, and the channel and port event handlers. The service calls
  the handlers of the key slots and \<^verbatim>\<open>derive_key_v1\<close>, which its provider implements; they
  are the arguments \<open>call\<close> and \<open>derive\<close> of the definitions that use them.
\<close>

section \<open>State\<close>

definition HWKEY_MAX_PAYLOAD_SIZE :: nat where "HWKEY_MAX_PAYLOAD_SIZE = 2048"
definition sizeof_uuid :: nat where "sizeof_uuid = 16"

text \<open>
  \<^verbatim>\<open>struct hwkey_keyslot\<close>; the handlers are the functions the slots of the program name,
  and no slot uses its \<^verbatim>\<open>priv\<close> member. A key id is the bytes of its string literal.
\<close>

datatype key_handler = Get_rpmb_ss_auth_key | Get_unittest_key32

record hwkey_keyslot =
  key_id :: "byte list"
  slot_uuid :: uuid
  slot_handler :: "key_handler option"

record hwkey_chan_ctx =
  key_evt_handler :: tipc_event_handler
  key_chan :: handle
  ctx_uuid :: uuid

record 'w hwkey_state = "'w hwrng_state" +
  rpmb_keyblob_len :: u32
  key_slots :: "hwkey_keyslot list option"
  key_slot_cnt :: u32
  key_ctxs :: "nat \<rightharpoonup> hwkey_chan_ctx"

text \<open>
  A slot handler gets its slot, the key buffer with its size and the length cell \<^verbatim>\<open>*klen\<close>,
  and returns its result and the new value of the cell. \<^verbatim>\<open>derive_key_v1\<close> gets the uuid, the
  input key material with its length, the key buffer and its length cell.
\<close>

type_synonym ('w, 'z) key_call =
  "key_handler \<Rightarrow> hwkey_keyslot \<Rightarrow> cptr \<Rightarrow> u32 \<Rightarrow> u32 \<Rightarrow> (('w, 'z) hwkey_state_scheme, u32 \<times> u32) prog"

type_synonym ('w, 'z) key_derive =
  "uuid \<Rightarrow> cptr \<Rightarrow> u32 \<Rightarrow> cptr \<Rightarrow> u32 \<Rightarrow> (('w, 'z) hwkey_state_scheme, u32 \<times> u32) prog"

section \<open>The unit test key\<close>

definition unittest_key32 :: "byte list" where
  "unittest_key32 = map of_char ''unittestkeyslotunittestkeyslotun''"

definition get_unittest_key32 ::
  "'w env \<Rightarrow> hwkey_keyslot \<Rightarrow> cptr \<Rightarrow> u32 \<Rightarrow> u32 \<Rightarrow> (('w, 'z) hwkey_state_scheme, u32 \<times> u32) prog" where
  "get_unittest_key32 E slot kbuf kbuf_len klen =
     mthen (massert (fst kbuf \<noteq> Null))
     (mthen (massert (kbuf_len \<ge> 32))
     (mthen (memcpy kbuf (Unittest_key32, 0) 32)
     (mret (HWKEY_NO_ERROR E, 32))))"

definition test_key_slots :: "'w env \<Rightarrow> hwkey_keyslot list" where
  "test_key_slots E = [\<lparr>key_id = clit ''com.android.trusty.hwcrypto.unittest.key32'',
     slot_uuid = HWCRYPTO_UNITTEST_APP_UUID E, slot_handler = Some Get_unittest_key32\<rparr>]"

section \<open>Operations\<close>

definition hwkey_ctx_close :: "'w env \<Rightarrow> nat \<Rightarrow> (('w, 'z) hwkey_state_scheme, unit) prog" where
  "hwkey_ctx_close E p =
     mbind (mderef (\<lambda>s. key_ctxs s p)) (\<lambda>ctx.
     mthen (close E (key_chan ctx))
     (mmod (\<lambda>s. s\<lparr>key_ctxs := (key_ctxs s)(p := None)\<rparr>)))"

definition hwkey_send_rsp ::
  "'w env \<Rightarrow> hwkey_chan_ctx \<Rightarrow> hwkey_msg \<Rightarrow> cptr \<Rightarrow> u32 \<Rightarrow> (('w, 'z) hwkey_state_scheme, int) prog" where
  "hwkey_send_rsp E ctx rsp_hdr rsp_data rsp_data_len =
     tipc_send_two_segments E (key_chan ctx)
       (bytes_of_hwkey_msg E (rsp_hdr\<lparr>cmd := cmd rsp_hdr OR HWKEY_RESP_BIT E\<rparr>))
       rsp_data (unat rsp_data_len)"

text \<open>
  The loop of \<^verbatim>\<open>_handle_slots\<close>: \<open>n\<close> slots are left, the next one is at index \<open>i\<close> of the
  array. The result is the status and the length cell.
\<close>

fun handle_slots_loop ::
  "'w env \<Rightarrow> ('w, 'z) key_call \<Rightarrow> hwkey_chan_ctx \<Rightarrow> cptr \<Rightarrow> hwkey_keyslot list \<Rightarrow> nat \<Rightarrow> nat \<Rightarrow>
   cptr \<Rightarrow> u32 \<Rightarrow> u32 \<Rightarrow> (('w, 'z) hwkey_state_scheme, u32 \<times> u32) prog" where
  "handle_slots_loop E call ctx slot_id slots i 0 kbuf kbuf_len klen = mret (HWKEY_ERR_NOT_FOUND E, klen)"
| "handle_slots_loop E call ctx slot_id slots i (Suc n) kbuf kbuf_len klen =
     mthen (mcheck (i < length slots))
     (mbind (mderef (\<lambda>s. strcmp_eq (key_id (slots ! i)) (drop (snd slot_id) (mem s (fst slot_id))))) (\<lambda>same.
     if \<not> same then handle_slots_loop E call ctx slot_id slots (Suc i) n kbuf kbuf_len klen else
     if memcmp_eq (ctx_uuid ctx) (slot_uuid (slots ! i)) sizeof_uuid then
       (case slot_handler (slots ! i) of
          Some h \<Rightarrow> call h (slots ! i) kbuf kbuf_len klen
        | None \<Rightarrow> handle_slots_loop E call ctx slot_id slots (Suc i) n kbuf kbuf_len klen)
     else handle_slots_loop E call ctx slot_id slots (Suc i) n kbuf kbuf_len klen))"

definition handle_slots ::
  "'w env \<Rightarrow> ('w, 'z) key_call \<Rightarrow> hwkey_chan_ctx \<Rightarrow> cptr \<Rightarrow> hwkey_keyslot list option \<Rightarrow> u32 \<Rightarrow>
   cptr \<Rightarrow> u32 \<Rightarrow> u32 \<Rightarrow> (('w, 'z) hwkey_state_scheme, u32 \<times> u32) prog" where
  "handle_slots E call ctx slot_id slots slot_cnt kbuf kbuf_len klen =
     (case slots of
        None \<Rightarrow> mret (HWKEY_ERR_NOT_FOUND E, klen)
      | Some sl \<Rightarrow> handle_slots_loop E call ctx slot_id sl 0 (unat slot_cnt) kbuf kbuf_len klen)"

definition sizeof_key_data :: u32 where "sizeof_key_data = of_nat HWKEY_MAX_PAYLOAD_SIZE"

definition hwkey_handle_get_keyslot_cmd ::
  "'w env \<Rightarrow> ('w, 'z) key_call \<Rightarrow> hwkey_chan_ctx \<Rightarrow> hwkey_msg \<Rightarrow> cptr \<Rightarrow>
   (('w, 'z) hwkey_state_scheme, int) prog" where
  "hwkey_handle_get_keyslot_cmd E call ctx hdr slot_id =
     mbind (mget (\<lambda>s. (key_slots s, key_slot_cnt s))) (\<lambda>(slots, cnt).
     mbind (handle_slots E call ctx slot_id slots cnt (Key_data, 0) sizeof_key_data 0) (\<lambda>(st, klen).
     mbind (if with_hwcrypto_unittest E \<and> st = HWKEY_ERR_NOT_FOUND E
            then handle_slots E call ctx slot_id (Some (test_key_slots E))
                   (of_nat (length (test_key_slots E))) (Key_data, 0) sizeof_key_data klen
            else mret (st, klen)) (\<lambda>(st, klen).
     mbind (hwkey_send_rsp E ctx (hdr\<lparr>status := st\<rparr>) (Key_data, 0) klen) (\<lambda>rc.
     mthen (if klen \<noteq> 0 then memset (Key_data, 0) 0 (unat klen) else mret ())
     (mret rc)))))"

definition hwkey_handle_derive_key_cmd ::
  "'w env \<Rightarrow> ('w, 'z) key_derive \<Rightarrow> hwkey_chan_ctx \<Rightarrow> hwkey_msg \<Rightarrow> cptr \<Rightarrow> u32 \<Rightarrow>
   (('w, 'z) hwkey_state_scheme, int) prog" where
  "hwkey_handle_derive_key_cmd E derive ctx hdr ikm_data ikm_len =
     (let hdr = (if arg1 hdr = HWKEY_KDF_VERSION_BEST E then hdr\<lparr>arg1 := HWKEY_KDF_VERSION_1 E\<rparr> else hdr) in
     mbind (if arg1 hdr = HWKEY_KDF_VERSION_1 E
            then derive (ctx_uuid ctx) ikm_data ikm_len (Key_data, 0) sizeof_key_data
            else mret (HWKEY_ERR_NOT_IMPLEMENTED E, 0)) (\<lambda>(st, key_len).
     mbind (hwkey_send_rsp E ctx (hdr\<lparr>status := st\<rparr>) (Key_data, 0) key_len) (\<lambda>rc.
     mthen (if key_len \<noteq> 0 then memset (Key_data, 0) 0 (unat key_len) else mret ())
     (mret rc))))"

definition hwkey_chan_handle_msg ::
  "'w env \<Rightarrow> ('w, 'z) key_call \<Rightarrow> ('w, 'z) key_derive \<Rightarrow> nat \<Rightarrow> (('w, 'z) hwkey_state_scheme, int) prog" where
  "hwkey_chan_handle_msg E call derive p =
     mbind (mderef (\<lambda>s. key_ctxs s p)) (\<lambda>ctx.
     mbind (tipc_recv_two_segments E (key_chan ctx) (sizeof_hwkey_msg E) (Req_data, 0)
              HWKEY_MAX_PAYLOAD_SIZE) (\<lambda>(rc, bytes).
     if rc < 0 then mret rc else
     let req_data_len = of_int rc - of_nat (sizeof_hwkey_msg E); hdr = hwkey_msg_of E bytes in
     if cmd hdr = HWKEY_GET_KEYSLOT E then
       mthen (mwrite (Req_data, unat req_data_len) [0])
       (hwkey_handle_get_keyslot_cmd E call ctx hdr (Req_data, 0))
     else if cmd hdr = HWKEY_DERIVE E then
       mbind (hwkey_handle_derive_key_cmd E derive ctx hdr (Req_data, 0) req_data_len) (\<lambda>rc.
       mthen (memset (Req_data, 0) 0 (unat req_data_len))
       (mret rc))
     else hwkey_send_rsp E ctx (hdr\<lparr>status := HWKEY_ERR_NOT_IMPLEMENTED E\<rparr>) (Null, 0) 0))"

definition hwkey_chan_handler ::
  "'w env \<Rightarrow> ('w, 'z) key_call \<Rightarrow> ('w, 'z) key_derive \<Rightarrow> uevent \<Rightarrow> nat \<Rightarrow>
   (('w, 'z) hwkey_state_scheme, unit) prog" where
  "hwkey_chan_handler E call derive ev p =
     mthen (massert (p \<noteq> 0))
     (mbind (mderef (\<lambda>s. key_ctxs s p)) (\<lambda>ctx.
     mthen (massert (ev_handle ev = key_chan ctx))
     (mthen (tipc_handle_chan_errors ev)
     (if IPC_HANDLE_POLL_HUP \<in> ev_event ev then hwkey_ctx_close E p else
      if IPC_HANDLE_POLL_MSG \<in> ev_event ev then
        mbind (hwkey_chan_handle_msg E call derive p) (\<lambda>rc.
        if rc < 0 then hwkey_ctx_close E p else mret ())
      else mret ()))))"

definition new_key_ctx :: "nat \<Rightarrow> handle \<Rightarrow> uuid \<Rightarrow> hwkey_chan_ctx" where
  "new_key_ctx p chan peer_uuid = \<lparr>key_evt_handler = \<lparr>proc = Some Hwkey_chan_handler, priv = p\<rparr>,
     key_chan = chan, ctx_uuid = peer_uuid\<rparr>"

definition hwkey_port_handler :: "'w env \<Rightarrow> uevent \<Rightarrow> (('w, 'z) hwkey_state_scheme, unit) prog" where
  "hwkey_port_handler E ev =
     mthen (tipc_handle_port_errors ev)
     (if IPC_HANDLE_POLL_READY \<notin> ev_event ev then mret () else
     mbind (sys (k_accept E (ev_handle ev))) (\<lambda>(rc, peer_uuid).
     if rc < 0 then mret () else
     let chan = rc in
     mbind (calloc E) (\<lambda>p.
     if p = 0 then close E chan else
     mthen (mmod (\<lambda>s. s\<lparr>key_ctxs := (key_ctxs s)(p \<mapsto> new_key_ctx p chan peer_uuid)\<rparr>))
     (mbind (sys (k_set_cookie E chan (Hwkey_chan_cookie p))) (\<lambda>rc.
     if rc < 0 then hwkey_ctx_close E p else mret ())))))"

definition hwkey_install_keys ::
  "hwkey_keyslot list option \<Rightarrow> u32 \<Rightarrow> (('w, 'z) hwkey_state_scheme, unit) prog" where
  "hwkey_install_keys keys kcnt =
     mbind (mget (\<lambda>s. (key_slots s, key_slot_cnt s))) (\<lambda>(slots, cnt).
     mthen (massert (slots = None))
     (mthen (massert (cnt = 0))
     (mthen (massert (keys \<noteq> None \<and> kcnt \<noteq> 0))
     (mmod (\<lambda>s. s\<lparr>key_slots := keys, key_slot_cnt := kcnt\<rparr>)))))"

definition hwkey_start_service :: "'w env \<Rightarrow> (('w, 'z) hwkey_state_scheme, int) prog" where
  "hwkey_start_service E =
     mbind (sys (k_port_create E (HWKEY_PORT E) 1 (of_nat (sizeof_hwkey_msg E + HWKEY_MAX_PAYLOAD_SIZE)))) (\<lambda>rc.
     if rc < 0 then mret rc else
     let port = rc in
     mbind (sys (k_set_cookie E port Hwkey_port_cookie)) (\<lambda>rc.
     if rc \<noteq> 0 then mthen (close E port) (mret rc) else mret 0))"

section \<open>Invariant\<close>

text \<open>
  The buffers of the service between two requests: the key buffer holds no key.
\<close>

definition key_bufs :: "('w, 'z) machine_scheme \<Rightarrow> bool" where
  "key_bufs s \<longleftrightarrow> length (mem s Key_data) = HWKEY_MAX_PAYLOAD_SIZE \<and> all_zero (mem s Key_data)
     \<and> length (mem s Req_data) = HWKEY_MAX_PAYLOAD_SIZE + 1 \<and> length (mem s Kdfv1_key) = 32
     \<and> length (mem s Skeymod) = 16 \<and> length (mem s Rpmb_keyblob) = 80
     \<and> mem s Unittest_key32 = unittest_key32"

definition key_ready :: "('w, 'z) caam_state_scheme \<Rightarrow> bool" where
  "key_ready s \<longleftrightarrow> caam_ready s \<and> dma_windows s = [] \<and> key_bufs s"

definition slots_ok :: "hwkey_keyslot list option \<Rightarrow> u32 \<Rightarrow> bool" where
  "slots_ok slots cnt \<longleftrightarrow> (\<forall>sl. slots = Some sl \<longrightarrow> unat cnt \<le> length sl \<and> (\<forall>x \<in> set sl. 0 \<in> set (key_id x)))"

definition key_ctx_ok :: "('w, 'z) hwkey_state_scheme \<Rightarrow> nat \<Rightarrow> hwkey_chan_ctx \<Rightarrow> bool" where
  "key_ctx_ok s p c \<longleftrightarrow> 0 < p \<and> p < heap_next s
     \<and> key_evt_handler c = \<lparr>proc = Some Hwkey_chan_handler, priv = p\<rparr>"

definition hwkey_inv ::
  "('w \<Rightarrow> handle \<Rightarrow> cookie option) \<Rightarrow> ('w, 'z) hwkey_state_scheme \<Rightarrow> bool" where
  "hwkey_inv ck s \<longleftrightarrow> key_ready s \<and> 0 < heap_next s \<and> slots_ok (key_slots s) (key_slot_cnt s)
     \<and> (\<forall>p c. key_ctxs s p = Some c \<longrightarrow> key_ctx_ok s p c)
     \<and> (\<forall>h p. ck (world s) h = Some (Hwkey_chan_cookie p) \<longrightarrow>
          (\<exists>c. key_ctxs s p = Some c \<and> key_chan c = h))"

lemma hwkey_cookieD:
  assumes "hwkey_inv ck s" and "ck (world s) h = Some (Hwkey_chan_cookie p)"
  shows "\<exists>c. key_ctxs s p = Some c \<and> key_chan c = h"
  using assms unfolding hwkey_inv_def by blast

text \<open>What the operations of the service leave alone.\<close>

definition hwkey_frame ::
  "('w \<Rightarrow> handle \<Rightarrow> cookie option) \<Rightarrow> ('w, 'z) hwkey_state_scheme \<Rightarrow> ('w, 'z) hwkey_state_scheme \<Rightarrow> bool" where
  "hwkey_frame ck s s' \<longleftrightarrow> hwrng_port s' = hwrng_port s \<and> rng_ctxs s' = rng_ctxs s
     \<and> hwrng_req_list s' = hwrng_req_list s \<and> hwkey_state.more s' = hwkey_state.more s
     \<and> key_slots s' = key_slots s \<and> key_slot_cnt s' = key_slot_cnt s \<and> rpmb_keyblob_len s' = rpmb_keyblob_len s
     \<and> caam_base s' = caam_base s
     \<and> (caam_ready s \<longrightarrow> caam_ready s') \<and> (\<forall>b. b \<notin> {Key_data, Req_data} \<longrightarrow> mem s' b = mem s b)
     \<and> heap_next s \<le> heap_next s'
     \<and> (\<forall>h c. ck (world s') h = Some c \<longrightarrow>
          ck (world s) h = Some c \<or> (\<exists>p. c = Hwkey_chan_cookie p))"

lemma hwkey_frame_refl [simp]: "hwkey_frame ck s s"
  by (simp add: hwkey_frame_def)

lemma hwkey_frame_trans:
  assumes "hwkey_frame ck s t" and "hwkey_frame ck t u"
  shows "hwkey_frame ck s u"
proof -
  have "\<forall>h c. ck (world u) h = Some c \<longrightarrow> ck (world s) h = Some c \<or> (\<exists>p. c = Hwkey_chan_cookie p)"
    using assms unfolding hwkey_frame_def by blast
  then show ?thesis using assms by (simp add: hwkey_frame_def)
qed

lemma hwkey_more_sel:
  assumes "caam_state.more s' = caam_state.more s"
  shows "key_slots s' = key_slots s" "key_slot_cnt s' = key_slot_cnt s" "key_ctxs s' = key_ctxs s"
    "rpmb_keyblob_len s' = rpmb_keyblob_len s" "hwkey_state.more s' = hwkey_state.more s"
  using assms by (cases s; cases s'; simp)+

section \<open>The service over its key provider\<close>

text \<open>
  What a provider of keys leaves behind when it reports the status \<open>st\<close> and the length
  \<open>klen\<close>: only the key buffer has changed, a failure reports no key, and past the
  reported length the buffer is as clean as it was.
\<close>

definition key_post ::
  "('w \<Rightarrow> handle \<Rightarrow> cookie option) \<Rightarrow> 'w env \<Rightarrow> ('w, 'z) caam_state_scheme \<Rightarrow> u32 \<times> u32 \<Rightarrow>
   ('w, 'z) caam_state_scheme \<Rightarrow> bool" where
  "key_post ck E s r s' \<longleftrightarrow> drv_frame s s' \<and> dma_windows s' = [] \<and> ck (world s') = ck (world s)
     \<and> (\<forall>b. b \<noteq> Key_data \<longrightarrow> mem s' b = mem s b) \<and> length (mem s' Key_data) = length (mem s Key_data)
     \<and> unat (snd r) \<le> HWKEY_MAX_PAYLOAD_SIZE \<and> (fst r \<noteq> HWKEY_NO_ERROR E \<longrightarrow> snd r = 0)
     \<and> all_zero (drop (unat (snd r)) (mem s' Key_data))"

lemma key_post_refl: "key_ready s \<Longrightarrow> key_post ck E s (st, 0) s"
  by (simp add: key_post_def key_ready_def key_bufs_def)

lemma key_post_ready: "key_ready s \<Longrightarrow> key_post ck E s (st, 0) s' \<Longrightarrow> key_ready s'"
  by (auto simp: key_post_def key_ready_def key_bufs_def drv_frame_def)

lemma key_post_trans: "key_post ck E s r t \<Longrightarrow> key_post ck E t r' u \<Longrightarrow> key_post ck E s r' u"
  by (auto simp: key_post_def intro: drv_frame_trans)

lemma not_found_err: "env_ok ck E \<Longrightarrow> HWKEY_ERR_NOT_FOUND E \<noteq> HWKEY_NO_ERROR E"
  by (auto simp: env_ok_def err_ok_def)

text \<open>The reply has been sent and the key wiped.\<close>

definition reply_post ::
  "('w \<Rightarrow> handle \<Rightarrow> cookie option) \<Rightarrow> ('w, 'z) hwkey_state_scheme \<Rightarrow> ('w, 'z) hwkey_state_scheme \<Rightarrow> bool" where
  "reply_post ck s s' \<longleftrightarrow> hwkey_inv ck s' \<and> hwkey_frame ck s s' \<and> key_ctxs s' = key_ctxs s
     \<and> mem s' Req_data = mem s Req_data"

lemma reply_wiped:
  assumes inv: "hwkey_inv ck s" and post: "key_post ck E s (st, klen) t" and ck: "ck w = ck (world t)"
  shows "reply_post ck s ((put_mem (Key_data, 0) (replicate (unat klen) 0) t)\<lparr>world := w\<rparr>)"
proof -
  have f: "caam_state.more t = caam_state.more s" "heap_next t = heap_next s" "caam_ready t"
    "caam_base t = caam_base s"
    and m: "unat klen \<le> length (mem t Key_data)" "all_zero (drop (unat klen) (mem t Key_data))"
    using post inv by (auto simp: key_post_def drv_frame_def hwkey_inv_def key_ready_def key_bufs_def)
  note sel = hwkey_more_sel [OF f(1)] hwrng_more_sel [OF f(1)]
  let ?u = "(put_mem (Key_data, 0) (replicate (unat klen) 0) t)\<lparr>world := w\<rparr>"
  have u: "key_slots ?u = key_slots t" "key_slot_cnt ?u = key_slot_cnt t" "key_ctxs ?u = key_ctxs t"
    "rpmb_keyblob_len ?u = rpmb_keyblob_len t" "hwkey_state.more ?u = hwkey_state.more t"
    "hwrng_port ?u = hwrng_port t" "rng_ctxs ?u = rng_ctxs t" "hwrng_req_list ?u = hwrng_req_list t"
    by (simp_all add: put_mem_def)
  have ck': "ck w = ck (world s)" using ck post by (simp add: key_post_def)
  have bufs: "key_bufs ?u"
    using post inv all_zero_overwrite_zeros [OF m] m(1)
    by (auto simp: key_post_def key_bufs_def key_ready_def hwkey_inv_def)
  then have "hwkey_inv ck ?u"
    using inv post f unfolding hwkey_inv_def u sel key_ctx_ok_def
    by (auto simp: key_ready_def ck' key_post_def)
  moreover have "hwkey_frame ck s ?u"
    using post f unfolding hwkey_frame_def u sel by (auto simp: ck' key_post_def)
  ultimately show ?thesis
    using post unfolding reply_post_def u sel by (simp add: key_post_def)
qed

text \<open>Writing the request buffer keeps the service as it is.\<close>

lemma req_written:
  assumes inv: "hwkey_inv ck s" and len: "off + length bs \<le> HWKEY_MAX_PAYLOAD_SIZE + 1" and ck: "ck w = ck (world s)"
  shows "hwkey_inv ck ((put_mem (Req_data, off) bs s)\<lparr>world := w\<rparr>)"
    and "hwkey_frame ck s ((put_mem (Req_data, off) bs s)\<lparr>world := w\<rparr>)"
    and "key_ctxs ((put_mem (Req_data, off) bs s)\<lparr>world := w\<rparr>) = key_ctxs s"
proof -
  let ?u = "(put_mem (Req_data, off) bs s)\<lparr>world := w\<rparr>"
  have u: "key_slots ?u = key_slots s" "key_slot_cnt ?u = key_slot_cnt s" "key_ctxs ?u = key_ctxs s"
    "rpmb_keyblob_len ?u = rpmb_keyblob_len s" "hwkey_state.more ?u = hwkey_state.more s"
    "hwrng_port ?u = hwrng_port s" "rng_ctxs ?u = rng_ctxs s" "hwrng_req_list ?u = hwrng_req_list s"
    by (simp_all add: put_mem_def)
  show "hwkey_inv ck ?u"
    using inv len unfolding hwkey_inv_def u key_ctx_ok_def
    by (simp add: key_ready_def key_bufs_def ck)
  show "hwkey_frame ck s ?u" unfolding hwkey_frame_def u by (simp add: ck)
  show "key_ctxs ?u = key_ctxs s" by (rule u)
qed

lemma req_written':
  assumes "hwkey_inv ck s" and "off + length bs \<le> HWKEY_MAX_PAYLOAD_SIZE + 1"
  shows "hwkey_inv ck (put_mem (Req_data, off) bs s)" "hwkey_frame ck s (put_mem (Req_data, off) bs s)"
    "key_ctxs (put_mem (Req_data, off) bs s) = key_ctxs s"
  using req_written [OF assms refl] by (simp_all add: put_mem_def)

text \<open>Sending a reply from the key buffer and wiping it, the end both commands share.\<close>

lemma wp_reply:
  assumes env: "env_ok ck E" and inv: "hwkey_inv ck s" and post: "key_post ck E s (st, klen) t"
    and Q: "\<And>rc s'. reply_post ck s s' \<Longrightarrow> Q rc s'"
  shows "wp (mbind (hwkey_send_rsp E ctx hdr (Key_data, 0) klen) (\<lambda>rc.
     mthen (if klen \<noteq> 0 then memset (Key_data, 0) 0 (unat klen) else mret ()) (mret rc))) Q t"
proof -
  have obj: "in_obj t (Key_data, 0) (unat klen)"
    using post inv by (simp add: in_obj_def key_post_def hwkey_inv_def key_ready_def key_bufs_def)
  have "Q rc ((put_mem (Key_data, 0) (replicate (unat klen) 0) t)\<lparr>world := w\<rparr>)"
    if "ck w = ck (world t)" for rc w
    by (rule Q [OF reply_wiped [OF inv post that]])
  moreover from this [where w = w for w] have "Q rc (t\<lparr>world := w\<rparr>)" if "ck w = ck (world t)" "klen = 0" for rc w
    using that by (simp add: put_mem_def)
  ultimately show ?thesis
    unfolding wp_basic(2) hwkey_send_rsp_def
    by (intro wp_send_two [OF obj]) (auto simp: obj dest!: cookies_okD(5) [OF env_okD(6) [OF env]])
qed

text \<open>Closing a context ends its channel, and with it the cookie that names the context.\<close>

lemma wp_hwkey_ctx_close:
  assumes env: "env_ok ck E" and inv: "hwkey_inv ck s" and p: "key_ctxs s p = Some c"
    and Q: "\<And>s'. hwkey_inv ck s' \<Longrightarrow> hwkey_frame ck s s' \<Longrightarrow> key_ctxs s' = (key_ctxs s)(p := None) \<Longrightarrow> Q () s'"
  shows "wp (hwkey_ctx_close E p) Q s"
proof -
  let ?s = "s\<lparr>world := k_close E (key_chan c) (world s), key_ctxs := (key_ctxs s)(p := None)\<rparr>"
  have ck: "ck (k_close E (key_chan c) w) = (ck w)(key_chan c := None)" for w
    by (rule cookies_okD(2) [OF env_okD(6) [OF env]])
  have cks: "\<exists>d. ((key_ctxs s)(p := None)) q = Some d \<and> key_chan d = h"
    if "((ck (world s))(key_chan c := None)) h = Some (Hwkey_chan_cookie q)" for h q
    using hwkey_cookieD [OF inv, of h q] that p by (auto split: if_splits)
  have "hwkey_inv ck ?s"
    using inv cks unfolding hwkey_inv_def
    by (auto simp: key_ctx_ok_def key_ready_def key_bufs_def ck caam_ready_def split: if_splits)
  moreover have "hwkey_frame ck s ?s"
    by (auto simp: hwkey_frame_def ck caam_ready_def split: if_splits)
  ultimately have "Q () ?s" by (intro Q) simp_all
  then show ?thesis by (simp add: hwkey_ctx_close_def p)
qed

locale key_provider =
  fixes ck :: "'w \<Rightarrow> handle \<Rightarrow> cookie option"
    and call :: "'w env \<Rightarrow> ('w, 'z) key_call"
    and derive :: "'w env \<Rightarrow> ('w, 'z) key_derive"
  assumes call_key: "env_ok ck E \<Longrightarrow> key_ready s \<Longrightarrow> (\<And>r s'. key_post ck E s r s' \<Longrightarrow> Q r s') \<Longrightarrow>
      wp (call E h slot (Key_data, 0) sizeof_key_data 0) Q s"
    and derive_key: "env_ok ck E \<Longrightarrow> key_ready s \<Longrightarrow> unat n \<le> HWKEY_MAX_PAYLOAD_SIZE \<Longrightarrow>
      (\<And>r s'. key_post ck E s r s' \<Longrightarrow> Q r s') \<Longrightarrow>
      wp (derive E uuid (Req_data, 0) n (Key_data, 0) sizeof_key_data) Q s"
begin

lemma wp_handle_slots_loop:
  assumes env: "env_ok ck E" and rdy: "key_ready s"
    and id: "0 \<in> set (mem s Req_data)" and sl: "\<forall>x \<in> set slots. 0 \<in> set (key_id x)"
    and Q: "\<And>r s'. key_post ck E s r s' \<Longrightarrow> Q r s'"
  shows "i + n \<le> length slots \<Longrightarrow>
    wp (handle_slots_loop E (call E) ctx (Req_data, 0) slots i n (Key_data, 0) sizeof_key_data 0) Q s"
proof (induction n arbitrary: i)
  case 0
  with rdy show ?case by (simp add: Q key_post_refl)
next
  case (Suc n)
  then have "0 \<in> set (key_id (slots ! i))" using sl by simp
  with Suc id show ?case
    by (auto simp: strcmp_eq_cstr split: option.splits intro!: call_key [OF env rdy] Q)
qed

lemma wp_handle_slots:
  assumes "env_ok ck E" and "key_ready s" and "0 \<in> set (mem s Req_data)" and "slots_ok slots cnt"
    and Q: "\<And>r s'. key_post ck E s r s' \<Longrightarrow> Q r s'"
  shows "wp (handle_slots E (call E) ctx (Req_data, 0) slots cnt (Key_data, 0) sizeof_key_data 0) Q s"
proof (cases slots)
  case None
  with assms(2) show ?thesis by (simp add: handle_slots_def Q key_post_refl)
next
  case (Some sl)
  with assms show ?thesis
    by (auto simp: handle_slots_def slots_ok_def intro!: wp_handle_slots_loop)
qed


lemma wp_hwkey_handle_get_keyslot_cmd:
  assumes env: "env_ok ck E" and inv: "hwkey_inv ck s" and id: "0 \<in> set (mem s Req_data)"
    and Q: "\<And>rc s'. reply_post ck s s' \<Longrightarrow> Q rc s'"
  shows "wp (hwkey_handle_get_keyslot_cmd E (call E) ctx hdr (Req_data, 0)) Q s"
proof -
  have rdy: "key_ready s" and sl: "slots_ok (key_slots s) (key_slot_cnt s)"
    using inv by (simp_all add: hwkey_inv_def)
  have tst: "slots_ok (Some (test_key_slots E)) (of_nat (length (test_key_slots E)))"
    by (simp add: slots_ok_def test_key_slots_def clit_def)
  let ?tail = "\<lambda>(st, klen). mbind (hwkey_send_rsp E ctx (hdr\<lparr>status := st\<rparr>) (Key_data, 0) klen) (\<lambda>rc.
     mthen (if klen \<noteq> 0 then memset (Key_data, 0) 0 (unat klen) else mret ()) (mret rc))"
  have tail: "wp (?tail r) Q t" if "key_post ck E s r t" for r t
    using that by (cases r) (simp add: wp_reply [OF env inv _ Q] del: wp_basic)
  have again: "wp (handle_slots E (call E) ctx (Req_data, 0) (Some (test_key_slots E))
      (of_nat (length (test_key_slots E))) (Key_data, 0) sizeof_key_data klen) (\<lambda>r. wp (?tail r) Q) t"
    if t: "key_post ck E s (HWKEY_ERR_NOT_FOUND E, klen) t" for klen t
  proof -
    have k: "klen = 0" using t not_found_err [OF env] by (simp add: key_post_def)
    have "key_ready t" "0 \<in> set (mem t Req_data)"
      using t id key_post_ready [OF rdy t [unfolded k]] by (simp_all add: key_post_def)
    then show ?thesis unfolding k
      by (intro wp_handle_slots [OF env] tst tail) (auto intro: key_post_trans [OF t])
  qed
  show ?thesis
    unfolding hwkey_handle_get_keyslot_cmd_def wp_basic(2,5) prod.case
    apply (rule wp_handle_slots [OF env rdy id sl])
    subgoal for r t
      using tail [of r t] again [of "snd r" t] by (cases r) (simp only: prod.case wp_basic(2) wp_if snd_conv, auto)
    done
qed

lemma wp_hwkey_handle_derive_key_cmd:
  assumes env: "env_ok ck E" and inv: "hwkey_inv ck s" and n: "unat n \<le> HWKEY_MAX_PAYLOAD_SIZE"
    and Q: "\<And>rc s'. reply_post ck s s' \<Longrightarrow> Q rc s'"
  shows "wp (hwkey_handle_derive_key_cmd E (derive E) ctx hdr (Req_data, 0) n) Q s"
proof -
  have rdy: "key_ready s" using inv by (simp add: hwkey_inv_def)
  let ?tail = "\<lambda>hdr. \<lambda>(st, klen). mbind (hwkey_send_rsp E ctx (hdr\<lparr>status := st\<rparr>) (Key_data, 0) klen) (\<lambda>rc.
     mthen (if klen \<noteq> 0 then memset (Key_data, 0) 0 (unat klen) else mret ()) (mret rc))"
  have tail: "wp (?tail hdr r) Q t" if "key_post ck E s r t" for hdr r t
    using that by (cases r) (simp add: wp_reply [OF env inv _ Q] del: wp_basic)
  show ?thesis
    unfolding hwkey_handle_derive_key_cmd_def Let_def
    by (subst wp_basic(2), unfold wp_if, rule if_split [THEN iffD2], intro conjI impI)
       (rule derive_key [OF env rdy n], erule tail, subst wp_basic(1), rule tail, rule key_post_refl [OF rdy])
qed

text \<open>The three branches of the switch over the command.\<close>

lemma wp_get_keyslot_branch:
  assumes env: "env_ok ck E" and inv: "hwkey_inv ck s" and len: "unat len \<le> HWKEY_MAX_PAYLOAD_SIZE"
    and Q: "\<And>rc s'. hwkey_inv ck s' \<Longrightarrow> hwkey_frame ck s s' \<Longrightarrow> key_ctxs s' = key_ctxs s \<Longrightarrow> Q rc s'"
  shows "wp (mthen (mwrite (Req_data, unat len) [0])
    (hwkey_handle_get_keyslot_cmd E (call E) c hdr (Req_data, 0))) Q s"
proof -
  let ?u = "put_mem (Req_data, unat len) [0] s"
  have obj: "in_obj s (Req_data, unat len) 1"
    using inv len by (simp add: in_obj_def hwkey_inv_def key_ready_def key_bufs_def)
  have u: "hwkey_inv ck ?u" "hwkey_frame ck s ?u" "key_ctxs ?u = key_ctxs s" "0 \<in> set (mem ?u Req_data)"
    using req_written' [OF inv, of "unat len" "[0]"] len by (simp_all add: overwrite_def)
  have "wp (hwkey_handle_get_keyslot_cmd E (call E) c hdr (Req_data, 0)) Q ?u"
    by (rule wp_hwkey_handle_get_keyslot_cmd [OF env u(1,4)])
       (auto simp: reply_post_def u(3) intro!: Q intro: hwkey_frame_trans [OF u(2)])
  with obj show ?thesis by simp
qed

lemma wp_derive_branch:
  assumes env: "env_ok ck E" and inv: "hwkey_inv ck s" and len: "unat len \<le> HWKEY_MAX_PAYLOAD_SIZE"
    and Q: "\<And>rc s'. hwkey_inv ck s' \<Longrightarrow> hwkey_frame ck s s' \<Longrightarrow> key_ctxs s' = key_ctxs s \<Longrightarrow> Q rc s'"
  shows "wp (mbind (hwkey_handle_derive_key_cmd E (derive E) c hdr (Req_data, 0) len) (\<lambda>rc.
       mthen (memset (Req_data, 0) 0 (unat len)) (mret rc))) Q s"
proof (subst wp_basic, rule wp_hwkey_handle_derive_key_cmd [OF env inv len])
  fix rc u assume "reply_post ck s u"
  then have u: "hwkey_inv ck u" "hwkey_frame ck s u" "key_ctxs u = key_ctxs s"
    by (simp_all add: reply_post_def)
  have "Q rc (put_mem (Req_data, 0) (replicate (unat len) 0) u)"
    using req_written' [OF u(1), of 0 "replicate (unat len) 0"] len u
    by (intro Q) (auto intro: hwkey_frame_trans)
  then show "wp (mthen (memset (Req_data, 0) 0 (unat len)) (mret rc)) Q u"
    using u(1) len by (simp add: in_obj_def hwkey_inv_def key_ready_def key_bufs_def)
qed

lemma wp_unsupported_branch:
  assumes env: "env_ok ck E" and inv: "hwkey_inv ck s"
    and Q: "\<And>rc s'. hwkey_inv ck s' \<Longrightarrow> hwkey_frame ck s s' \<Longrightarrow> key_ctxs s' = key_ctxs s \<Longrightarrow> Q rc s'"
  shows "wp (hwkey_send_rsp E c h (Null, 0) 0) Q s"
proof -
  have "Q rc (s\<lparr>world := w\<rparr>)" if "ck w = ck (world s)" for rc w
    using req_written [OF inv _ that, of 0 "[]"] by (intro Q) (simp_all add: put_mem_def)
  then show ?thesis
    unfolding hwkey_send_rsp_def
    by (intro wp_send_two) (auto simp: in_obj_def dest!: cookies_okD(5) [OF env_okD(6) [OF env]])
qed

text \<open>The switch, once a payload of at most 2048 bytes is in the request buffer.\<close>

lemma wp_request_switch:
  assumes env: "env_ok ck E" and inv: "hwkey_inv ck t" and bs: "length bs \<le> HWKEY_MAX_PAYLOAD_SIZE"
    and len: "len = of_int (int (hs + length bs)) - of_nat hs"
    and Q: "\<And>rc s'. hwkey_inv ck s' \<Longrightarrow> hwkey_frame ck t s' \<Longrightarrow> key_ctxs s' = key_ctxs t \<Longrightarrow> Q rc s'"
  shows "wp (if cmd hdr = HWKEY_GET_KEYSLOT E then
       mthen (mwrite (Req_data, unat len) [0]) (hwkey_handle_get_keyslot_cmd E (call E) c hdr (Req_data, 0))
     else if cmd hdr = HWKEY_DERIVE E then
       mbind (hwkey_handle_derive_key_cmd E (derive E) c hdr (Req_data, 0) len) (\<lambda>rc.
       mthen (memset (Req_data, 0) 0 (unat len)) (mret rc))
     else hwkey_send_rsp E c (hdr\<lparr>status := HWKEY_ERR_NOT_IMPLEMENTED E\<rparr>) (Null, 0) 0) Q t"
proof -
  have "unat len \<le> HWKEY_MAX_PAYLOAD_SIZE"
    using bs by (simp add: len HWKEY_MAX_PAYLOAD_SIZE_def unat_of_nat)
  then show ?thesis
    by (auto simp del: wp_basic intro!: wp_get_keyslot_branch [OF env inv] wp_derive_branch [OF env inv]
        wp_unsupported_branch [OF env inv] Q)
qed

lemma wp_recv_request:
  assumes env: "env_ok ck E" and inv: "hwkey_inv ck s"
    and fail: "\<And>rc hdr t. rc < 0 \<Longrightarrow> hwkey_inv ck t \<Longrightarrow> hwkey_frame ck s t \<Longrightarrow> key_ctxs t = key_ctxs s \<Longrightarrow> Q (rc, hdr) t"
    and good: "\<And>(bs :: byte list) hdr t. length bs \<le> HWKEY_MAX_PAYLOAD_SIZE \<Longrightarrow> hwkey_inv ck t \<Longrightarrow> hwkey_frame ck s t \<Longrightarrow>
      key_ctxs t = key_ctxs s \<Longrightarrow> Q (int (sizeof_hwkey_msg E + length bs), hdr) t"
  shows "wp (tipc_recv_two_segments E h (sizeof_hwkey_msg E) (Req_data, 0) HWKEY_MAX_PAYLOAD_SIZE) Q s"
proof -
  note e = env_okD [OF env]
  let ?hs = "sizeof_hwkey_msg E" and ?n = "HWKEY_MAX_PAYLOAD_SIZE"
  let ?P = "\<lambda>(rc :: int, hdr :: byte list) t. (rc < 0 \<and> (\<exists>w. t = s\<lparr>world := w\<rparr>)) \<or>
    (\<exists>bs w. length bs \<le> ?n \<and> rc = int (?hs + length bs) \<and> t = (put_mem (Req_data, 0) bs s)\<lparr>world := w\<rparr>)"
  have obj: "in_obj s (Req_data, 0) ?n"
    using inv by (simp add: in_obj_def hwkey_inv_def key_ready_def key_bufs_def)
  have "wp (tipc_recv_two_segments E h ?hs (Req_data, 0) ?n) ?P s"
    by (rule wp_recv_two [OF e(2,3) obj]) auto
  then show ?thesis
  proof (rule wp_keeps [OF _ keeps_tipc(4) [OF e(6)]])
    fix r t assume r: "?P r t" and ck: "ck (world t) = ck (world s)"
    obtain rc hdr where rr: "r = (rc, hdr)" by (cases r)
    from r [unfolded rr] consider w where "rc < 0" "t = s\<lparr>world := w\<rparr>"
      | bs w where "length bs \<le> ?n" "rc = int (?hs + length bs)" "t = (put_mem (Req_data, 0) bs s)\<lparr>world := w\<rparr>"
      by auto
    then show "Q r t"
    proof cases
      case 1
      then show ?thesis
        using ck req_written [OF inv, of 0 "[]" w] by (simp add: rr put_mem_def fail)
    next
      case 2
      then show ?thesis
        using ck unfolding rr 2(2) by (intro good req_written [OF inv, of 0 bs w, folded 2(3)]) auto
    qed
  qed
qed

lemma wp_hwkey_chan_handle_msg:
  assumes env: "env_ok ck E" and inv: "hwkey_inv ck s" and p: "key_ctxs s p = Some c"
    and Q: "\<And>rc s'. hwkey_inv ck s' \<Longrightarrow> hwkey_frame ck s s' \<Longrightarrow> key_ctxs s' = key_ctxs s \<Longrightarrow> Q rc s'"
  shows "wp (hwkey_chan_handle_msg E (call E) (derive E) p) Q s"
proof -
  let ?hs = "sizeof_hwkey_msg E" and ?n = "HWKEY_MAX_PAYLOAD_SIZE"
  let ?body = "\<lambda>(rc :: int, bytes). if rc < 0 then mret rc else
     let len = of_int rc - of_nat ?hs :: u32; hdr = hwkey_msg_of E bytes in
     if cmd hdr = HWKEY_GET_KEYSLOT E then
       mthen (mwrite (Req_data, unat len) [0]) (hwkey_handle_get_keyslot_cmd E (call E) c hdr (Req_data, 0))
     else if cmd hdr = HWKEY_DERIVE E then
       mbind (hwkey_handle_derive_key_cmd E (derive E) c hdr (Req_data, 0) len) (\<lambda>rc.
       mthen (memset (Req_data, 0) 0 (unat len)) (mret rc))
     else hwkey_send_rsp E c (hdr\<lparr>status := HWKEY_ERR_NOT_IMPLEMENTED E\<rparr>) (Null, 0) 0"
  have good: "wp (?body (int (?hs + length bs), hdr)) Q t"
    if bs: "length bs \<le> ?n" and t: "hwkey_inv ck t" "hwkey_frame ck s t" "key_ctxs t = key_ctxs s"
    for bs :: "byte list" and hdr t
    using wp_request_switch [OF env t(1) bs refl Q [OF _ hwkey_frame_trans [OF t(2)]]] t(3)
    by (simp del: wp_basic wp_if of_int_of_nat_eq of_nat_add add: Let_def)
  have "wp (tipc_recv_two_segments E (key_chan c) ?hs (Req_data, 0) ?n) (\<lambda>r. wp (?body r) Q) s"
    by (rule wp_recv_request [OF env inv]) (simp add: Q, rule good)
  then show ?thesis
    unfolding hwkey_chan_handle_msg_def wp_basic(2) wp_mderef
    by (intro exI [of _ c] conjI p)
qed

lemma wp_hwkey_chan_handler:
  assumes env: "env_ok ck E" and inv: "hwkey_inv ck s" and p: "key_ctxs s p = Some c"
    and Q: "\<And>s'. hwkey_inv ck s' \<Longrightarrow> hwkey_frame ck s s' \<Longrightarrow> Q () s'"
  shows "wp (hwkey_chan_handler E (call E) (derive E) ev p) Q s"
proof -
  have cl: "wp (hwkey_ctx_close E p) Q t"
    if "hwkey_inv ck t" "hwkey_frame ck s t" "key_ctxs t = key_ctxs s" for t
    using that p by (intro wp_hwkey_ctx_close [OF env that(1)] Q) (auto intro: hwkey_frame_trans)
  have msg: "wp (hwkey_chan_handle_msg E (call E) (derive E) p)
      (\<lambda>rc t. (rc < 0 \<longrightarrow> wp (hwkey_ctx_close E p) Q t) \<and> (\<not> rc < 0 \<longrightarrow> Q () t)) s"
    by (rule wp_hwkey_chan_handle_msg [OF env inv p]) (auto intro: cl Q)
  show ?thesis
    using msg cl [OF inv] Q [OF inv] by (simp add: hwkey_chan_handler_def p wp_chan_errors)
qed

end

section \<open>Connections\<close>

lemma hwkey_world:
  assumes "hwkey_inv ck s" and "\<And>h c. ck w h = Some c \<Longrightarrow> ck (world s) h = Some c"
  shows "hwkey_inv ck (s\<lparr>world := w\<rparr>)" "hwkey_frame ck s (s\<lparr>world := w\<rparr>)"
  using assms(1) hwkey_cookieD [OF assms(1) assms(2)] assms(2)
  by (simp_all add: hwkey_inv_def hwkey_frame_def key_ctx_ok_def key_ready_def key_bufs_def)

lemma hwkey_fresh: "hwkey_inv ck s \<Longrightarrow> key_ctxs s (heap_next s) = None"
  by (cases "key_ctxs s (heap_next s)") (auto simp: hwkey_inv_def key_ctx_ok_def)

lemma hwkey_new:
  assumes inv: "hwkey_inv ck s"
    and ck: "ck w = ck (world s) \<or> ck w = (ck (world s))(chan := Some (Hwkey_chan_cookie (heap_next s)))"
  shows "hwkey_inv ck (s\<lparr>heap_next := Suc (heap_next s),
      key_ctxs := (key_ctxs s)(heap_next s \<mapsto> new_key_ctx (heap_next s) chan u), world := w\<rparr>)" (is "hwkey_inv ck ?t")
    and "hwkey_frame ck s (s\<lparr>heap_next := Suc (heap_next s),
      key_ctxs := (key_ctxs s)(heap_next s \<mapsto> new_key_ctx (heap_next s) chan u), world := w\<rparr>)"
proof -
  have "\<exists>d. key_ctxs ?t q = Some d \<and> key_chan d = h" if "ck w h = Some (Hwkey_chan_cookie q)" for h q
    using hwkey_cookieD [OF inv, of h q] hwkey_fresh [OF inv] that ck
    by (auto simp: new_key_ctx_def split: if_splits)
  then show "hwkey_inv ck ?t"
    using inv by (auto simp: hwkey_inv_def key_ctx_ok_def new_key_ctx_def key_ready_def key_bufs_def
        caam_ready_def less_Suc_eq)
  show "hwkey_frame ck s ?t"
    using ck by (auto simp: hwkey_frame_def caam_ready_def split: if_splits)
qed

lemma wp_hwkey_port_handler:
  assumes env: "env_ok ck E" and inv: "hwkey_inv ck s"
    and Q: "\<And>s'. hwkey_inv ck s' \<Longrightarrow> hwkey_frame ck s s' \<Longrightarrow> Q () s'"
  shows "wp (hwkey_port_handler E ev) Q s"
proof -
  note e = env_okD [OF env] and cks = cookies_okD [OF env_okD(6) [OF env]]
  have keep: "Q () (s\<lparr>world := w\<rparr>)" if "\<And>h c. ck w h = Some c \<Longrightarrow> ck (world s) h = Some c" for w
    by (rule Q [OF hwkey_world [OF inv that]])
  have new: "Q () (s\<lparr>heap_next := Suc (heap_next s),
      key_ctxs := (key_ctxs s)(heap_next s \<mapsto> new_key_ctx (heap_next s) chan u), world := w\<rparr>)"
    if "ck w = ck (world s) \<or> ck w = (ck (world s))(chan := Some (Hwkey_chan_cookie (heap_next s)))" for w chan u
    by (rule Q [OF hwkey_new [OF inv that]])
  have undo: "wp (hwkey_ctx_close E (heap_next s)) Q (s\<lparr>heap_next := Suc (heap_next s),
      key_ctxs := (key_ctxs s)(heap_next s \<mapsto> new_key_ctx (heap_next s) chan u), world := w\<rparr>)"
    if "ck w = ck (world s)" for w chan u
    using hwkey_new [OF inv disjI1 [OF that], of chan u]
    by (intro wp_hwkey_ctx_close [OF env] Q) (auto elim: hwkey_frame_trans)
  have "Q () s" "0 < heap_next s" using inv Q by (simp_all add: hwkey_inv_def)
  then show ?thesis
    by (auto simp: hwkey_port_handler_def wp_port_errors Let_def cks(2)
        intro!: wp_sysI wp_calloc_obs [OF e(5)] keep undo new dest!: cks(1) cks(4) split: if_splits)
qed

lemma wp_hwkey_start_service:
  assumes env: "env_ok ck E" and inv: "hwkey_inv ck s"
    and Q: "\<And>rc w. (\<And>h c. ck w h = Some c \<Longrightarrow> ck (world s) h = Some c \<or> c = Hwkey_port_cookie) \<Longrightarrow>
      Q rc (s\<lparr>world := w\<rparr>)"
  shows "wp (hwkey_start_service E) Q s"
proof -
  note cks = cookies_okD [OF env_okD(6) [OF env]]
  show ?thesis
    by (auto simp: hwkey_start_service_def Let_def cks(2) intro!: wp_sysI Q dest!: cks(1,3) split: if_splits)
qed

section \<open>The two services do not disturb each other\<close>

lemma hwkey_frame_hwrng_inv:
  assumes "hwkey_frame ck s s'" and "hwkey_inv ck s'" and inv: "hwrng_inv ck s"
  shows "hwrng_inv ck s'"
proof -
  have "\<exists>c. rng_ctxs s p = Some c \<and> rng_chan c = h" if "ck (world s') h = Some (Hwrng_chan_cookie p)" for h p
    using hwrng_cookieD [OF inv] assms(1) that unfolding hwkey_frame_def by blast
  moreover have "\<forall>p c. rng_ctxs s p = Some c \<longrightarrow> rng_ctx_ok s' p c"
    using inv assms(1) by (fastforce simp: hwrng_inv_def rng_ctx_ok_def hwkey_frame_def)
  ultimately show ?thesis
    using assms by (auto simp: hwrng_inv_def hwkey_frame_def hwkey_inv_def key_ready_def)
qed

lemma hwrng_frame_hwkey_inv:
  assumes f: "hwrng_frame ck s s'" and "hwrng_inv ck s'" and inv: "hwkey_inv ck s"
  shows "hwkey_inv ck s'"
proof -
  have more: "hwrng_state.more s' = hwrng_state.more s" using f by (simp add: hwrng_frame_def)
  have sel: "key_slots s' = key_slots s" "key_slot_cnt s' = key_slot_cnt s" "key_ctxs s' = key_ctxs s"
    using more by (cases s; cases s'; simp)+
  have "\<exists>c. key_ctxs s p = Some c \<and> key_chan c = h" if "ck (world s') h = Some (Hwkey_chan_cookie p)" for h p
    using hwkey_cookieD [OF inv] f that unfolding hwrng_frame_def by blast
  moreover have "\<forall>p c. key_ctxs s p = Some c \<longrightarrow> key_ctx_ok s' p c"
    using inv f by (fastforce simp: hwkey_inv_def key_ctx_ok_def hwrng_frame_def)
  moreover have "key_ready s'" using assms by (simp add: hwrng_frame_def hwrng_inv_def hwkey_inv_def key_ready_def key_bufs_def)
  ultimately show ?thesis
    using assms unfolding hwkey_inv_def sel by (auto simp: hwrng_inv_def)
qed

end
