(* ===== verification/Hwkey_Provider.thy ===== *)
theory Hwkey_Provider
  imports Hwkey_Srv
begin

text \<open>
  The provider of the key service (hwkey_srv_provider.c with hwkey_keyslots.h): key
  derivation with HKDF, the RPMB authentication key unsealed by the CAAM, and the key box
  the boot loader leaves in the secure RAM.
\<close>

section \<open>Keys\<close>

definition skeymod :: "byte list" where
  "skeymod = [0x0f, 0x0e, 0x0d, 0x0c, 0x0b, 0x0a, 0x09, 0x08,
     0x07, 0x06, 0x05, 0x04, 0x03, 0x02, 0x01, 0x00]"

definition derive_key_v1 :: "'w env \<Rightarrow> ('w, 'z) key_derive" where
  "derive_key_v1 E uuid ikm_data ikm_len key_buf key_len =
     (if ikm_len = 0 then mret (HWKEY_ERR_BAD_LEN E, 0) else
     mbind (mread (Kdfv1_key, 0) 32) (\<lambda>secret.
     mbind (mread ikm_data (unat ikm_len)) (\<lambda>info.
     let (ok, out) = HKDF E (unat ikm_len) secret uuid info in
     mthen (mwrite key_buf (map out [0..<unat ikm_len]))
     (if \<not> ok then
        mthen (memset key_buf 0 (unat ikm_len))
        (mret (HWKEY_ERR_GENERIC E, 0))
      else mret (HWKEY_NO_ERROR E, ikm_len)))))"

definition RPMB_SS_AUTH_KEY_SIZE :: u32 where "RPMB_SS_AUTH_KEY_SIZE = 32"
definition RPMBKEY_LEN :: u32 where "RPMBKEY_LEN = 32 + CAAM_KB_HEADER_LEN"
definition PUBKEY_LEN :: u32 where "PUBKEY_LEN = 1032 + CAAM_KB_HEADER_LEN"

definition RPMB_SS_AUTH_KEY_ID :: string where
  "RPMB_SS_AUTH_KEY_ID = ''com.android.trusty.storage_auth.rpmb''"

definition get_rpmb_ss_auth_key ::
  "'w env \<Rightarrow> hwkey_keyslot \<Rightarrow> cptr \<Rightarrow> u32 \<Rightarrow> u32 \<Rightarrow> (('w, 'z) hwkey_state_scheme, u32 \<times> u32) prog" where
  "get_rpmb_ss_auth_key E slot kbuf kbuf_len klen =
     mthen (massert (kbuf_len \<ge> RPMB_SS_AUTH_KEY_SIZE))
     (mbind (mget rpmb_keyblob_len) (\<lambda>len.
     if len \<noteq> RPMBKEY_LEN then mret (HWKEY_ERR_NOT_FOUND E, klen) else
     mbind (caam_decap_blob E (Skeymod, 0) 16 kbuf (Rpmb_keyblob, 0) RPMB_SS_AUTH_KEY_SIZE) (\<lambda>res.
     if res = CAAM_SUCCESS then mret (HWKEY_NO_ERROR E, RPMB_SS_AUTH_KEY_SIZE)
     else mthen (memset kbuf 0 (unat RPMB_SS_AUTH_KEY_SIZE))
          (mret (HWKEY_ERR_GENERIC E, klen)))))"

definition keys :: "'w env \<Rightarrow> hwkey_keyslot list" where
  "keys E = [\<lparr>key_id = clit RPMB_SS_AUTH_KEY_ID, slot_uuid = SECURE_STORAGE_SERVER_APP_UUID E,
     slot_handler = Some Get_rpmb_ss_auth_key\<rparr>]"

text \<open>The call through the function pointer of a slot.\<close>

fun call_handler :: "'w env \<Rightarrow> ('w, 'z) key_call" where
  "call_handler E Get_rpmb_ss_auth_key = get_rpmb_ss_auth_key E"
| "call_handler E Get_unittest_key32 = get_unittest_key32 E"

section \<open>The key box\<close>

text \<open>
  \<^verbatim>\<open>struct keyslot_package\<close>: the magic, the RPMB blob with its length, the public key blob
  with its length; every member is aligned without padding.
\<close>

definition KEYPACK_MAGIC :: string where "KEYPACK_MAGIC = ''!KS''"
definition off_rpmb_keyblob_len :: nat where "off_rpmb_keyblob_len = 4"
definition off_rpmb_keyblob :: nat where "off_rpmb_keyblob = off_rpmb_keyblob_len + 4"
definition off_pubkey_keyblob_len :: nat where "off_pubkey_keyblob_len = off_rpmb_keyblob + unat RPMBKEY_LEN"
definition off_pubkey_keyblob :: nat where "off_pubkey_keyblob = off_pubkey_keyblob_len + 4"
definition sizeof_keyslot_package :: nat where
  "sizeof_keyslot_package = off_pubkey_keyblob + unat PUBKEY_LEN"

definition unpack_kbox :: "'w env \<Rightarrow> (('w, 'z) hwkey_state_scheme, unit) prog" where
  "unpack_kbox E =
     (let kbox = caam_get_keybox; fld = (\<lambda>off. (fst kbox, snd kbox + off)) in
     mbind (mread (fld 0) 4) (\<lambda>magic.
     if \<not> strncmp_eq magic (clit KEYPACK_MAGIC) 4 then mstop Abort else
     mbind (mget rpmb_keyblob_len) (\<lambda>old.
     mthen (massert (old = 0))
     (mbind (mread (fld off_rpmb_keyblob_len) 4) (\<lambda>b.
     let len = of_le32 b in
     mthen (if len \<noteq> RPMBKEY_LEN then mret () else
            mthen (memcpy (Rpmb_keyblob, 0) (fld off_rpmb_keyblob) (unat len))
            (mmod (\<lambda>s. s\<lparr>rpmb_keyblob_len := len\<rparr>)))
     (mbind (caam_gen_kdfv1_root_key E (Kdfv1_key, 0) 32) (\<lambda>res.
     mthen (massert (res = CAAM_SUCCESS))
     (memset kbox 0 sizeof_keyslot_package)))))))) "

definition hwkey_init_srv_provider :: "'w env \<Rightarrow> (('w, 'z) hwkey_state_scheme, unit) prog" where
  "hwkey_init_srv_provider E =
     mthen (unpack_kbox E)
     (mthen (hwkey_install_keys (Some (keys E)) (of_nat (length (keys E))))
     (mthen (hwkey_start_service E)
     (mret ())))"

section \<open>The provider keeps its contract\<close>

lemma wp_derive_key_v1:
  assumes rdy: "key_ready s" and n: "unat n \<le> HWKEY_MAX_PAYLOAD_SIZE"
    and Q: "\<And>r s'. key_post ck E s r s' \<Longrightarrow> Q r s'"
  shows "wp (derive_key_v1 E uuid (Req_data, 0) n (Key_data, 0) len) Q s"
proof (cases "n = 0")
  case True
  then show ?thesis by (simp add: derive_key_v1_def Q key_post_refl [OF rdy])
next
  case False
  have obj: "in_obj s (Kdfv1_key, 0) 32" "in_obj s (Req_data, 0) (unat n)" "in_obj s (Key_data, 0) (unat n)"
    using rdy n by (simp_all add: in_obj_def key_ready_def key_bufs_def)
  have z: "length (mem s Key_data) = HWKEY_MAX_PAYLOAD_SIZE" "all_zero (mem s Key_data)" "dma_windows s = []"
    using rdy by (simp_all add: key_ready_def key_bufs_def)
  have k: "Q (HWKEY_NO_ERROR E, n) (put_mem (Key_data, 0) bs s)" if "length bs = unat n" for bs
    using z n that all_zero_drop_overwrite [of bs "mem s Key_data"] by (intro Q) (auto simp: key_post_def)
  have w: "Q (HWKEY_ERR_GENERIC E, 0) (put_mem (Key_data, 0) (replicate (unat n) 0) (put_mem (Key_data, 0) bs s))"
    if "length bs = unat n" for bs
    using z n that all_zero_overwrite_zeros [of "unat n" "mem s Key_data"]
    by (intro Q) (auto simp: key_post_def drv_frame_def put_mem_def)
  show ?thesis
    using False obj k w by (simp add: derive_key_v1_def Let_def split: prod.splits)
qed

lemma wp_get_rpmb_ss_auth_key:
  assumes env: "env_ok ck E" and rdy: "key_ready s" and Q: "\<And>r s'. key_post ck E s r s' \<Longrightarrow> Q r s'"
  shows "wp (get_rpmb_ss_auth_key E slot (Key_data, 0) len 0) Q s"
proof -
  let ?dec = "caam_decap_blob E (Skeymod, 0) 16 (Key_data, 0) (Rpmb_keyblob, 0) RPMB_SS_AUTH_KEY_SIZE"
  have z: "length (mem s Key_data) = HWKEY_MAX_PAYLOAD_SIZE" "all_zero (mem s Key_data)" "dma_windows s = []"
    "caam_ready s" using rdy by (simp_all add: key_ready_def key_bufs_def)
  have obj: "in_obj s (Skeymod, 0) 16" "in_obj s (Rpmb_keyblob, 0) (unat (RPMB_SS_AUTH_KEY_SIZE + CAAM_KB_HEADER_LEN))"
    "in_obj s (Key_data, 0) (unat RPMB_SS_AUTH_KEY_SIZE)"
    using rdy by (simp_all add: in_obj_def key_ready_def key_bufs_def RPMB_SS_AUTH_KEY_SIZE_def
        CAAM_KB_HEADER_LEN_def HWKEY_MAX_PAYLOAD_SIZE_def)
  have dec: "wp ?dec (job_post E (Key_data, 0) 32 s) s"
    using obj z by (intro wp_caam_decap_blob env_okD(1) [OF env]) (simp_all add: RPMB_SS_AUTH_KEY_SIZE_def)
  have "wp (mbind ?dec (\<lambda>res. if res = CAAM_SUCCESS then mret (HWKEY_NO_ERROR E, RPMB_SS_AUTH_KEY_SIZE)
     else mthen (memset (Key_data, 0) 0 (unat RPMB_SS_AUTH_KEY_SIZE)) (mret (HWKEY_ERR_GENERIC E, 0)))) Q s"
  proof (subst wp_basic(2), rule wp_keeps [OF dec keeps_jobs(1) [OF env_okD(5) [OF env]]])
    fix res t assume t: "job_post E (Key_data, 0) 32 s res t" "ck (world t) = ck (world s)"
    from t(1) obtain bs where bs: "length bs = 32" "mem t = mem (put_mem (Key_data, 0) bs s)"
      and f: "drv_frame s t" "dma_windows t = []" by (auto simp: job_post_def)
    have d: "all_zero (drop 32 (mem t Key_data))"
      using bs z all_zero_drop_overwrite [of bs "mem s Key_data"] by (simp add: HWKEY_MAX_PAYLOAD_SIZE_def)
    then have a: "all_zero (overwrite 0 (replicate 32 0) (mem t Key_data))"
      using bs z by (intro all_zero_overwrite_zeros) (simp_all add: HWKEY_MAX_PAYLOAD_SIZE_def)
    have "Q (HWKEY_NO_ERROR E, RPMB_SS_AUTH_KEY_SIZE) t"
      using t f bs z d by (intro Q) (simp add: key_post_def RPMB_SS_AUTH_KEY_SIZE_def HWKEY_MAX_PAYLOAD_SIZE_def)
    moreover have "Q (HWKEY_ERR_GENERIC E, 0) (put_mem (Key_data, 0) (replicate 32 0) t)"
      using t f bs z a by (intro Q) (auto simp: key_post_def HWKEY_MAX_PAYLOAD_SIZE_def elim: drv_frame_trans)
    ultimately show "wp (if res = CAAM_SUCCESS then mret (HWKEY_NO_ERROR E, RPMB_SS_AUTH_KEY_SIZE)
     else mthen (memset (Key_data, 0) 0 (unat RPMB_SS_AUTH_KEY_SIZE)) (mret (HWKEY_ERR_GENERIC E, 0))) Q t"
      using bs z by (simp add: in_obj_def RPMB_SS_AUTH_KEY_SIZE_def HWKEY_MAX_PAYLOAD_SIZE_def)
  qed
  then show ?thesis
    by (simp add: get_rpmb_ss_auth_key_def Q key_post_refl [OF rdy])
qed

lemma wp_get_unittest_key32:
  assumes rdy: "key_ready s" and Q: "\<And>r s'. key_post ck E s r s' \<Longrightarrow> Q r s'"
  shows "wp (get_unittest_key32 E slot (Key_data, 0) len 0) Q s"
proof -
  have z: "length (mem s Key_data) = HWKEY_MAX_PAYLOAD_SIZE" "all_zero (mem s Key_data)" "dma_windows s = []"
    "length (mem s Unittest_key32) = 32"
    using rdy by (simp_all add: key_ready_def key_bufs_def unittest_key32_def)
  then have "Q (HWKEY_NO_ERROR E, 32) (put_mem (Key_data, 0) (take 32 (mem s Unittest_key32)) s)"
    using all_zero_drop_overwrite [of "mem s Unittest_key32" "mem s Key_data"]
    by (intro Q) (auto simp: key_post_def HWKEY_MAX_PAYLOAD_SIZE_def)
  with z show ?thesis
    by (simp add: get_unittest_key32_def in_obj_def HWKEY_MAX_PAYLOAD_SIZE_def)
qed

interpretation caam_keys: key_provider ck call_handler derive_key_v1 for ck
proof
  show "wp (call_handler E h slot (Key_data, 0) sizeof_key_data 0) Q s"
    if "env_ok ck E" "key_ready s" "\<And>r s'. key_post ck E s r s' \<Longrightarrow> Q r s'" for E h slot Q s
    using wp_get_rpmb_ss_auth_key [OF that] wp_get_unittest_key32 [OF that(2,3)] by (cases h) simp_all
  show "wp (derive_key_v1 E uuid (Req_data, 0) n (Key_data, 0) sizeof_key_data) Q s"
    if "env_ok ck E" "key_ready s" "unat n \<le> HWKEY_MAX_PAYLOAD_SIZE"
      "\<And>r s'. key_post ck E s r s' \<Longrightarrow> Q r s'" for E uuid n Q s
    using that(2-) by (rule wp_derive_key_v1)
qed

section \<open>Unpacking the key box\<close>

lemma kbox_layout:
  "off_rpmb_keyblob_len = 4" "off_rpmb_keyblob = 8" "off_pubkey_keyblob_len = 88"
  "off_pubkey_keyblob = 92" "sizeof_keyslot_package = 1172" "RPMBKEY_LEN = 80" "unat RPMBKEY_LEN = 80"
  by (simp_all add: off_rpmb_keyblob_len_def off_rpmb_keyblob_def off_pubkey_keyblob_len_def
      off_pubkey_keyblob_def sizeof_keyslot_package_def RPMBKEY_LEN_def PUBKEY_LEN_def CAAM_KB_HEADER_LEN_def)

text \<open>The fields of the key box in the secure RAM.\<close>

definition kbox_field :: "('w, 'z) machine_scheme \<Rightarrow> nat \<Rightarrow> nat \<Rightarrow> byte list" where
  "kbox_field s off n = take n (drop off (mem s Sram))"

text \<open>
  What \<^verbatim>\<open>unpack_kbox\<close> leaves behind when it returns: the box had the magic; its RPMB blob
  was taken over when its length was right, and only then; the root key is what the device
  generated; the box is wiped; nothing else of the program has changed.
\<close>

definition kbox_post :: "'w env \<Rightarrow> ('w, 'z) hwkey_state_scheme \<Rightarrow> ('w, 'z) hwkey_state_scheme \<Rightarrow> bool" where
  "kbox_post E s s' \<longleftrightarrow> strncmp_eq (kbox_field s 0 4) (clit KEYPACK_MAGIC) 4
     \<and> rpmb_keyblob_len s' = (if of_le32 (kbox_field s 4 4) = RPMBKEY_LEN then RPMBKEY_LEN else 0)
     \<and> mem s' Rpmb_keyblob = (if of_le32 (kbox_field s 4 4) = RPMBKEY_LEN then kbox_field s 8 80 else mem s Rpmb_keyblob)
     \<and> mem s' Kdfv1_key = map (dma_ram E (world s') (Kdfv1_key, 0)) [0..<32]
     \<and> mem s' Sram = replicate 1172 0 @ drop 1172 (mem s Sram)
     \<and> (\<forall>b. b \<notin> {Rpmb_keyblob, Kdfv1_key, Sram} \<longrightarrow> mem s' b = mem s b)
     \<and> dma_windows s' = [] \<and> caam_ready s' \<and> caam_base s' = caam_base s \<and> heap_next s' = heap_next s
     \<and> hwrng_port s' = hwrng_port s \<and> rng_ctxs s' = rng_ctxs s \<and> hwrng_req_list s' = hwrng_req_list s
     \<and> key_slots s' = key_slots s \<and> key_slot_cnt s' = key_slot_cnt s \<and> key_ctxs s' = key_ctxs s
     \<and> hwkey_state.more s' = hwkey_state.more s"

lemma wp_unpack_kbox:
  fixes s :: "('w, 'z) hwkey_state_scheme"
  assumes ok: "dma_ok E" and rdy: "key_ready s" and sram: "1172 \<le> length (mem s Sram)"
  shows "wp (unpack_kbox E) (\<lambda>_. kbox_post E s) s"
proof -
  have len: "length (mem s Kdfv1_key) = 32" "length (mem s Rpmb_keyblob) = 80" "caam_ready s" "dma_windows s = []"
    using rdy by (simp_all add: key_ready_def key_bufs_def)
  let ?l = "of_le32 (kbox_field s 4 4)"
  define t where "t = (if ?l = RPMBKEY_LEN
    then (put_mem (Rpmb_keyblob, 0) (kbox_field s 8 80) s)\<lparr>rpmb_keyblob_len := ?l\<rparr> else s)"
  have t: "caam_ready t" "dma_windows t = []" "in_obj t (Kdfv1_key, 0) (unat (32 :: u32))"
    using len by (auto simp: t_def in_obj_def put_mem_def caam_ready_def)
  have fin: "wp (memset (Sram, 0) 0 1172) (\<lambda>_. kbox_post E s) u"
    if u: "job_post E (Kdfv1_key, 0) (unat (32 :: u32)) t CAAM_SUCCESS u" "rpmb_keyblob_len s = 0"
      "strncmp_eq (kbox_field s 0 4) (clit KEYPACK_MAGIC) 4" for u
  proof -
    have f: "caam_state.more u = caam_state.more t" "heap_next u = heap_next t" "caam_ready u" "dma_windows u = []"
      "caam_base u = caam_base t"
      using u(1) t(1) by (simp_all add: job_post_def drv_frame_def)
    have m: "mem u b = (if b = Kdfv1_key then map (dma_ram E (world u) (Kdfv1_key, 0)) [0..<32] else mem t b)" for b
      using u(1) len t(3) by (auto simp: job_post_def overwrite_def t_def)
    have k: "length (kbox_field s 8 80) = 80" using sram by (simp add: kbox_field_def)
    have tm: "mem t b = (if b = Rpmb_keyblob \<and> ?l = RPMBKEY_LEN then kbox_field s 8 80 else mem s b)" for b
      using k len by (simp add: t_def overwrite_def)
    have ts: "heap_next t = heap_next s" "caam_base t = caam_base s" "hwrng_port t = hwrng_port s" "rng_ctxs t = rng_ctxs s"
      "hwrng_req_list t = hwrng_req_list s" "key_slots t = key_slots s" "key_slot_cnt t = key_slot_cnt s"
      "key_ctxs t = key_ctxs s" "hwkey_state.more t = hwkey_state.more s"
      "rpmb_keyblob_len t = (if ?l = RPMBKEY_LEN then RPMBKEY_LEN else 0)"
      using u(2) by (simp_all add: t_def put_mem_def)
    have "kbox_post E s (put_mem (Sram, 0) (replicate 1172 0) u)"
      using u(3) hwkey_more_sel [OF f(1)] hwrng_more_sel [OF f(1)] f
      by (simp add: kbox_post_def m tm ts overwrite_def) (simp add: put_mem_def ts)
    then show ?thesis using sram by (simp add: in_obj_def m tm)
  qed
  have "wp (caam_gen_kdfv1_root_key E (Kdfv1_key, 0) 32)
      (\<lambda>res u. res = CAAM_SUCCESS \<longrightarrow> wp (memset (Sram, 0) 0 1172) (\<lambda>_. kbox_post E s) u) t"
    if "rpmb_keyblob_len s = 0" "strncmp_eq (kbox_field s 0 4) (clit KEYPACK_MAGIC) 4"
    by (rule wp_caam_gen_kdfv1_root_key [OF ok t]) (use that fin in blast)
  then show ?thesis
    using sram len
    unfolding unpack_kbox_def Let_def caam_get_keybox_def kbox_layout(1,2,5) t_def
    by (auto simp: in_obj_def kbox_field_def kbox_layout)
qed

lemma keeps_unpack_kbox: "quiet obs E \<Longrightarrow> keeps obs (unpack_kbox E)"
  unfolding unpack_kbox_def Let_def by (intro keeps_intros; simp)

lemma kbox_post_inv:
  assumes post: "kbox_post E s t" and ck: "ck (world t) = ck (world s)" and sram: "1172 \<le> length (mem s Sram)"
  shows "hwkey_inv ck s \<Longrightarrow> hwkey_inv ck t" and "hwrng_inv ck s \<Longrightarrow> hwrng_inv ck t"
proof -
  have m: "mem t b = mem s b" if "b \<notin> {Rpmb_keyblob, Kdfv1_key, Sram}" for b
    using post that by (simp add: kbox_post_def)
  have f: "dma_windows t = []" "caam_ready t" "heap_next t = heap_next s" "rng_ctxs t = rng_ctxs s"
    "hwrng_req_list t = hwrng_req_list s" "key_slots t = key_slots s" "key_slot_cnt t = key_slot_cnt s"
    "key_ctxs t = key_ctxs s" "length (mem t Kdfv1_key) = 32"
    "length (mem s Rpmb_keyblob) = 80 \<Longrightarrow> length (mem t Rpmb_keyblob) = 80"
    using post sram by (auto simp: kbox_post_def kbox_field_def)
  show "hwkey_inv ck s \<Longrightarrow> hwkey_inv ck t"
    by (auto simp: hwkey_inv_def key_ready_def key_bufs_def key_ctx_ok_def f m ck)
  show "hwrng_inv ck s \<Longrightarrow> hwrng_inv ck t"
    by (auto simp: hwrng_inv_def rng_ctx_ok_def f m ck)
qed

lemma slots_ok_keys: "slots_ok (Some (keys E)) (of_nat (length (keys E)))"
  by (simp add: slots_ok_def keys_def clit_def)

lemma wp_hwkey_init_srv_provider:
  assumes env: "env_ok ck E" and key: "hwkey_inv ck s" and rng: "hwrng_inv ck s"
    and sram: "1172 \<le> length (mem s Sram)"
  shows "wp (hwkey_init_srv_provider E) (\<lambda>_ s'. hwkey_inv ck s' \<and> hwrng_inv ck s' \<and>
     key_slots s' = Some (keys E) \<and> all_zero (take 1172 (mem s' Sram))) s"
proof -
  have fin: "hwkey_inv ck v \<and> hwrng_inv ck v \<and> key_slots v = Some (keys E) \<and> all_zero (take 1172 (mem v Sram))"
    if t: "kbox_post E s t" "ck (world t) = ck (world s)"
      and v: "v = t\<lparr>key_slots := Some (keys E), key_slot_cnt := of_nat (length (keys E)), world := w\<rparr>"
      and w: "\<And>h c. ck w h = Some c \<Longrightarrow> ck (world t) h = Some c \<or> c = Hwkey_port_cookie" for t v w
  proof -
    note inv = kbox_post_inv [OF t sram]
    have "hwkey_inv ck v"
      using inv(1) [OF key] w slots_ok_keys [of E] unfolding v
      by (fastforce simp: hwkey_inv_def key_ready_def key_bufs_def key_ctx_ok_def caam_ready_def)
    moreover have "hwrng_inv ck v"
      using inv(2) [OF rng] w unfolding v by (fastforce simp: hwrng_inv_def rng_ctx_ok_def caam_ready_def)
    moreover have "all_zero (take 1172 (mem v Sram))" using t v by (simp add: kbox_post_def)
    ultimately show ?thesis by (simp add: v)
  qed
  have rest: "wp (mthen (hwkey_install_keys (Some (keys E)) (of_nat (length (keys E))))
      (mthen (hwkey_start_service E) (mret ()))) (\<lambda>_ s'. hwkey_inv ck s' \<and> hwrng_inv ck s' \<and>
      key_slots s' = Some (keys E) \<and> all_zero (take 1172 (mem s' Sram))) t"
    if t: "kbox_post E s t" "ck (world t) = ck (world s)" for t
  proof -
    let ?u = "t\<lparr>key_slots := Some (keys E), key_slot_cnt := of_nat (length (keys E))\<rparr>"
    have "hwkey_inv ck ?u" using fin [OF t refl, of "world t"] by simp
    then have "wp (hwkey_start_service E) (\<lambda>_ s'. hwkey_inv ck s' \<and> hwrng_inv ck s' \<and>
      key_slots s' = Some (keys E) \<and> all_zero (take 1172 (mem s' Sram))) ?u"
      by (rule wp_hwkey_start_service [OF env]) (rule fin [OF t refl], simp)
    then show ?thesis by (simp add: hwkey_install_keys_def)
  qed
  have "key_ready s" using key by (simp add: hwkey_inv_def)
  from wp_unpack_kbox [OF env_okD(1) [OF env] this sram] show ?thesis
    unfolding hwkey_init_srv_provider_def wp_basic(3) [of "unpack_kbox E"]
    by (rule wp_keeps [OF _ keeps_unpack_kbox [OF env_okD(5) [OF env]]]) (rule rest)
qed

end
