(* ===== verification/Main_Loop.thy ===== *)
theory Main_Loop
  imports Caam_Init Hwrng_Provider Hwkey_Provider
begin

text \<open>
  The application (main.c): the dispatch of an event to the handler its cookie names, the
  initialisation and the event loop.
\<close>

section \<open>Dispatch\<close>

text \<open>
  Following the cookie of an event: the two static handlers, or the handler in the channel
  context at the cookie's address, which must still be allocated.
\<close>

fun handler_at :: "cookie \<Rightarrow> (('w, 'z) hwkey_state_scheme, tipc_event_handler) prog" where
  "handler_at Hwkey_port_cookie = mret \<lparr>proc = Some Hwkey_port_handler, priv = 0\<rparr>"
| "handler_at Hwrng_port_cookie = mret \<lparr>proc = Some Hwrng_port_handler, priv = 0\<rparr>"
| "handler_at (Hwkey_chan_cookie p) = mderef (\<lambda>s. map_option key_evt_handler (key_ctxs s p))"
| "handler_at (Hwrng_chan_cookie p) = mderef (\<lambda>s. map_option rng_evt_handler (rng_ctxs s p))"

fun invoke :: "'w env \<Rightarrow> ev_proc \<Rightarrow> uevent \<Rightarrow> nat \<Rightarrow> (('w, 'z) hwkey_state_scheme, unit) prog" where
  "invoke E Hwkey_port_handler ev p = hwkey_port_handler E ev"
| "invoke E Hwkey_chan_handler ev p = hwkey_chan_handler E (call_handler E) (derive_key_v1 E) ev p"
| "invoke E Hwrng_port_handler ev p = hwrng_port_handler E ev"
| "invoke E Hwrng_chan_handler ev p = hwrng_chan_handler E (hwrng_dev_get_rng_data E) ev p"

definition dispatch_event :: "'w env \<Rightarrow> uevent \<Rightarrow> (('w, 'z) hwkey_state_scheme, unit) prog" where
  "dispatch_event E ev =
     (if ev_event ev = {} then mret () else
      case ev_cookie ev of
        None \<Rightarrow> close E (ev_handle ev)
      | Some c \<Rightarrow> mbind (handler_at c) (\<lambda>handler.
          case proc handler of
            Some f \<Rightarrow> invoke E f ev (priv handler)
          | None \<Rightarrow> close E (ev_handle ev)))"

section \<open>The loop\<close>

text \<open>One turn of the loop: \<open>Some rc\<close> when it breaks off with \<open>rc\<close>.\<close>

definition loop_turn :: "'w env \<Rightarrow> (('w, 'z) hwkey_state_scheme, int option) prog" where
  "loop_turn E =
     mbind (sys (k_wait_any E)) (\<lambda>(rc, event).
     if rc < 0 then mret (Some rc) else
     mthen (if rc = 0 then dispatch_event E event else mret ())
     (mret None))"

text \<open>The loop only ends when \<^verbatim>\<open>wait_any\<close> fails; the fuel is the number of turns.\<close>

fun main_loop :: "'w env \<Rightarrow> nat \<Rightarrow> (('w, 'z) hwkey_state_scheme, int) prog" where
  "main_loop E 0 = mstop NoReturn"
| "main_loop E (Suc n) =
     mbind (loop_turn E) (\<lambda>r. case r of Some rc \<Rightarrow> mret rc | None \<Rightarrow> main_loop E n)"

definition main_init :: "'w env \<Rightarrow> (('w, 'z) hwkey_state_scheme, int) prog" where
  "main_init E =
     mbind (init_caam_env E) (\<lambda>rc.
     if rc \<noteq> 0 then mret rc else
     mthen (hwrng_init_srv_provider E)
     (mthen (hwkey_init_srv_provider E)
     (mret 0)))"

definition main :: "'w env \<Rightarrow> nat \<Rightarrow> (('w, 'z) hwkey_state_scheme, int) prog" where
  "main E n = mbind (main_init E) (\<lambda>rc. if rc \<noteq> 0 then mret rc else main_loop E n)"

text \<open>The states the application goes through, one turn at a time.\<close>

inductive reach :: "'w env \<Rightarrow> ('w, 'z) hwkey_state_scheme \<Rightarrow> ('w, 'z) hwkey_state_scheme \<Rightarrow> bool"
  for E s0 where
  start: "main_init E s0 = Inr (0, s) \<Longrightarrow> reach E s0 s"
| turn: "reach E s0 s \<Longrightarrow> loop_turn E s = Inr (None, s') \<Longrightarrow> reach E s0 s'"

section \<open>The invariant of the application\<close>

definition app_inv ::
  "('w \<Rightarrow> handle \<Rightarrow> cookie option) \<Rightarrow> ('w, 'z) hwkey_state_scheme \<Rightarrow> bool" where
  "app_inv ck s \<longleftrightarrow> hwrng_inv ck s \<and> hwkey_inv ck s"

text \<open>
  The program as the loader starts it: the static objects have their sizes and initial
  values, no context exists and no handle has a cookie. The secure RAM is large enough for
  the key box.
\<close>

definition boot_state ::
  "('w \<Rightarrow> handle \<Rightarrow> cookie option) \<Rightarrow> ('w, 'z) hwkey_state_scheme \<Rightarrow> bool" where
  "boot_state ck s \<longleftrightarrow> dma_windows s = [] \<and> 0 < heap_next s \<and> key_bufs s \<and> mem s Skeymod = skeymod
     \<and> length (mem s Rng_data) = unat MAX_HWRNG_MSG_SIZE \<and> sizeof_keyslot_package \<le> length (mem s Sram)
     \<and> rng_ctxs s = Map.empty \<and> hwrng_req_list s = [] \<and> key_ctxs s = Map.empty
     \<and> key_slots s = None \<and> key_slot_cnt s = 0 \<and> rpmb_keyblob_len s = 0
     \<and> (\<forall>h. ck (world s) h = None)"

text \<open>
  What a turn of the loop leaves alone: the secrets of the key service (the root key, the key
  modifier, the RPMB blob), its slots, the place of the registers, and every object but the
  buffers of the services.
\<close>

definition keys_kept :: "('w, 'z) hwkey_state_scheme \<Rightarrow> ('w, 'z) hwkey_state_scheme \<Rightarrow> bool" where
  "keys_kept s s' \<longleftrightarrow> caam_base s' = caam_base s \<and> key_slots s' = key_slots s
     \<and> key_slot_cnt s' = key_slot_cnt s \<and> rpmb_keyblob_len s' = rpmb_keyblob_len s
     \<and> (\<forall>b. b \<notin> {Key_data, Req_data, Rng_data} \<longrightarrow> mem s' b = mem s b)"

lemma keys_kept_refl [simp]: "keys_kept s s" "keys_kept s (s\<lparr>world := w\<rparr>)"
  by (simp_all add: keys_kept_def)

lemma keys_kept_trans: "keys_kept s t \<Longrightarrow> keys_kept t u \<Longrightarrow> keys_kept s u"
  by (simp add: keys_kept_def)

lemma keys_kept_frames:
  fixes s :: "('w, 'z) hwkey_state_scheme"
  shows "hwkey_frame ck s t \<Longrightarrow> keys_kept s t" and "hwrng_frame ck s t \<Longrightarrow> keys_kept s t"
proof -
  show "hwkey_frame ck s t \<Longrightarrow> keys_kept s t" by (simp add: hwkey_frame_def keys_kept_def)
  assume f: "hwrng_frame ck s t"
  then have "hwrng_state.more t = hwrng_state.more s" by (simp add: hwrng_frame_def)
  then have "key_slots t = key_slots s" "key_slot_cnt t = key_slot_cnt s" "rpmb_keyblob_len t = rpmb_keyblob_len s"
    by (cases s; cases t; simp)+
  with f show "keys_kept s t" by (simp add: hwrng_frame_def keys_kept_def)
qed

lemma app_inv_close:
  assumes env: "env_ok ck E" and inv: "app_inv ck s"
  shows "app_inv ck (s\<lparr>world := k_close E h (world s)\<rparr>)"
proof -
  have "ck (k_close E h (world s)) = (ck (world s))(h := None)"
    by (rule cookies_okD(2) [OF env_okD(6) [OF env]])
  then have "hwkey_inv ck (s\<lparr>world := k_close E h (world s)\<rparr>)"
    "hwkey_frame ck s (s\<lparr>world := k_close E h (world s)\<rparr>)"
    using inv by (auto simp: app_inv_def split: if_splits intro!: hwkey_world)
  with inv show ?thesis by (auto simp: app_inv_def intro: hwkey_frame_hwrng_inv)
qed

text \<open>Dispatching an event whose cookie is that of its handle.\<close>

lemma wp_dispatch_event:
  fixes s :: "('w, 'z) hwkey_state_scheme"
  assumes env: "env_ok ck E" and inv: "app_inv ck s" and ev: "ev_cookie ev = ck (world s) (ev_handle ev)"
  shows "wp (dispatch_event E ev) (\<lambda>_ t. app_inv ck t \<and> keys_kept s t) s"
proof -
  have rng: "hwrng_inv ck s" and key: "hwkey_inv ck s" using inv by (simp_all add: app_inv_def)
  have k: "app_inv ck t \<and> keys_kept s t" if "hwkey_inv ck t" "hwkey_frame ck s t" for t
    using that rng by (simp add: app_inv_def hwkey_frame_hwrng_inv keys_kept_frames)
  have r: "app_inv ck t \<and> keys_kept s t" if "hwrng_inv ck t" "hwrng_frame ck s t" for t
    using that key by (simp add: app_inv_def hwrng_frame_hwkey_inv keys_kept_frames)
  show ?thesis
  proof (cases "ev_cookie ev")
    case None
    then show ?thesis using inv app_inv_close [OF env inv] by (simp add: dispatch_event_def)
  next
    case (Some c)
    show ?thesis
    proof (cases c)
      case Hwkey_port_cookie
      then show ?thesis using Some inv k by (simp add: dispatch_event_def wp_hwkey_port_handler [OF env key])
    next
      case Hwrng_port_cookie
      then show ?thesis using Some inv r by (simp add: dispatch_event_def wp_hwrng_port_handler [OF env rng])
    next
      case (Hwkey_chan_cookie p)
      with Some ev obtain d where d: "key_ctxs s p = Some d" using hwkey_cookieD [OF key] by fastforce
      then have "key_evt_handler d = \<lparr>proc = Some Hwkey_chan_handler, priv = p\<rparr>"
        using key by (simp add: hwkey_inv_def key_ctx_ok_def)
      with Hwkey_chan_cookie Some inv d k show ?thesis
        by (simp add: dispatch_event_def caam_keys.wp_hwkey_chan_handler [OF env key d])
    next
      case (Hwrng_chan_cookie p)
      with Some ev obtain d where d: "rng_ctxs s p = Some d" using hwrng_cookieD [OF rng] by fastforce
      then have "rng_evt_handler d = \<lparr>proc = Some Hwrng_chan_handler, priv = p\<rparr>"
        using rng by (simp add: hwrng_inv_def rng_ctx_ok_def)
      with Hwrng_chan_cookie Some inv d r show ?thesis
        by (simp add: dispatch_event_def caam_rng.wp_hwrng_chan_handler [OF env rng d])
    qed
  qed
qed

section \<open>Event loops\<close>

text \<open>
  An event loop over turns that keep an invariant keeps it for any number of turns. The
  contract of a turn is all the loop relies on.
\<close>

locale event_loop =
  fixes inv :: "'s \<Rightarrow> bool" and good :: "'w env \<Rightarrow> bool" and loop_step :: "'w env \<Rightarrow> ('s, int option) prog"
  assumes step_inv: "good E \<Longrightarrow> inv s \<Longrightarrow> wp (loop_step E) (\<lambda>_. inv) s"
begin

primrec turns :: "'w env \<Rightarrow> nat \<Rightarrow> ('s, int) prog" where
  "turns E 0 = mstop NoReturn"
| "turns E (Suc n) = mbind (loop_step E) (\<lambda>r. case r of Some rc \<Rightarrow> mret rc | None \<Rightarrow> turns E n)"

lemma wp_turns:
  assumes "good E"
  shows "inv s \<Longrightarrow> wp (turns E n) (\<lambda>_. inv) s"
proof (induction n arbitrary: s)
  case (Suc n)
  have "wp (case r of Some rc \<Rightarrow> mret rc | None \<Rightarrow> turns E n) (\<lambda>_. inv) t" if "inv t" for r t
    using that Suc.IH by (cases r) simp_all
  with Suc.prems show ?case by (simp, intro wp_mono [OF step_inv [OF assms]])
qed simp

end

lemma wp_loop_turn:
  assumes env: "env_ok ck E" and inv: "app_inv ck s"
  shows "wp (loop_turn E) (\<lambda>_ t. app_inv ck t \<and> keys_kept s t) s"
proof -
  note cks = cookies_okD [OF env_okD(6) [OF env]]
  have w: "app_inv ck (s\<lparr>world := w\<rparr>)" if "ck w = ck (world s)" for w
    using hwkey_world [of ck s w] hwrng_world [of ck s w] that inv by (simp add: app_inv_def)
  have "wp (dispatch_event E ev) (\<lambda>_ t. app_inv ck t \<and> keys_kept s t) (s\<lparr>world := w\<rparr>)"
    if "k_wait_any E (world s) = ((0, ev), w)" for ev w
    using cks(6,7) [OF that] w [of w]
    by (intro wp_mono [OF wp_dispatch_event [OF env, of "s\<lparr>world := w\<rparr>"]]) (auto simp: keys_kept_def)
  then show ?thesis
    using w cks(6) by (auto simp: loop_turn_def intro!: wp_sysI)
qed

interpretation app_loop: event_loop "app_inv ck" "env_ok ck" loop_turn for ck
  by unfold_locales (blast intro: wp_mono [OF wp_loop_turn])

lemma main_loop_turns: "main_loop E n = app_loop.turns E n"
  by (induction n) simp_all

section \<open>Initialisation\<close>

lemma boot_init_inv:
  assumes boot: "boot_state ck s" and t: "caam_ready t" "init_post s t" "ck (world t) = ck (world s)"
  shows "hwrng_inv ck t" "hwkey_inv ck t" "1172 \<le> length (mem t Sram)"
proof -
  have f: "caam_state.more t = caam_state.more s" "dma_windows t = []" "heap_next t = heap_next s"
    using t(2) by (simp_all add: init_post_def)
  have m: "mem t b = mem s b" if "\<And>nm. b \<noteq> Local nm" for b
    using t(2) that by (simp add: init_post_def)
  note sel = hwrng_more_sel [OF f(1)] hwkey_more_sel [OF f(1)]
  show "hwrng_inv ck t"
    using boot t(1,3) f by (simp add: hwrng_inv_def boot_state_def sel m)
  show "hwkey_inv ck t"
    using boot t(1,3) f by (simp add: hwkey_inv_def boot_state_def sel key_ready_def key_bufs_def slots_ok_def m skeymod_def)
  show "1172 \<le> length (mem t Sram)" using boot by (simp add: boot_state_def m kbox_layout)
qed

text \<open>Starting the random number service leaves the key service as it is.\<close>

lemma hwrng_started_hwkey_inv:
  assumes key: "hwkey_inv ck t" and u: "hwrng_inv ck u"
    "hwrng_frame ck t (u\<lparr>hwrng_port := hwrng_port t, world := world t\<rparr>)"
    "\<And>h c. ck (world u) h = Some c \<Longrightarrow> ck (world t) h = Some c \<or> c = Hwrng_port_cookie"
  shows "hwkey_inv ck u"
proof -
  have more: "hwrng_state.more u = hwrng_state.more t" "heap_next t \<le> heap_next u"
    "\<And>b. b \<noteq> Rng_data \<Longrightarrow> mem u b = mem t b"
    using u(2) by (simp_all add: hwrng_frame_def)
  have sel: "key_slots u = key_slots t" "key_slot_cnt u = key_slot_cnt t" "key_ctxs u = key_ctxs t"
    using more(1) by (cases t; cases u; simp)+
  have "\<exists>c. key_ctxs t p = Some c \<and> key_chan c = h" if "ck (world u) h = Some (Hwkey_chan_cookie p)" for h p
    using hwkey_cookieD [OF key] u(3) [OF that] by auto
  moreover have "\<forall>p c. key_ctxs t p = Some c \<longrightarrow> key_ctx_ok u p c"
    using key more(2) by (fastforce simp: hwkey_inv_def key_ctx_ok_def)
  ultimately show ?thesis
    using key u(1) more unfolding hwkey_inv_def sel
    by (simp add: key_ready_def key_bufs_def hwrng_inv_def)
qed

lemma wp_main_init:
  fixes s :: "('w, 'z) hwkey_state_scheme"
  assumes env: "env_ok ck E" and boot: "boot_state ck s"
  shows "wp (main_init E) (\<lambda>rc s'. rc = 0 \<longrightarrow> app_inv ck s' \<and> key_slots s' = Some (keys E) \<and>
     all_zero (take sizeof_keyslot_package (mem s' Sram))) s" (is "wp _ ?Q s")
proof -
  note e = env_okD [OF env]
  have key: "wp (hwkey_init_srv_provider E) (\<lambda>_. ?Q 0) u"
    if "hwkey_inv ck u" "hwrng_inv ck u" "1172 \<le> length (mem u Sram)" for u
    by (rule wp_mono [OF wp_hwkey_init_srv_provider [OF env that]]) (simp add: app_inv_def kbox_layout)
  have rng: "wp (hwrng_init_srv_provider E) (\<lambda>_. wp (hwkey_init_srv_provider E) (\<lambda>_. ?Q 0)) t"
    if t: "hwrng_inv ck t" "hwkey_inv ck t" "1172 \<le> length (mem t Sram)" for t
    unfolding hwrng_init_srv_provider_def wp_basic(1,3)
  proof (rule wp_hwrng_start_service [OF env t(1)])
    fix u assume u: "hwrng_inv ck u" "hwrng_frame ck t (u\<lparr>hwrng_port := hwrng_port t, world := world t\<rparr>)"
      "\<And>h c. ck (world u) h = Some c \<Longrightarrow> ck (world t) h = Some c \<or> c = Hwrng_port_cookie"
    have "hwkey_inv ck u" by (rule hwrng_started_hwkey_inv [OF t(2) u])
    moreover have "mem u Sram = mem t Sram" using u(2) by (simp add: hwrng_frame_def)
    ultimately show "wp (hwkey_init_srv_provider E) (\<lambda>_. ?Q 0) u"
      using key [of u] u(1) t(3) by simp
  qed
  have dma: "dma_windows s = []" using boot by (simp add: boot_state_def)
  have "wp (init_caam_env E) (\<lambda>rc t. rc = 0 \<longrightarrow> caam_ready t \<and> init_post s t) s"
    using e(3) by (intro wp_init_caam_env [OF e(1) dma]) (auto simp: err_ok_def)
  then have "wp (init_caam_env E) (\<lambda>rc. wp (if rc \<noteq> 0 then mret rc else mthen (hwrng_init_srv_provider E)
      (mthen (hwkey_init_srv_provider E) (mret 0))) ?Q) s"
  proof (rule wp_keeps [OF _ keeps_init_caam_env [OF e(5)]])
    fix rc :: int and t assume "rc = 0 \<longrightarrow> caam_ready t \<and> init_post s t" "ck (world t) = ck (world s)"
    then show "wp (if rc \<noteq> 0 then mret rc else mthen (hwrng_init_srv_provider E)
      (mthen (hwkey_init_srv_provider E) (mret 0))) ?Q t"
      using rng [of t] boot_init_inv [OF boot, of t] by (cases "rc = 0") simp_all
  qed
  then show ?thesis unfolding main_init_def wp_basic(2) .
qed

lemma wp_main:
  assumes env: "env_ok ck E" and boot: "boot_state ck s"
  shows "wp (main E n) (\<lambda>rc s'. True) s"
  unfolding main_def wp_basic(2)
proof (rule wp_mono [OF wp_main_init [OF env boot]])
  fix rc :: int and t assume "rc = 0 \<longrightarrow> app_inv ck t \<and> key_slots t = Some (keys E) \<and>
     all_zero (take sizeof_keyslot_package (mem t Sram))"
  then show "wp (if rc \<noteq> 0 then mret rc else main_loop E n) (\<lambda>rc s'. True) t"
    unfolding main_loop_turns by (auto intro: wp_mono [OF app_loop.wp_turns [OF env]])
qed

lemma reach_inv:
  assumes env: "env_ok ck E" and boot: "boot_state ck s0" and "reach E s0 s"
  shows "app_inv ck s"
  using assms(3)
proof induction
  case (start s)
  with wpD [OF wp_main_init [OF env boot]] show ?case by blast
next
  case (turn s s')
  with wpD [OF wp_loop_turn [OF env]] show ?case by blast
qed

text \<open>Along the loop the registers stay where they are, and so do the secrets.\<close>

lemma reach_kept:
  assumes env: "env_ok ck E" and boot: "boot_state ck s0" and init: "main_init E s0 = Inr (0, s1)" and "reach E s0 s"
  shows "keys_kept s1 s"
  using assms(4)
proof induction
  case (turn s s')
  from wpD [OF wp_loop_turn [OF env reach_inv [OF env boot turn(1)]] turn(2)] turn.IH show ?case
    by (blast intro: keys_kept_trans)
qed (use init in simp)

end
