(* ===== verification/Caam_Live.thy ===== *)
theory Caam_Live
  imports Caam_Jobs
begin

text \<open>
  When the driver returns. The weakest precondition of the other theories leaves open that a
  poll does not end, an assertion fails or the application aborts; here it is shown that a
  device that answers makes every job return, with its result. \<open>rets m Q s\<close> is total: the
  program returns, and its result satisfies \<open>Q\<close>.
\<close>

definition rets :: "('s, 'a) prog \<Rightarrow> ('a \<Rightarrow> 's \<Rightarrow> bool) \<Rightarrow> 's \<Rightarrow> bool" where
  "rets m Q s \<longleftrightarrow> (\<exists>x s'. m s = Inr (x, s') \<and> Q x s')"

lemma rets_basic [simp]:
  "rets (mret x) Q s = Q x s"
  "rets (mbind m k) Q s = rets m (\<lambda>x s'. rets (k x) Q s') s"
  "rets (mthen m n) Q s = rets m (\<lambda>_ s'. rets n Q s') s"
  "rets (mget f) Q s = Q (f s) s"
  "rets (mmod g) R s = R () (g s)"
  "rets (massert b) R s = (b \<and> R () s)"
  "rets (mcheck b) R s = (b \<and> R () s)"
  "rets (mderef h) Q s = (\<exists>x. h s = Some x \<and> Q x s)"
  by (auto simp: rets_def prog_simps split: sum.splits option.splits)

lemma rets_if [simp]: "rets (if b then m else n) Q s = (if b then rets m Q s else rets n Q s)"
  by simp

lemma rets_mono: "rets m Q s \<Longrightarrow> (\<And>x s'. Q x s' \<Longrightarrow> R x s') \<Longrightarrow> rets m R s"
  by (auto simp: rets_def)

text \<open>A program that returns ends in a state its weakest precondition allows.\<close>

lemma rets_wp: "rets m Q s \<Longrightarrow> wp m R s \<Longrightarrow> rets m (\<lambda>x s'. Q x s' \<and> R x s') s"
  by (auto simp: rets_def wp_def)

lemma rets_of_wp: "rets m (\<lambda>_ _. True) s \<Longrightarrow> wp m Q s \<Longrightarrow> rets m Q s"
  by (auto simp: rets_def wp_def)

lemma rets_machine [simp]:
  "rets (sys f) Q s = (case f (world s) of (x, w) \<Rightarrow> Q x (s\<lparr>world := w\<rparr>))"
  "rets (sys_do g) R s = R () (s\<lparr>world := g (world s)\<rparr>)"
  "rets (writel E v a) R s = R () (s\<lparr>world := k_writel E v a (world s)\<rparr>)"
  "rets (mread p n) S s = (in_obj s p n \<and> S (take n (drop (snd p) (mem s (fst p)))) s)"
  "rets (mwrite p bs) R s = (in_obj s p (length bs) \<and> R () (put_mem p bs s))"
  by (auto simp: rets_def sys_def sys_do_def writel_def mread_def mwrite_def prog_simps split: prod.splits)

section \<open>Polling\<close>

text \<open>The world after \<open>k\<close> reads of a register.\<close>

definition after_reads :: "'w env \<Rightarrow> u32 \<Rightarrow> nat \<Rightarrow> 'w \<Rightarrow> 'w" where
  "after_reads E a k = ((\<lambda>w. snd (k_readl E a w)) ^^ k)"

lemma after_reads_simps [simp]:
  "after_reads E a 0 w = w"
  "after_reads E a k (snd (k_readl E a w)) = after_reads E a (Suc k) w"
  using funpow_swap1 [of "\<lambda>w. snd (k_readl E a w)" k w] by (simp_all add: after_reads_def)

lemma poll_reg_cases:
  "poll_reg E n a ok s = (if \<exists>k<n. ok (fst (k_readl E a (after_reads E a k (world s))))
     then Inr ((), s\<lparr>world := after_reads E a (Suc (LEAST k. ok (fst (k_readl E a (after_reads E a k (world s)))))) (world s)\<rparr>)
     else Inl NoReturn)"
proof (induction n arbitrary: s)
  case 0
  then show ?case by (simp add: prog_simps)
next
  case (Suc n)
  let ?P = "\<lambda>k. ok (fst (k_readl E a (after_reads E a k (world s))))"
  obtain v w where r: "k_readl E a (world s) = (v, w)" by fastforce
  have w: "after_reads E a k w = after_reads E a (Suc k) (world s)" for k
    using after_reads_simps(2) [of E a k "world s"] r by simp
  show ?case
  proof (cases "ok v")
    case True
    then have P0: "?P 0" by (simp add: r)
    then have "(LEAST k. ?P k) = 0" by (rule Least_eq_0)
    moreover have "after_reads E a (Suc 0) (world s) = w" using w [of 0] by simp
    ultimately show ?thesis using P0 True by (auto simp: prog_simps readl_def sys_def r)
  next
    case False
    then have P0: "\<not> ?P 0" by (simp add: r)
    have ex: "(\<exists>k<Suc n. ?P k) \<longleftrightarrow> (\<exists>k<n. ?P (Suc k))"
      using P0 by (metis Suc_less_eq less_Suc_eq_0_disj)
    have least: "(LEAST k. ?P k) = Suc (LEAST k. ?P (Suc k))" if "?P (Suc j)" for j
      by (rule Least_Suc [OF that P0])
    show ?thesis
      using False Suc.IH [of "s\<lparr>world := w\<rparr>"] ex least
      by (auto simp: prog_simps readl_def sys_def r w)
  qed
qed

section \<open>A device that answers\<close>

text \<open>
  Every buffer can be prepared in one segment, the descriptor buffer at the physical address
  \<open>pa\<close>; the poll of the register that counts the finished jobs, in the block mapped at \<open>base\<close>,
  sees one within its fuel; and the output ring reports the job at \<open>pa\<close> as done without an error.
\<close>

definition caam_live :: "'w env \<Rightarrow> u32 \<Rightarrow> u32 \<Rightarrow> bool" where
  "caam_live E base pa \<longleftrightarrow>
     (\<forall>p bs n fl w. \<exists>pm w'. k_prepare_dma E p bs n fl w = ((1, pm), w') \<and> pm_size pm = n
        \<and> (p = (Job_dsc, 0) \<longrightarrow> ucast (paddr pm) = pa)) \<and>
     (\<forall>w. \<exists>k<poll_fuel E. fst (k_readl E (caam_reg_off CAAM_ORSFR0 + base)
        (after_reads E (caam_reg_off CAAM_ORSFR0 + base) k w)) = 1) \<and>
     (\<forall>w. map (dma_ram E w (Rings, 4)) [0..<8] = le32 pa @ le32 0)"

lemma rets_prepare_bytes:
  assumes "caam_live E base pa"
    and "\<And>pm w. pm_size pm = n \<Longrightarrow> (p = (Job_dsc, 0) \<Longrightarrow> ucast (paddr pm) = pa) \<Longrightarrow>
      Q (1, pm) (s\<lparr>world := w, dma_windows := dma_windows s @
        (if DMA_FLAG_FROM_DEVICE \<in> fl then [(p, unat n)] else [])\<rparr>)"
  shows "rets (prepare_dma_bytes E p bs n fl) Q s"
proof -
  obtain pm w where k: "k_prepare_dma E p bs n fl (world s) = ((1, pm), w)" "pm_size pm = n"
    "p = (Job_dsc, 0) \<Longrightarrow> ucast (paddr pm) = pa"
    using assms(1) unfolding caam_live_def by blast
  then show ?thesis using assms(2) [of pm w]
    by (cases "DMA_FLAG_FROM_DEVICE \<in> fl") (simp_all add: prepare_dma_bytes_def)
qed

lemma rets_prepare:
  assumes "caam_live E base pa" and "in_obj s p (unat n)" and "p \<noteq> (Job_dsc, 0)"
    and "\<And>pm w. pm_size pm = n \<Longrightarrow> Q (1, pm) (s\<lparr>world := w, dma_windows := dma_windows s @
        (if DMA_FLAG_FROM_DEVICE \<in> fl then [(p, unat n)] else [])\<rparr>)"
  shows "rets (prepare_dma E p n fl) Q s"
  using assms by (simp add: prepare_dma_def rets_prepare_bytes)

lemma rets_poll:
  assumes "caam_live E base pa" and "a = caam_reg_off CAAM_ORSFR0 + base" and "\<And>w. Q () (s\<lparr>world := w\<rparr>)"
  shows "rets (poll_reg E (poll_fuel E) a (\<lambda>v. v = 1)) Q s"
proof -
  have "\<exists>k<poll_fuel E. fst (k_readl E a (after_reads E a k (world s))) = 1"
    using assms(1,2) by (simp add: caam_live_def)
  with assms(3) show ?thesis by (simp add: rets_def poll_reg_cases)
qed

lemma rets_clk: "(\<And>w. Q () (s\<lparr>world := w\<rparr>)) \<Longrightarrow> rets (caam_clk_get E) Q s"
  by (simp add: caam_clk_get_def readl_def split: prod.splits)

lemma rets_write_reg [simp]:
  "rets (write_reg E v r) Q s = Q () (s\<lparr>world := k_writel E v (caam_reg_addr s r) (world s)\<rparr>)"
  by (simp add: write_reg_def)

definition win_ok :: "('w, 'z) machine_scheme \<Rightarrow> bool" where
  "win_ok s \<longleftrightarrow> (\<forall>(p, n) \<in> set (dma_windows s). in_obj s p n)"

lemma rets_device_writes:
  assumes "\<forall>(p, n) \<in> set ws. in_obj s p n"
    and "\<And>m. (\<And>b. length (m b) = length (mem s b)) \<Longrightarrow> Q () (s\<lparr>mem := m, dma_windows := []\<rparr>)"
  shows "rets (device_writes E ws) Q s"
  using assms
proof (induction ws arbitrary: s)
  case Nil
  then show ?case using Nil.prems(2) [of "mem s"] by simp
next
  case (Cons pn ws)
  obtain p n where pn: "pn = (p, n)" by (cases pn)
  let ?bs = "map (dma_early E (world s) p) [0..<n]"
  have obj: "in_obj s p (length ?bs)" using Cons.prems(1) pn by simp
  have "rets (device_writes E ws) Q (put_mem p ?bs s)"
  proof (rule Cons.IH)
    show "\<forall>(q, m) \<in> set ws. in_obj (put_mem p ?bs s) q m" using Cons.prems(1) obj by auto
    fix m :: "cobj \<Rightarrow> byte list" assume m: "\<And>b. length (m b) = length (mem (put_mem p ?bs s) b)"
    then have "length (m b) = length (mem s b)" for b using obj by (simp only: length_mem_put_mem)
    then show "Q () ((put_mem p ?bs s)\<lparr>mem := m, dma_windows := []\<rparr>)"
      using Cons.prems(2) [of m] by (simp add: put_mem_def)
  qed
  with obj pn show ?case by simp
qed

text \<open>The driver is up, with its registers mapped at \<open>base\<close>.\<close>

definition caam_up :: "u32 \<Rightarrow> ('w, 'z) caam_state_scheme \<Rightarrow> bool" where
  "caam_up base s \<longleftrightarrow> caam_ready s \<and> caam_base s = base"

lemma caam_up_upd [simp]:
  "caam_up base (s\<lparr>world := w\<rparr>) = caam_up base s"
  "caam_up base (s\<lparr>dma_windows := ws\<rparr>) = caam_up base s"
  "caam_up base (put_mem p bs s) = caam_up base s"
  by (simp_all add: caam_up_def put_mem_def caam_ready_def)

text \<open>
  \<^verbatim>\<open>run_job\<close> returns, with the job's status clear; the last thing it has done is to take the
  finished job off the output ring.
\<close>

lemma rets_run_job:
  fixes s :: "('w, 'z) caam_state_scheme"
  assumes live: "caam_live E base pa" and rdy: "caam_up base s" and fill: "job_filled s" and win: "win_ok s"
    and Q: "\<And>s' j. caam_up base s' \<Longrightarrow> dma_windows s' = [] \<Longrightarrow> g_job s' = Some j \<Longrightarrow> job_status j = 0 \<Longrightarrow>
      (\<And>p n. in_obj s' p n = in_obj s p n) \<Longrightarrow>
      \<exists>w. world s' = k_writel E 1 (caam_reg_off CAAM_ORJRR0 + base) w \<Longrightarrow> Q () s'"
  shows "rets (run_job E) Q s"
proof -
  from rdy obtain r j where rj: "g_rings s = Some r" "g_job s = Some j" and base: "caam_base s = base"
    and dsc: "length (dsc j) = MAX_DSC_NUM" "dsc_used j \<le> MAX_DSC_NUM"
    using fill by (auto simp: caam_up_def caam_ready_def job_filled_def)
  have ring: "map (dma_ram E w (Rings, 4)) [0..<8] = le32 pa @ le32 0" for w
    using live by (simp add: caam_live_def)
  show ?thesis
    unfolding run_job_def
    apply (simp add: rj dsc Let_def)
    apply (rule rets_prepare_bytes [OF live])
    apply (simp add: rj)
    apply (rule rets_prepare_bytes [OF live])
    apply simp
    apply (rule rets_clk, simp)
    apply (rule rets_poll [OF live])
     apply (simp add: caam_reg_addr_def base)
    apply (simp add: device_done_def)
    apply (rule rets_device_writes)
    subgoal using win by (auto simp: win_ok_def in_obj_def)
    apply (simp add: finish_dma_out_def ring of_le32_le32)
    apply (rule Q [where j = "j\<lparr>job_status := 0\<rparr>"])
        apply (auto simp: caam_up_def caam_ready_def rj dsc in_obj_def base caam_reg_addr_def)
    done
qed

lemma rets_set_dsc:
  assumes "caam_up base s" and "length ws \<le> MAX_DSC_NUM"
    and "\<And>s'. caam_up base s' \<Longrightarrow> job_filled s' \<Longrightarrow> dma_windows s' = dma_windows s \<Longrightarrow>
      (\<And>p n. in_obj s' p n = in_obj s p n) \<Longrightarrow> Q () s'"
  shows "rets (set_dsc ws) Q s"
proof -
  from assms(1) obtain r j where rj: "g_rings s = Some r" "g_job s = Some j"
    "length (dsc j) = MAX_DSC_NUM" "caam_base s = base" by (auto simp: caam_up_def caam_ready_def)
  show ?thesis using assms(2)
    by (auto simp: set_dsc_def rj caam_up_def caam_ready_def job_filled_def in_obj_def intro!: assms(3))
qed

text \<open>The end every job shares: submit it, see its status, take the output over.\<close>

lemma rets_submit:
  fixes s :: "('w, 'z) caam_state_scheme"
  assumes live: "caam_live E base pa" and rdy: "caam_up base s" and win: "win_ok s" and ws: "length ws \<le> MAX_DSC_NUM"
    and obj: "in_obj s out (unat n)"
    and k: "\<And>s'. caam_up base s' \<Longrightarrow> dma_windows s' = [] \<Longrightarrow> (\<And>p m. in_obj s' p m = in_obj s p m) \<Longrightarrow> rets k Q s'"
  shows "rets (mthen (set_dsc ws) (mthen (run_job E) (mbind job_failed (\<lambda>failed.
     if failed then mret CAAM_FAILURE else mthen (finish_dma E out n) k)))) Q s"
  unfolding rets_basic(2,3)
proof (rule rets_set_dsc [OF rdy ws])
  fix t :: "('w, 'z) caam_state_scheme"
  assume t: "caam_up base t" "job_filled t" "dma_windows t = dma_windows s" "\<And>p n. in_obj t p n = in_obj s p n"
  show "rets (run_job E) (\<lambda>_. rets job_failed (\<lambda>failed. rets (if failed then mret CAAM_FAILURE
      else mthen (finish_dma E out n) k) Q)) t"
  proof (rule rets_run_job [OF live t(1,2)])
    show "win_ok t" using win t by (simp add: win_ok_def)
    fix u :: "('w, 'z) caam_state_scheme" and j
    assume u: "caam_up base u" "dma_windows u = []" "g_job u = Some j" "job_status j = 0"
      "\<And>p n. in_obj u p n = in_obj t p n"
    show "rets job_failed (\<lambda>failed. rets (if failed then mret CAAM_FAILURE
      else mthen (finish_dma E out n) k) Q) u"
      using u t obj by (simp add: job_failed_def finish_dma_def, intro k) simp_all
  qed
qed

section \<open>The jobs return\<close>

lemma rets_out:
  fixes s :: "('w, 'z) caam_state_scheme"
  assumes live: "caam_live E base pa" and rdy: "caam_up base s" and win: "dma_windows s = []"
    and obj: "in_obj s out (unat n)" "out \<noteq> (Job_dsc, 0)" and ws: "\<And>x. length (ws x) \<le> MAX_DSC_NUM"
  shows "rets (mbind (prepare_dma E out n {DMA_FLAG_FROM_DEVICE}) (\<lambda>(ret, pmem).
     if ret \<noteq> 1 then mret CAAM_FAILURE else let x = ucast (paddr pmem) in
     mthen (set_dsc (ws x)) (mthen (run_job E) (mbind job_failed (\<lambda>failed.
     if failed then mret CAAM_FAILURE else mthen (finish_dma E out n) (mret CAAM_SUCCESS))))))
     (\<lambda>r _. r = CAAM_SUCCESS) s"
  unfolding rets_basic(2) [of "prepare_dma E out n fl" for fl]
proof (rule rets_prepare [OF live obj])
  fix pm w
  let ?t = "s\<lparr>world := w, dma_windows := dma_windows s @ (if DMA_FLAG_FROM_DEVICE \<in> {DMA_FLAG_FROM_DEVICE}
    then [(out, unat n)] else [])\<rparr>"
  have "rets (mthen (set_dsc (ws x)) (mthen (run_job E) (mbind job_failed (\<lambda>failed.
     if failed then mret CAAM_FAILURE else mthen (finish_dma E out n) (mret CAAM_SUCCESS)))))
     (\<lambda>r _. r = CAAM_SUCCESS) ?t" for x
    using rdy obj win ws by (intro rets_submit [OF live]) (simp_all add: win_ok_def)
  then show "rets (case (1, pm) of (ret, pmem) \<Rightarrow> if ret \<noteq> 1 then mret CAAM_FAILURE else
     let x = ucast (paddr pmem) in
     mthen (set_dsc (ws x)) (mthen (run_job E) (mbind job_failed (\<lambda>failed.
     if failed then mret CAAM_FAILURE else mthen (finish_dma E out n) (mret CAAM_SUCCESS)))))
     (\<lambda>r _. r = CAAM_SUCCESS) ?t"
    by (simp add: Let_def del: rets_basic(2,3))
qed

lemma rets_in:
  fixes s :: "('w, 'z) caam_state_scheme"
  assumes live: "caam_live E base pa" and rdy: "caam_up base s" and win: "dma_windows s = []"
    and obj: "in_obj s p (unat n)" "p \<noteq> (Job_dsc, 0)"
    and k: "\<And>x t. caam_up base t \<Longrightarrow> dma_windows t = [] \<Longrightarrow> (\<And>q m. in_obj t q m = in_obj s q m) \<Longrightarrow> rets (k x) Q t"
  shows "rets (mbind (prepare_dma E p n {DMA_FLAG_TO_DEVICE}) (\<lambda>(ret, pmem).
     if ret \<noteq> 1 then mret CAAM_FAILURE else let x = ucast (paddr pmem) in k x)) Q s"
  unfolding rets_basic(2) [of "prepare_dma E p n fl" for fl]
  using rdy win by (intro rets_prepare [OF live obj]) (auto simp: Let_def intro!: k)

text \<open>The preconditions of a job: the driver is up, no window is open, and its buffers exist.\<close>

definition job_pre :: "u32 \<Rightarrow> ('w, 'z) caam_state_scheme \<Rightarrow> (cptr \<times> nat) list \<Rightarrow> bool" where
  "job_pre base s bufs \<longleftrightarrow> caam_up base s \<and> dma_windows s = [] \<and>
     (\<forall>(p, n) \<in> set bufs. in_obj s p n \<and> p \<noteq> (Job_dsc, 0))"

lemma decap_rets:
  assumes live: "caam_live E base pa" and len: "len + CAAM_KB_HEADER_LEN < 0xFFFF"
    and pre: "job_pre base s [(kmod, 16), (blob, unat (len + CAAM_KB_HEADER_LEN)), (plain, unat len)]"
  shows "rets (caam_decap_blob E kmod 16 plain blob len) (\<lambda>r _. r = CAAM_SUCCESS) s"
  unfolding caam_decap_blob_def rets_basic(3,6)
  using len pre
  by (intro conjI rets_in [OF live] rets_out [OF live]) (simp_all add: job_pre_def decap_dsc_def MAX_DSC_NUM_def)

lemma gen_rets:
  assumes live: "caam_live E base pa" and len: "len + CAAM_KB_HEADER_LEN < 0xFFFF"
    and pre: "job_pre base s [(kmod, 16), (plain, unat len), (blob, unat (len + CAAM_KB_HEADER_LEN))]"
  shows "rets (caam_gen_blob E kmod 16 plain blob len) (\<lambda>r _. r = CAAM_SUCCESS) s"
  unfolding caam_gen_blob_def rets_basic(3,6)
  using len pre
  by (intro conjI rets_in [OF live] rets_out [OF live]) (simp_all add: job_pre_def encap_dsc_def MAX_DSC_NUM_def)

lemma aes_rets:
  assumes live: "caam_live E base pa" and len: "len \<le> 0xFFFF" "len mod 16 = 0"
    and pre: "job_pre base s [(key, 16), (inp, unat len), (out, unat len)]"
  shows "rets (caam_aes_op E key 16 inp out len enc) (\<lambda>r _. r = CAAM_SUCCESS) s"
  unfolding caam_aes_op_def rets_basic(3,6)
  using len pre
  by (intro conjI rets_in [OF live] rets_out [OF live]) (simp_all add: job_pre_def aes_dsc_def MAX_DSC_NUM_def)

lemma hash_rets:
  assumes live: "caam_live E base pa" and len: "len \<le> 0xFFFF"
    and pre: "job_pre base s [(inp, unat len), (out, unat len)]"
  shows "rets (caam_hash E inp out len) (\<lambda>r _. r = CAAM_SUCCESS) s"
  unfolding caam_hash_def rets_basic(3,6)
  using len pre
  by (intro conjI rets_in [OF live] rets_out [OF live]) (simp_all add: job_pre_def hash_dsc_def MAX_DSC_NUM_def)

lemma kdfv1_rets:
  assumes live: "caam_live E base pa" and pre: "job_pre base s [(out, 32)]"
  shows "rets (caam_gen_kdfv1_root_key E out 32) (\<lambda>r _. r = CAAM_SUCCESS) s"
  unfolding caam_gen_kdfv1_root_key_def rets_basic(3,6)
  using pre by (intro conjI rets_out [OF live]) (simp_all add: job_pre_def kdfv1_dsc_def MAX_DSC_NUM_def)

text \<open>\<^verbatim>\<open>caam_hwrng\<close>: a device that takes the whole buffer as one segment ends the loop after one round.\<close>

lemma hwrng_rets:
  fixes s :: "('w, 'z) caam_state_scheme"
  assumes live: "caam_live E base pa" and pre: "job_pre base s [(out, unat len)]"
  shows "rets (caam_hwrng E out len) (\<lambda>r _. r = CAAM_SUCCESS) s"
proof (cases "len = 0")
  case True
  then show ?thesis by (simp add: caam_hwrng_def)
next
  case False
  then obtain f where f: "unat len = Suc f" by (cases "unat len") (simp_all add: unat_eq_0)
  have pre': "caam_up base s" "dma_windows s = []" "in_obj s out (unat len)" "out \<noteq> (Job_dsc, 0)"
    using pre by (simp_all add: job_pre_def)
  show ?thesis
    unfolding caam_hwrng_def caam_hwrng_loop.simps if_not_P [OF False]
      rets_basic(2) [of "prepare_dma E out len fl" for fl]
  proof (rule rets_prepare [OF live pre'(3,4)])
    fix pm :: dma_pmem and w
    assume pm: "pm_size pm = len"
    let ?t = "s\<lparr>world := w, dma_windows := dma_windows s @ (if DMA_FLAG_FROM_DEVICE \<in>
      {DMA_FLAG_FROM_DEVICE, DMA_FLAG_ALLOW_PARTIAL} then [(out, unat len)] else [])\<rparr>"
    have fin: "rets (caam_hwrng_loop E (unat len) q 0) (\<lambda>r _. r = CAAM_SUCCESS) t"
      for q and t :: "('w, 'z) caam_state_scheme" by (simp add: f)
    have "rets (mthen (set_dsc ws) (mthen (run_job E) (mbind job_failed (\<lambda>failed.
       if failed then mret CAAM_FAILURE else mthen (finish_dma E out len)
       (caam_hwrng_loop E (unat len) (fst out, snd out + unat len) 0)))))
       (\<lambda>r _. r = CAAM_SUCCESS) ?t" if "length ws \<le> MAX_DSC_NUM" for ws
      using pre' that by (intro rets_submit [OF live] fin) (simp_all add: win_ok_def)
    then show "rets (case (1, pm) of (ret, pmem) \<Rightarrow> if ret \<noteq> 1 then mret CAAM_FAILURE else
       mthen (set_dsc (hwrng_dsc (pm_size pmem) (ucast (paddr pmem)))) (mthen (run_job E)
       (mbind job_failed (\<lambda>failed. if failed then mret CAAM_FAILURE else
       mthen (finish_dma E out (pm_size pmem))
       (caam_hwrng_loop E (unat len) (fst out, snd out + unat (pm_size pmem)) (len - pm_size pmem))))))
       (\<lambda>r _. r = CAAM_SUCCESS) ?t"
      by (simp add: pm hwrng_dsc_def MAX_DSC_NUM_def del: rets_basic(2,3) cong: if_cong)
  qed
qed

end
