(* ===== verification/Boot_Live.thy ===== *)
theory Boot_Live
  imports Main_Loop Caam_Live
begin

text \<open>
  The initialisation returns. With a device that answers, successful mappings and
  allocations, a generator that is instantiated already or can be, and a key box with the
  magic, \<^verbatim>\<open>main\<close> gets to its event loop, with the self tests or without.
\<close>

section \<open>The driver comes up\<close>

text \<open>
  The generator is instantiated already, or its status register says so once the driver has
  taken a finished job off the output ring.
\<close>

definition rng_live :: "'w env \<Rightarrow> u32 \<Rightarrow> bool" where
  "rng_live E base \<longleftrightarrow>
     (\<forall>w. fst (k_readl E (caam_reg_off CAAM_RDSTA + base) w) AND RDSTA_IF0 = RDSTA_IF0) \<or>
     (\<forall>w. fst (k_readl E (caam_reg_off CAAM_RDSTA + base)
        (k_writel E 1 (caam_reg_off CAAM_ORJRR0 + base) w)) = RDSTA_IF0 OR RDSTA_SKVN)"

text \<open>
  A kernel that maps the register block at \<open>base\<close> and never refuses a mapping or an
  allocation, and a device that answers and whose generator can be instantiated.
\<close>

definition boot_live :: "'w env \<Rightarrow> u32 \<Rightarrow> u32 \<Rightarrow> bool" where
  "boot_live E base pa \<longleftrightarrow> caam_live E base pa \<and> base \<noteq> MAP_FAILED \<and>
     (\<forall>n w. fst (k_mmap E n CAAM_MMIO_ID w) = base) \<and> (\<forall>n i w. fst (k_mmap E n i w) \<noteq> MAP_FAILED) \<and>
     (\<forall>a n w. fst (k_memalign E a n w) \<noteq> None) \<and> rng_live E base"

lemma rets_read_reg:
  "(\<And>v w. k_readl E (caam_reg_addr s r) (world s) = (v, w) \<Longrightarrow> Q v (s\<lparr>world := w\<rparr>)) \<Longrightarrow> rets (read_reg E r) Q s"
  by (simp add: read_reg_def readl_def split: prod.splits)

lemma rets_setup_job_rings:
  assumes live: "caam_live E base pa" and up: "caam_up base s"
    and Q: "\<And>t. caam_up base t \<Longrightarrow> dma_windows t = dma_windows s \<Longrightarrow> Q () t"
  shows "rets (setup_job_rings E) Q s"
proof -
  from up obtain r where r: "g_rings s = Some r" by (auto simp: caam_up_def caam_ready_def)
  show ?thesis
    unfolding setup_job_rings_def
    by (simp add: r, rule rets_prepare_bytes [OF live])
       (use up in \<open>auto simp: caam_up_def caam_ready_def intro!: Q\<close>)
qed

lemma rets_read_reg_any: "(\<And>v w. Q v (s\<lparr>world := w\<rparr>)) \<Longrightarrow> rets (read_reg E r) Q s"
  by (rule rets_read_reg)

lemma rets_caam_open_trng: "(\<And>w. Q () (s\<lparr>world := w\<rparr>)) \<Longrightarrow> rets (caam_open_trng E) Q s"
  by (auto simp: caam_open_trng_def intro!: rets_read_reg_any)

text \<open>The instantiation of the generator ends with the state handles the driver asks for.\<close>

lemma rets_caam_open_rng:
  fixes s :: "('w, 'z) caam_state_scheme"
  assumes live: "caam_live E base pa" and up: "caam_up base s" and win: "dma_windows s = []"
    and inst: "\<And>w. fst (k_readl E (caam_reg_off CAAM_RDSTA + base)
      (k_writel E 1 (caam_reg_off CAAM_ORJRR0 + base) w)) = RDSTA_IF0 OR RDSTA_SKVN"
  shows "rets (caam_open_rng E) (\<lambda>_ _. True) s"
proof -
  have len: "length rng_inst_dsc \<le> MAX_DSC_NUM" by (simp add: rng_inst_dsc_def MAX_DSC_NUM_def)
  have last: "rets job_failed (\<lambda>failed. rets (if failed then mstop Abort
      else mbind (read_reg E CAAM_RDSTA) (\<lambda>v. if v \<noteq> RDSTA_IF0 OR RDSTA_SKVN
      then mstop Abort else mret ())) (\<lambda>_ _. True)) u"
    if u: "caam_up base u" "g_job u = Some j" "job_status j = 0"
      "\<exists>w. world u = k_writel E 1 (caam_reg_off CAAM_ORJRR0 + base) w" for u :: "('w, 'z) caam_state_scheme" and j
  proof -
    obtain w where w: "world u = k_writel E 1 (caam_reg_off CAAM_ORJRR0 + base) w" using u(4) by blast
    have "v = RDSTA_IF0 OR RDSTA_SKVN" if "k_readl E (caam_reg_addr u CAAM_RDSTA) (world u) = (v, w')" for v w'
      using inst [of w] that u(1) by (simp add: w caam_reg_addr_def caam_up_def)
    then show ?thesis using u(2,3) by (simp add: job_failed_def) (rule rets_read_reg, simp)
  qed
  show ?thesis
    unfolding caam_open_rng_def rets_basic(2,3,6)
    by (intro conjI rets_set_dsc [OF up len] rets_run_job [OF live] last)
       (use len win in \<open>auto simp: win_ok_def\<close>)
qed

text \<open>The generator is instantiated when it is not, and left alone when it is.\<close>

lemma rets_open_generator:
  fixes s :: "('w, 'z) caam_state_scheme"
  assumes live: "boot_live E base pa" and up: "caam_up base s" and win: "dma_windows s = []"
  shows "rets (mbind (read_reg E CAAM_RDSTA) (\<lambda>v. if v AND RDSTA_IF0 \<noteq> RDSTA_IF0
     then mthen (caam_open_trng E) (caam_open_rng E) else mret ())) (\<lambda>_ _. True) s"
proof -
  have c: "caam_live E base pa" and r: "rng_live E base" using live by (simp_all add: boot_live_def)
  have "rets (mthen (caam_open_trng E) (caam_open_rng E)) (\<lambda>_ _. True) (s\<lparr>world := w\<rparr>)"
    if "k_readl E (caam_reg_addr s CAAM_RDSTA) (world s) = (v, w)" "v AND RDSTA_IF0 \<noteq> RDSTA_IF0" for v w
  proof -
    have "fst (k_readl E (caam_reg_off CAAM_RDSTA + base) (world s)) = v"
      using that(1) up by (simp add: caam_reg_addr_def caam_up_def)
    then have "fst (k_readl E (caam_reg_off CAAM_RDSTA + base)
        (k_writel E 1 (caam_reg_off CAAM_ORJRR0 + base) w)) = RDSTA_IF0 OR RDSTA_SKVN" for w
      using r that(2) unfolding rng_live_def by metis
    then show ?thesis
      unfolding rets_basic(3) using up win
      by (intro rets_caam_open_trng rets_caam_open_rng [OF c]) simp_all
  qed
  then show ?thesis by (subst rets_basic(2), intro rets_read_reg) simp
qed

lemma caam_open_rets:
  fixes s :: "('w, 'z) caam_state_scheme"
  assumes live: "boot_live E base pa" and up: "caam_up base s" and win: "dma_windows s = []"
  shows "rets (caam_open E) (\<lambda>_ _. True) s"
proof -
  have c: "caam_live E base pa" using live by (simp add: boot_live_def)
  have cfg: "rets (mbind (read_reg E CAAM_JRCFGR0_LS) (\<lambda>v.
     mthen (write_reg E (v OR JRCFG_LS_IMSK) CAAM_JRCFGR0_LS)
     (mbind (read_reg E CAAM_RDSTA) (\<lambda>v. if v AND RDSTA_IF0 \<noteq> RDSTA_IF0
     then mthen (caam_open_trng E) (caam_open_rng E) else mret ())))) (\<lambda>_ _. True) t"
    if t: "caam_up base t" "dma_windows t = []" for t :: "('w, 'z) caam_state_scheme"
    unfolding rets_basic(2) [of "read_reg E CAAM_JRCFGR0_LS"] rets_basic(3) rets_write_reg
    by (intro rets_read_reg rets_open_generator [OF live, unfolded rets_basic(3)]) (simp_all add: t)
  show ?thesis
    unfolding caam_open_def rets_basic(3)
    by (intro rets_clk rets_setup_job_rings [OF c] cfg [unfolded rets_basic(3)]) (simp_all add: up win)
qed

section \<open>The self tests return\<close>

lemma test_inv_pre:
  assumes "test_inv L s0 s" and "\<forall>(nm, k) \<in> set bufs. \<exists>n. (nm, n) \<in> set L \<and> k \<le> n"
  shows "job_pre (caam_base s0) s (map (\<lambda>(nm, k). ((Local nm, 0), k)) bufs)"
proof -
  have "in_obj s (Local nm, 0) k" if "(nm, k) \<in> set bufs" for nm k
    using assms that by (blast intro: test_inv_obj)
  with assms(1) show ?thesis by (auto simp: job_pre_def caam_up_def test_inv_def drv_frame_def)
qed

text \<open>The jobs of a test: with a device that answers each returns, and the test goes on.\<close>

lemma rets_local_buf:
  "test_inv L s0 s \<Longrightarrow> (\<And>s'. test_inv ((nm, n) # filter (\<lambda>(m, _). m \<noteq> nm) L) s0 s' \<Longrightarrow> Q () s') \<Longrightarrow>
    rets (local_buf E nm n) Q s"
  by (rule rets_of_wp [OF _ wp_local_buf]) (simp_all add: local_buf_def)

lemma rets_test_write:
  "test_inv L s0 s \<Longrightarrow> (nm, n) \<in> set L \<Longrightarrow> length bs \<le> n \<Longrightarrow> (\<And>s'. test_inv L s0 s' \<Longrightarrow> Q () s') \<Longrightarrow>
    rets (mwrite (Local nm, 0) bs) Q s"
  by (simp add: test_inv_obj test_inv_put)

lemma rets_test_memset:
  "test_inv L s0 s \<Longrightarrow> (nm, n) \<in> set L \<Longrightarrow> k \<le> n \<Longrightarrow> (\<And>s'. test_inv L s0 s' \<Longrightarrow> Q () s') \<Longrightarrow>
    rets (memset (Local nm, 0) v k) Q s"
  unfolding memset_def by (rule rets_test_write) simp_all

lemma rets_test_memcmp:
  "test_inv L s0 s \<Longrightarrow> (nm, n) \<in> set L \<Longrightarrow> (nm', n') \<in> set L \<Longrightarrow> k \<le> n \<Longrightarrow> k \<le> n' \<Longrightarrow> (\<And>b. Q b s) \<Longrightarrow>
    rets (memcmp (Local nm, 0) (Local nm', 0) k) Q s"
  by (simp add: memcmp_def test_inv_obj)

lemma rets_test_hwrng:
  assumes "caam_live E (caam_base s0) pa" "dma_ok E" "test_inv L s0 s" and "(nm, n) \<in> set L" and "unat len \<le> n"
    and "\<And>r s'. test_inv L s0 s' \<Longrightarrow> Q r s'"
  shows "rets (caam_hwrng E (Local nm, 0) len) Q s"
proof (rule rets_of_wp [OF _ wp_test_hwrng [OF assms(2-6)]])
  show "rets (caam_hwrng E (Local nm, 0) len) (\<lambda>_ _. True) s"
    using assms test_inv_pre [OF assms(3), of "[(nm, unat len)]"]
    by (intro rets_mono [OF hwrng_rets [OF assms(1)]]) auto
qed

lemma rets_test_gen_blob:
  assumes "caam_live E (caam_base s0) pa" "dma_ok E" "test_inv L s0 s"
    and "(km, 16) \<in> set L" "(pl, n) \<in> set L" "(bl, m) \<in> set L"
    and "unat len \<le> n" "unat (len + CAAM_KB_HEADER_LEN) \<le> m" and "\<And>r s'. test_inv L s0 s' \<Longrightarrow> Q r s'"
    and "len + CAAM_KB_HEADER_LEN < 0xFFFF"
  shows "rets (caam_gen_blob E (Local km, 0) 16 (Local pl, 0) (Local bl, 0) len) Q s"
proof (rule rets_of_wp [OF _ wp_test_gen_blob [OF assms(2-9)]])
  show "rets (caam_gen_blob E (Local km, 0) 16 (Local pl, 0) (Local bl, 0) len) (\<lambda>_ _. True) s"
    using assms test_inv_pre [OF assms(3), of "[(km, 16), (pl, unat len), (bl, unat (len + CAAM_KB_HEADER_LEN))]"]
    by (intro rets_mono [OF gen_rets [OF assms(1)]]) auto
qed

lemma rets_test_decap_blob:
  assumes "caam_live E (caam_base s0) pa" "dma_ok E" "test_inv L s0 s"
    and "(km, 16) \<in> set L" "(pl, n) \<in> set L" "(bl, m) \<in> set L"
    and "unat len \<le> n" "unat (len + CAAM_KB_HEADER_LEN) \<le> m" and "\<And>r s'. test_inv L s0 s' \<Longrightarrow> Q r s'"
    and "len + CAAM_KB_HEADER_LEN < 0xFFFF"
  shows "rets (caam_decap_blob E (Local km, 0) 16 (Local pl, 0) (Local bl, 0) len) Q s"
proof (rule rets_of_wp [OF _ wp_test_decap_blob [OF assms(2-9)]])
  show "rets (caam_decap_blob E (Local km, 0) 16 (Local pl, 0) (Local bl, 0) len) (\<lambda>_ _. True) s"
    using assms test_inv_pre [OF assms(3), of "[(km, 16), (bl, unat (len + CAAM_KB_HEADER_LEN)), (pl, unat len)]"]
    by (intro rets_mono [OF decap_rets [OF assms(1)]]) auto
qed

lemma rets_test_aes:
  assumes "caam_live E (caam_base s0) pa" "dma_ok E" "test_inv L s0 s"
    and "(ky, 16) \<in> set L" "(i, n) \<in> set L" "(ou, m) \<in> set L"
    and "unat len \<le> n" "unat len \<le> m" and "\<And>r s'. test_inv L s0 s' \<Longrightarrow> Q r s'" and "len \<le> 0xFFFF" "len mod 16 = 0"
  shows "rets (caam_aes_op E (Local ky, 0) 16 (Local i, 0) (Local ou, 0) len enc) Q s"
proof (rule rets_of_wp [OF _ wp_test_aes [OF assms(2-9)]])
  show "rets (caam_aes_op E (Local ky, 0) 16 (Local i, 0) (Local ou, 0) len enc) (\<lambda>_ _. True) s"
    using assms test_inv_pre [OF assms(3), of "[(ky, 16), (i, unat len), (ou, unat len)]"]
    by (intro rets_mono [OF aes_rets [OF assms(1)]]) auto
qed

lemma rets_test_hash:
  assumes "caam_live E (caam_base s0) pa" "dma_ok E" "test_inv L s0 s" and "(i, n) \<in> set L" "(ou, m) \<in> set L"
    and "unat len \<le> n" "unat len \<le> m" and "\<And>r s'. test_inv L s0 s' \<Longrightarrow> Q r s'" and "len \<le> 0xFFFF"
  shows "rets (caam_hash E (Local i, 0) (Local ou, 0) len) Q s"
proof (rule rets_of_wp [OF _ wp_test_hash [OF assms(2-8)]])
  show "rets (caam_hash E (Local i, 0) (Local ou, 0) len) (\<lambda>_ _. True) s"
    using assms test_inv_pre [OF assms(3), of "[(i, unat len), (ou, unat len)]"]
    by (intro rets_mono [OF hash_rets [OF assms(1)]]) auto
qed

lemma rets_test_kdf:
  assumes "caam_live E (caam_base s0) pa" "dma_ok E" "test_inv L s0 s" and "(ou, 32) \<in> set L"
    and "\<And>r s'. test_inv L s0 s' \<Longrightarrow> Q r s'"
  shows "rets (caam_gen_kdfv1_root_key E (Local ou, 0) 32) Q s"
proof (rule rets_of_wp [OF _ wp_test_kdf [OF assms(2-4) _ assms(5)]])
  show "rets (caam_gen_kdfv1_root_key E (Local ou, 0) 32) (\<lambda>_ _. True) s"
    using assms test_inv_pre [OF assms(3), of "[(ou, 32)]"]
    by (intro rets_mono [OF kdfv1_rets [OF assms(1)]]) auto
qed simp_all

lemmas rets_test_rules = rets_local_buf rets_test_write rets_test_memset rets_test_memcmp rets_test_hwrng
  rets_test_gen_blob rets_test_decap_blob rets_test_aes rets_test_hash rets_test_kdf

lemma tests_return:
  assumes "caam_live E (caam_base s0) pa" "dma_ok E" and "test_inv [] s0 s"
  shows "rets (caam_hwrng_test E) (\<lambda>_. test_inv [] s0) s" "rets (caam_blob_test E) (\<lambda>_. test_inv [] s0) s"
    "rets (caam_kdfv1_root_key_test E) (\<lambda>_. test_inv [] s0) s" "rets (caam_aes_test E) (\<lambda>_. test_inv [] s0) s"
    "rets (caam_hash_test E) (\<lambda>_. test_inv [] s0) s"
  unfolding caam_hwrng_test_def caam_blob_test_def caam_kdfv1_root_key_test_def caam_aes_test_def caam_hash_test_def
    rets_basic
  by (insert assms, (rule rets_test_rules | assumption | erule test_inv_forget
      | (simp add: pattern_def CAAM_KB_HEADER_LEN_def; fail))+)

lemma caam_test_rets:
  assumes live: "caam_live E (caam_base s) pa" and ok: "dma_ok E" and rdy: "caam_ready s" "dma_windows s = []"
  shows "rets (caam_test E) (\<lambda>_. test_inv [] s) s"
proof -
  have "test_inv [] s s" using rdy by (simp add: test_inv_def)
  then show ?thesis
    unfolding caam_test_def rets_basic
    by (intro tests_return [OF live ok, THEN rets_mono])
qed

section \<open>The driver's environment comes up\<close>

lemma rets_mmap:
  assumes "boot_live E base pa"
    and "\<And>a w. (i = CAAM_MMIO_ID \<Longrightarrow> a = base) \<Longrightarrow> a \<noteq> MAP_FAILED \<Longrightarrow> Q a (s\<lparr>world := w\<rparr>)"
  shows "rets (sys (k_mmap E n i)) Q s"
proof -
  obtain a w where k: "k_mmap E n i (world s) = (a, w)" by fastforce
  have "a \<noteq> MAP_FAILED" "i = CAAM_MMIO_ID \<Longrightarrow> a = base"
    using assms(1) k unfolding boot_live_def by (metis fst_conv)+
  then show ?thesis using assms(2) [of a w] by (simp add: k)
qed

lemma rets_memalign:
  assumes "boot_live E base pa" and "\<And>f w. Q (Some f) (s\<lparr>world := w\<rparr>)"
  shows "rets (sys (k_memalign E al n)) Q s"
proof -
  have "fst (k_memalign E al n (world s)) \<noteq> None" using assms(1) unfolding boot_live_def by blast
  then show ?thesis using assms(2) by (auto split: prod.splits)
qed

lemma init_caam_env_rets:
  fixes s :: "('w, 'z) caam_state_scheme"
  assumes live: "boot_live E base pa" and ok: "dma_ok E" and win: "dma_windows s = []"
  shows "rets (init_caam_env E) (\<lambda>rc t. rc = 0 \<and> caam_base t = base) s"
proof -
  have open_rets: "rets (caam_open E) (\<lambda>_ u. caam_base u = base \<and> caam_ready u \<and> dma_windows u = []) t"
    if t: "caam_up base t" "dma_windows t = []" for t :: "('w, 'z) caam_state_scheme"
    using t by (intro rets_of_wp [OF caam_open_rets [OF live t]] wp_caam_open [OF ok])
      (auto simp: caam_up_def init_frame_def drv_frame_def)
  have "rets (caam_test E) (\<lambda>_ u. caam_base u = base) t"
    if "caam_base t = base" "caam_ready t" "dma_windows t = []" for t :: "('w, 'z) caam_state_scheme"
    using that live by (intro rets_mono [OF caam_test_rets [OF _ ok, where pa = pa]])
      (auto simp: boot_live_def test_inv_def drv_frame_def)
  then have test: "rets (caam_open E) (\<lambda>_. rets (caam_test E) (\<lambda>_ u. caam_base u = base)) t"
    if "caam_up base t" "dma_windows t = []" for t :: "('w, 'z) caam_state_scheme"
    by (intro rets_mono [OF open_rets [OF that]]) simp
  have no_test: "rets (caam_open E) (\<lambda>_ u. caam_base u = base) t"
    if "caam_up base t" "dma_windows t = []" for t :: "('w, 'z) caam_state_scheme"
    by (intro rets_mono [OF open_rets [OF that]]) simp
  show ?thesis
    unfolding init_caam_env_def rets_basic(2)
    using win
    by (intro rets_mmap [OF live] rets_memalign [OF live])
       (cases "with_caam_self_test E"; auto simp del: rets_machine(1) simp: sizeof_caam_job_rings_def caam_up_def caam_ready_def
         intro!: rets_mmap [OF live] rets_memalign [OF live] test no_test)
qed

section \<open>The providers come up\<close>

lemma rets_memset [simp]:
  "rets (memset p v n) Q s = (in_obj s p n \<and> Q () (put_mem p (replicate n v) s))"
  by (simp add: memset_def)

lemma rets_memcpy [simp]:
  "rets (memcpy d p n) Q s = (in_obj s p n \<and> in_obj s d n \<and> Q () (put_mem d (take n (drop (snd p) (mem s (fst p)))) s))"
proof (cases "in_obj s p n")
  case True
  then have "length (take n (drop (snd p) (mem s (fst p)))) = n" by (auto simp: in_obj_def)
  with True show ?thesis by (simp add: memcpy_def)
qed (simp add: memcpy_def)

text \<open>
  The secrets of the key service once it is up, as they come from the key box: the RPMB blob,
  taken over exactly when its recorded length is right, and the key modifier as it was loaded.
\<close>

definition secrets_from :: "('w, 'z) hwkey_state_scheme \<Rightarrow> ('w, 'z) hwkey_state_scheme \<Rightarrow> bool" where
  "secrets_from s s' \<longleftrightarrow>
     rpmb_keyblob_len s' = (if of_le32 (kbox_field s 4 4) = RPMBKEY_LEN then RPMBKEY_LEN else 0)
     \<and> mem s' Rpmb_keyblob = (if of_le32 (kbox_field s 4 4) = RPMBKEY_LEN then kbox_field s 8 80 else mem s Rpmb_keyblob)
     \<and> mem s' Skeymod = mem s Skeymod"

text \<open>
  Unpacking the key box returns when the root key job does; \<open>R\<close> is what the job promises of the
  key it generates.
\<close>

lemma unpack_kbox_rets_key:
  fixes s :: "('w, 'z) hwkey_state_scheme"
  assumes ok: "dma_ok E" and rdy: "key_ready s" and sram: "1172 \<le> length (mem s Sram)"
    and magic: "strncmp_eq (kbox_field s 0 4) (clit KEYPACK_MAGIC) 4" and unset: "rpmb_keyblob_len s = 0"
    and job: "\<And>t :: ('w, 'z) hwkey_state_scheme. job_pre (caam_base s) t [((Kdfv1_key, 0), 32)] \<Longrightarrow>
      length (mem t Kdfv1_key) = 32 \<Longrightarrow> rets (caam_gen_kdfv1_root_key E (Kdfv1_key, 0) 32) (\<lambda>r u. r = CAAM_SUCCESS \<and> R (mem u Kdfv1_key)) t"
  shows "rets (unpack_kbox E) (\<lambda>_ s'. R (mem s' Kdfv1_key) \<and> kbox_post E s s') s"
proof -
  have len: "length (mem s Kdfv1_key) = 32" "length (mem s Rpmb_keyblob) = 80" "caam_ready s" "dma_windows s = []"
    using rdy by (simp_all add: key_ready_def key_bufs_def)
  have kdf: "rets (caam_gen_kdfv1_root_key E (Kdfv1_key, 0) 32)
      (\<lambda>res u. (res = CAAM_SUCCESS \<and> R (mem u Kdfv1_key)) \<and> length (mem u Sram) = length (mem s Sram)) t"
    if t: "caam_ready t" "dma_windows t = []" "caam_base t = caam_base s" "\<And>b. length (mem t b) = length (mem s b)"
    for t :: "('w, 'z) hwkey_state_scheme"
  proof (rule rets_wp)
    show "rets (caam_gen_kdfv1_root_key E (Kdfv1_key, 0) 32) (\<lambda>r u. r = CAAM_SUCCESS \<and> R (mem u Kdfv1_key)) t"
      using t len by (intro job) (simp_all add: job_pre_def caam_up_def in_obj_def)
    show "wp (caam_gen_kdfv1_root_key E (Kdfv1_key, 0) 32) (\<lambda>_ u. length (mem u Sram) = length (mem s Sram)) t"
      using t len by (intro wp_caam_gen_kdfv1_root_key [OF ok]) (auto simp: in_obj_def job_post_def)
  qed
  have "rets (unpack_kbox E) (\<lambda>_ s'. R (mem s' Kdfv1_key)) s"
    unfolding unpack_kbox_def Let_def caam_get_keybox_def
    using sram len magic unset
    by (auto simp: in_obj_def kbox_field_def kbox_layout caam_ready_def put_mem_def intro!: rets_mono [OF kdf])
  from rets_wp [OF this wp_unpack_kbox [OF ok rdy sram]] show ?thesis .
qed

lemma unpack_kbox_rets:
  fixes s :: "('w, 'z) hwkey_state_scheme"
  assumes "caam_live E (caam_base s) pa" "dma_ok E" "key_ready s" "1172 \<le> length (mem s Sram)"
    and "strncmp_eq (kbox_field s 0 4) (clit KEYPACK_MAGIC) 4" "rpmb_keyblob_len s = 0"
  shows "rets (unpack_kbox E) (\<lambda>_. kbox_post E s) s"
proof -
  have "rets (caam_gen_kdfv1_root_key E (Kdfv1_key, 0) 32) (\<lambda>r u. r = CAAM_SUCCESS \<and> True) t"
    if "job_pre (caam_base s) t [((Kdfv1_key, 0), 32)]" for t :: "('w, 'z) hwkey_state_scheme"
    using kdfv1_rets [OF assms(1) that] by simp
  from unpack_kbox_rets_key [where R = "\<lambda>_. True", OF assms(2-6) this] show ?thesis by simp
qed

lemma hwkey_init_rets:
  fixes s :: "('w, 'z) hwkey_state_scheme"
  assumes "dma_ok E" and "key_ready s" and "1172 \<le> length (mem s Sram)"
    and "strncmp_eq (kbox_field s 0 4) (clit KEYPACK_MAGIC) 4" and "rpmb_keyblob_len s = 0"
    and "\<And>t :: ('w, 'z) hwkey_state_scheme. job_pre (caam_base s) t [((Kdfv1_key, 0), 32)] \<Longrightarrow>
      length (mem t Kdfv1_key) = 32 \<Longrightarrow> rets (caam_gen_kdfv1_root_key E (Kdfv1_key, 0) 32) (\<lambda>r u. r = CAAM_SUCCESS \<and> R (mem u Kdfv1_key)) t"
    and "key_slots s = None" "key_slot_cnt s = 0"
  shows "rets (hwkey_init_srv_provider E) (\<lambda>_ t. caam_base t = caam_base s \<and> key_slot_cnt t = 1 \<and>
    secrets_from s t \<and> R (mem t Kdfv1_key)) s"
  unfolding hwkey_init_srv_provider_def rets_basic(3) [of "unpack_kbox E"]
  using assms(7,8) by (intro rets_mono [OF unpack_kbox_rets_key [OF assms(1-6)]])
    (auto simp: kbox_post_def secrets_from_def hwkey_install_keys_def hwkey_start_service_def keys_def close_def Let_def
      split: prod.splits)

text \<open>The application gets to its event loop, in a state that satisfies the invariant.\<close>

lemma main_init_rets_key:
  fixes s :: "('w, 'z) hwkey_state_scheme"
  assumes env: "env_ok ck E" and boot: "boot_state ck s" and live: "boot_live E base pa"
    and magic: "strncmp_eq (kbox_field s 0 4) (clit KEYPACK_MAGIC) 4"
    and job: "\<And>t :: ('w, 'z) hwkey_state_scheme. job_pre base t [((Kdfv1_key, 0), 32)] \<Longrightarrow>
      length (mem t Kdfv1_key) = 32 \<Longrightarrow> rets (caam_gen_kdfv1_root_key E (Kdfv1_key, 0) 32) (\<lambda>r u. r = CAAM_SUCCESS \<and> R (mem u Kdfv1_key)) t"
  shows "rets (main_init E) (\<lambda>rc s'. rc = 0 \<and> caam_base s' = base \<and> key_slot_cnt s' = 1 \<and>
    secrets_from s s' \<and> R (mem s' Kdfv1_key)) s"
proof -
  note ok = env_okD(1) [OF env]
  have win: "dma_windows s = []" using boot by (simp add: boot_state_def)
  let ?Q = "\<lambda>u. caam_base u = base \<and> key_slot_cnt u = 1 \<and> secrets_from s u \<and> R (mem u Kdfv1_key)"
  have key: "rets (hwkey_init_srv_provider E) (\<lambda>_. ?Q) t"
    if t: "caam_base t = base" "caam_ready t" "dma_windows t = []" "\<And>b. (\<forall>nm. b \<noteq> Local nm) \<Longrightarrow> mem t b = mem s b"
      "rpmb_keyblob_len t = 0" "key_slots t = None" "key_slot_cnt t = 0" for t :: "('w, 'z) hwkey_state_scheme"
    using boot magic t
    by (intro rets_mono [OF hwkey_init_rets [OF ok _ _ _ _ job]])
       (auto simp: key_ready_def key_bufs_def boot_state_def kbox_layout kbox_field_def skeymod_def secrets_from_def)
  have rng: "rets (hwrng_init_srv_provider E) (\<lambda>_. rets (hwkey_init_srv_provider E) (\<lambda>_. ?Q)) t"
    if t: "caam_base t = base" "caam_ready t" "init_post s t" for t :: "('w, 'z) hwkey_state_scheme"
  proof -
    have "caam_state.more t = caam_state.more s" using t(3) by (simp add: init_post_def)
    note sel = hwkey_more_sel [OF this]
    show ?thesis
      using boot t(2,3) unfolding hwrng_init_srv_provider_def hwrng_start_service_def
      by (auto simp: init_post_def sel boot_state_def caam_ready_def intro!: key [OF trans [OF _ t(1)]] split: prod.splits)
  qed
  have "wp (init_caam_env E) (\<lambda>rc t. rc = 0 \<longrightarrow> caam_ready t \<and> init_post s t) s"
    using env_okD(3) [OF env] by (intro wp_init_caam_env [OF ok win]) (auto simp: err_ok_def)
  from rets_wp [OF init_caam_env_rets [OF live ok win] this] show ?thesis
    unfolding main_init_def rets_basic(2) by (rule rets_mono) (simp add: rng)
qed

lemma main_init_rets:
  fixes s :: "('w, 'z) hwkey_state_scheme"
  assumes env: "env_ok ck E" and boot: "boot_state ck s" and live: "boot_live E base pa"
    and magic: "strncmp_eq (kbox_field s 0 4) (clit KEYPACK_MAGIC) 4"
  shows "rets (main_init E) (\<lambda>rc s'. rc = 0 \<and> app_inv ck s' \<and> key_slots s' = Some (keys E) \<and> caam_base s' = base) s"
proof -
  have l: "caam_live E base pa" using live by (simp add: boot_live_def)
  have "rets (caam_gen_kdfv1_root_key E (Kdfv1_key, 0) 32) (\<lambda>r u. r = CAAM_SUCCESS \<and> True) t"
    if "job_pre base t [((Kdfv1_key, 0), 32)]" for t :: "('w, 'z) hwkey_state_scheme"
    using kdfv1_rets [OF l that] by simp
  from rets_wp [OF main_init_rets_key [where R = "\<lambda>_. True", OF assms this] wp_main_init [OF env boot]]
  have "rets (main_init E) (\<lambda>rc s'. (rc = 0 \<and> caam_base s' = base \<and> key_slot_cnt s' = 1 \<and> secrets_from s s' \<and> True) \<and>
      (rc = 0 \<longrightarrow> app_inv ck s' \<and> key_slots s' = Some (keys E) \<and>
       all_zero (take sizeof_keyslot_package (mem s' Sram)))) s" .
  then show ?thesis by (rule rets_mono) blast
qed

end
