(* ===== verification/Serve_Live.thy ===== *)
theory Serve_Live
  imports Boot_Live
begin

text \<open>
  Serving requests returns. With a device that answers and events of the kinds a handle can
  have, no handler aborts, fails an assertion or polls for ever, so that every turn of the
  event loop comes back to \<^verbatim>\<open>wait_any\<close>. The services rely on their providers through the
  locales of their theories, extended by the laws that say when a provider returns.
\<close>

section \<open>System calls and messages\<close>

lemma rets_close [simp]: "rets (close E h) Q s = Q () (s\<lparr>world := k_close E h (world s)\<rparr>)"
  by (simp add: close_def)

lemma rets_calloc:
  assumes "\<And>w. Q 0 (s\<lparr>world := w\<rparr>)"
    and "\<And>w. Q (heap_next s) (s\<lparr>world := w, heap_next := Suc (heap_next s)\<rparr>)"
  shows "rets (calloc E) Q s"
  using assms by (simp add: calloc_def split: prod.splits)

lemma rets_recv_single:
  "(\<And>r w. Q r (s\<lparr>world := w\<rparr>)) \<Longrightarrow> rets (tipc_recv_single_buf E chan len) Q s"
  by (auto simp: tipc_recv_single_buf_def split: prod.splits)

lemma rets_recv_two:
  assumes ok: "ipc_ok E" and obj: "in_obj s p n"
  shows "rets (tipc_recv_two_segments E chan h p n) (\<lambda>_ _. True) s"
proof -
  have "in_obj s p (length bs - h)" if "k_get_msg E chan w = ((0, mi), w1)" "\<not> rc < 0"
    "k_read_msg E chan (msg_id mi) [h, n] w1 = ((rc, bs), w2)" for w mi w1 rc bs w2
    using ipc_okD(2) [OF ok that(1) refl that(3)] that(2) obj by (auto simp: in_obj_def)
  then show ?thesis
    unfolding tipc_recv_two_segments_def by (auto split: prod.splits)
qed

lemma rets_port_errors [simp]:
  "rets (tipc_handle_port_errors ev) Q s \<longleftrightarrow> ev_event ev \<inter> {IPC_HANDLE_POLL_ERROR,
     IPC_HANDLE_POLL_HUP, IPC_HANDLE_POLL_MSG, IPC_HANDLE_POLL_SEND_UNBLOCKED} = {} \<and> Q () s"
  by (auto simp: tipc_handle_port_errors_def rets_def prog_simps)

lemma rets_chan_errors [simp]:
  "rets (tipc_handle_chan_errors ev) Q s \<longleftrightarrow> ev_event ev \<inter> {IPC_HANDLE_POLL_ERROR, IPC_HANDLE_POLL_READY} = {} \<and> Q () s"
  by (auto simp: tipc_handle_chan_errors_def rets_def prog_simps)

section \<open>The random number service\<close>

text \<open>With a device that answers, a pass over the pending requests returns.\<close>

definition serve_ok :: "u32 \<Rightarrow> nat list \<Rightarrow> ('w, 'z) hwrng_state_scheme \<Rightarrow> bool" where
  "serve_ok base ps s \<longleftrightarrow> caam_up base s \<and> dma_windows s = [] \<and> length (mem s Rng_data) = unat MAX_HWRNG_MSG_SIZE \<and>
     distinct ps \<and> set ps \<subseteq> dom (rng_ctxs s)"

lemma serve_ok_upd [simp]:
  "serve_ok base ps (s\<lparr>world := w\<rparr>) = serve_ok base ps s"
  "serve_ok base ps (s\<lparr>hwrng_req_list := l\<rparr>) = serve_ok base ps s"
  by (simp_all add: serve_ok_def caam_up_def caam_ready_def)

lemma serve_ok_ctx:
  assumes "serve_ok base (p # ps) s"
  shows "serve_ok base ps (s\<lparr>rng_ctxs := (rng_ctxs s)(p := x)\<rparr>)" "serve_ok base ps s"
  using assms by (auto simp: serve_ok_def caam_up_def caam_ready_def)

lemma dev_rets:
  fixes s :: "('w, 'z) hwrng_state_scheme"
  assumes ok: "dma_ok E" and live: "caam_live E base pa" and s: "serve_ok base ps s" and n: "unat n \<le> unat MAX_HWRNG_MSG_SIZE"
    and Q: "\<And>t. serve_ok base ps t \<Longrightarrow> rng_ctxs t = rng_ctxs s \<Longrightarrow> Q () t"
  shows "rets (hwrng_dev_get_rng_data E (Rng_data, 0) n) Q s"
proof -
  have pre: "job_pre base s [((Rng_data, 0), unat n)]" "caam_ready s" "dma_windows s = []" "in_obj s (Rng_data, 0) (unat n)"
    using s n by (simp_all add: job_pre_def serve_ok_def in_obj_def caam_up_def)
  have "wp (caam_hwrng E (Rng_data, 0) n) (\<lambda>_. out_frame (Rng_data, 0) (unat n) s) s"
    by (rule wp_caam_hwrng [OF ok pre(2-4)])
  from rets_wp [OF hwrng_rets [OF live pre(1)] this]
  have "rets (caam_hwrng E (Rng_data, 0) n) (\<lambda>r t. r = CAAM_SUCCESS \<and> serve_ok base ps t \<and> rng_ctxs t = rng_ctxs s) s"
  proof (rule rets_mono)
    fix r t assume "r = CAAM_SUCCESS \<and> out_frame (Rng_data, 0) (unat n) s t"
    then have r: "r = CAAM_SUCCESS" and t: "out_frame (Rng_data, 0) (unat n) s t" by simp_all
    then obtain bs where bs: "length bs = unat n" "mem t = mem (put_mem (Rng_data, 0) bs s)" by (auto simp: out_frame_def)
    have f: "caam_state.more t = caam_state.more s" "caam_base t = caam_base s" "caam_ready t" "dma_windows t = []"
      using t pre(2) by (simp_all add: out_frame_def drv_frame_def)
    have "length (mem t Rng_data) = length (mem s Rng_data)" using bs pre(4) by (simp add: in_obj_def)
    with r f s show "r = CAAM_SUCCESS \<and> serve_ok base ps t \<and> rng_ctxs t = rng_ctxs s"
      using hwrng_more_sel [OF f(1)] by (simp add: serve_ok_def caam_up_def)
  qed
  then show ?thesis
    unfolding hwrng_dev_get_rng_data_def rets_basic(2) by (rule rets_mono) (simp add: Q)
qed

lemma serve_rets:
  fixes s :: "('w, 'z) hwrng_state_scheme"
  assumes ok: "dma_ok E" and live: "caam_live E base pa"
  shows "serve_ok base ps s \<Longrightarrow> rets (hwrng_serve E (hwrng_dev_get_rng_data E) ps need) (\<lambda>_. serve_ok base []) s"
proof (induction ps arbitrary: s need)
  case (Cons p ps)
  then obtain c where c: "rng_ctxs s p = Some c" by (auto simp: serve_ok_def)
  note ctx = serve_ok_ctx [OF Cons.prems] 
  let ?len = "if req_size c > MAX_HWRNG_MSG_SIZE then MAX_HWRNG_MSG_SIZE else req_size c"
  have len: "unat ?len \<le> unat MAX_HWRNG_MSG_SIZE" by (simp add: word_le_nat_alt not_less)
  have fin: "rets (mbind (tipc_send_single_buf E (rng_chan c) (Rng_data, 0) ?len) (\<lambda>rc. if rc < 0 then
       mthen (if rc = ERR_NOT_ENOUGH_BUFFER E then put_ctx p (c\<lparr>send_blocked := True\<rparr>) else hwrng_close_chan E p)
       (hwrng_serve E (hwrng_dev_get_rng_data E) ps need)
     else mthen (put_ctx p (c\<lparr>req_size := req_size c - ?len\<rparr>)) (if req_size c - ?len = 0
        then mthen (mmod (\<lambda>s. s\<lparr>hwrng_req_list := list_delete E (hwrng_req_list s) p\<rparr>))
             (hwrng_serve E (hwrng_dev_get_rng_data E) ps need)
        else hwrng_serve E (hwrng_dev_get_rng_data E) ps True))) (\<lambda>_. serve_ok base []) t"
    if t: "serve_ok base (p # ps) t" "rng_ctxs t = rng_ctxs s" for t :: "('w, 'z) hwrng_state_scheme"
  proof -
    note k = serve_ok_ctx [OF t(1)]
    have "in_obj t (Rng_data, 0) (unat ?len)" using t(1) len by (simp add: serve_ok_def in_obj_def)
    moreover have "serve_ok base ps (t\<lparr>world := w, hwrng_req_list := l, rng_ctxs := (rng_ctxs s)(p := x)\<rparr>)"
      "serve_ok base ps (t\<lparr>world := w, rng_ctxs := (rng_ctxs s)(p := x), hwrng_req_list := l\<rparr>)"
      "serve_ok base ps (t\<lparr>world := w, rng_ctxs := (rng_ctxs s)(p := x)\<rparr>)" for l w x
      using k(1) [of x] t(2) by (simp_all add: serve_ok_def caam_up_def caam_ready_def)
    ultimately show ?thesis
      using c t(2) unfolding tipc_send_single_buf_def
      by (auto simp: put_ctx_def hwrng_close_chan_def close_def split: prod.splits intro!: Cons.IH)
  qed
  show ?case
    unfolding hwrng_serve.simps rets_basic(2) [of "mderef f" for f] rets_basic(8) Let_def
    using Cons.IH [OF ctx(2)] dev_rets [OF ok live Cons.prems len fin]
    by (intro exI [of _ c] conjI c) (cases "send_blocked c", simp_all only: if_True if_False simp_thms rets_basic(3))
qed simp

lemma hwrng_kick_rets:
  fixes s :: "('w, 'z) hwrng_state_scheme"
  assumes env: "env_ok ck E" and inv: "hwrng_inv ck s" and live: "caam_live E (caam_base s) pa"
  shows "rets (hwrng_kick_req_queue E (hwrng_dev_get_rng_data E)) (\<lambda>_ t. caam_base t = caam_base s) s"
proof -
  have "serve_ok (caam_base s) (hwrng_req_list s) s" using inv by (simp add: serve_ok_def hwrng_inv_def caam_up_def)
  from serve_rets [OF env_okD(1) [OF env] live this] show ?thesis
    unfolding hwrng_kick_req_queue_def hwrng_handle_req_queue_def
    unfolding rets_basic by (rule rets_mono) (simp add: serve_ok_def caam_up_def)
qed

text \<open>The handlers of the service; what a wake-up does at their end is all that can wait.\<close>

lemma hwrng_close_rets: "rng_ctxs s p = Some c \<Longrightarrow> rets (hwrng_close_chan E p) (\<lambda>_ _. True) s"
  by (simp add: hwrng_close_chan_def)

lemma hwrng_handle_msg_rets: "rng_ctxs s p = Some c \<Longrightarrow> p \<noteq> 0 \<Longrightarrow> rets (hwrng_chan_handle_msg E p) (\<lambda>_ _. True) s"
  by (auto simp: hwrng_chan_handle_msg_def put_ctx_def intro!: rets_recv_single)

lemma hwrng_chan_handler_rets:
  fixes s :: "('w, 'z) hwrng_state_scheme"
  assumes env: "env_ok ck E" and inv: "hwrng_inv ck s" and p: "rng_ctxs s p = Some c"
    and live: "caam_live E (caam_base s) pa" and ev: "ev_handle ev = rng_chan c"
    "ev_event ev \<inter> {IPC_HANDLE_POLL_ERROR, IPC_HANDLE_POLL_READY} = {}"
  shows "rets (hwrng_chan_handler E (hwrng_dev_get_rng_data E) ev p) (\<lambda>_ _. True) s"
proof -
  let ?K = "\<lambda>_. rets (hwrng_kick_req_queue E (hwrng_dev_get_rng_data E)) (\<lambda>_ _. True)"
  have p0: "p \<noteq> 0" using inv p by (auto simp: hwrng_inv_def rng_ctx_ok_def)
  have kick: "?K x t" if t: "hwrng_inv ck t" "hwrng_frame ck s t" for x and t :: "('w, 'z) hwrng_state_scheme"
  proof -
    have "caam_live E (caam_base t) pa" using live t(2) by (simp add: hwrng_frame_def)
    from hwrng_kick_rets [OF env t(1) this] show ?thesis by (rule rets_mono) simp
  qed
  have cl: "rets (hwrng_close_chan E p) ?K t"
    if "hwrng_inv ck t" "hwrng_frame ck s t" "rng_ctxs t p = Some d" for t :: "('w, 'z) hwrng_state_scheme" and d
    using that by (intro rets_of_wp [OF hwrng_close_rets] wp_hwrng_close_chan [OF env] kick) (auto intro: hwrng_frame_trans)
  have msg: "rets (hwrng_chan_handle_msg E p) (\<lambda>rc t. (rc \<noteq> 0 \<longrightarrow> rets (hwrng_close_chan E p) ?K t) \<and> (rc = 0 \<longrightarrow> ?K () t)) t"
    if "hwrng_inv ck t" "hwrng_frame ck s t" "rng_ctxs t p = Some d" for t :: "('w, 'z) hwrng_state_scheme" and d
    by (rule rets_of_wp [OF hwrng_handle_msg_rets [OF that(3) p0] wp_hwrng_chan_handle_msg [OF env that(1,3)]])
       (use that in \<open>auto intro: cl kick hwrng_frame_trans\<close>)
  let ?t = "s\<lparr>rng_ctxs := (rng_ctxs s)(p \<mapsto> c\<lparr>send_blocked := False\<rparr>)\<rparr>"
  have "hwrng_inv ck ?t" "hwrng_frame ck s ?t" "rng_ctxs ?t p = Some (c\<lparr>send_blocked := False\<rparr>)"
    using hwrng_put [OF inv p] by simp_all
  then show ?thesis
    using kick [OF inv] cl [OF inv _ p] msg [OF inv _ p] kick [of ?t] msg [of ?t] p0 ev
    by (simp add: hwrng_chan_handler_def p put_ctx_def)
qed

lemma hwrng_port_handler_rets:
  assumes "ev_event ev \<subseteq> {IPC_HANDLE_POLL_READY}" and "0 < heap_next s"
  shows "rets (hwrng_port_handler E ev) (\<lambda>_ _. True) s"
  using assms by (auto simp: hwrng_port_handler_def put_ctx_def Let_def intro!: rets_calloc split: prod.splits)

section \<open>The key service\<close>

text \<open>Receiving a request returns, with the payload in the request buffer or an error.\<close>

lemma rets_recv_request:
  fixes s :: "('w, 'z) hwkey_state_scheme"
  assumes env: "env_ok ck E" and inv: "hwkey_inv ck s"
  shows "rets (tipc_recv_two_segments E chan hs (Req_data, 0) HWKEY_MAX_PAYLOAD_SIZE) (\<lambda>(rc, hdr) t. rc < 0 \<or>
    (\<exists>bs :: byte list. length bs \<le> HWKEY_MAX_PAYLOAD_SIZE \<and> rc = int (hs + length bs) \<and>
      hwkey_inv ck t \<and> caam_base t = caam_base s)) s"
proof -
  note e = env_okD [OF env]
  let ?n = HWKEY_MAX_PAYLOAD_SIZE and ?recv = "tipc_recv_two_segments E chan hs (Req_data, 0) HWKEY_MAX_PAYLOAD_SIZE"
  have obj: "in_obj s (Req_data, 0) ?n"
    using inv by (simp add: in_obj_def hwkey_inv_def key_ready_def key_bufs_def)
  let ?P = "\<lambda>(rc :: int, hdr :: byte list) t. rc < 0 \<or>
    (\<exists>bs w. length bs \<le> ?n \<and> rc = int (hs + length bs) \<and> t = (put_mem (Req_data, 0) bs s)\<lparr>world := w\<rparr>)"
  let ?R = "\<lambda>(rc :: int, hdr :: byte list) t. rc < 0 \<or>
    (\<exists>bs :: byte list. length bs \<le> ?n \<and> rc = int (hs + length bs) \<and> hwkey_inv ck t \<and> caam_base t = caam_base s)"
  have step: "?R r t" if P: "?P r t" and ck: "ck (world t) = ck (world s)" for r t
  proof -
    obtain rc hdr where r: "r = (rc, hdr)" by (cases r)
    with P consider "rc < 0" | bs w where "length bs \<le> ?n" "rc = int (hs + length bs)"
      "t = (put_mem (Req_data, 0) bs s)\<lparr>world := w\<rparr>" by auto
    then show ?thesis
    proof cases
      case 2
      then have "hwkey_inv ck t" using ck by (simp only: 2(3)) (rule req_written(1) [OF inv], simp_all)
      with 2 show ?thesis by (auto simp: r)
    qed (simp add: r)
  qed
  have "wp ?recv ?P s" by (rule wp_recv_two [OF e(2,3) obj]) auto
  from rets_of_wp [OF rets_recv_two [OF e(2) obj] wp_keeps [OF this keeps_tipc(4) [OF e(6)] step]] show ?thesis .
qed

text \<open>
  A provider that returns: while the device answers at the place of its registers, a slot
  handler and the key derivation come back with a result.
\<close>

locale live_provider = key_provider ck call derive
  for ck :: "'w \<Rightarrow> handle \<Rightarrow> cookie option"
    and call :: "'w env \<Rightarrow> ('w, 'z) key_call"
    and derive :: "'w env \<Rightarrow> ('w, 'z) key_derive" +
  fixes answers :: "'w env \<Rightarrow> u32 \<Rightarrow> bool"
  assumes call_rets: "env_ok ck E \<Longrightarrow> answers E (caam_base s) \<Longrightarrow> key_ready s \<Longrightarrow>
      rets (call E h slot (Key_data, 0) sizeof_key_data 0) (\<lambda>_ _. True) s"
    and derive_rets: "env_ok ck E \<Longrightarrow> answers E (caam_base s) \<Longrightarrow> key_ready s \<Longrightarrow>
      unat n \<le> HWKEY_MAX_PAYLOAD_SIZE \<Longrightarrow>
      rets (derive E uuid (Req_data, 0) n (Key_data, 0) sizeof_key_data) (\<lambda>_ _. True) s"
begin

lemma handle_slots_loop_rets:
  assumes env: "env_ok ck E" "answers E (caam_base s)" and rdy: "key_ready s"
    and id: "0 \<in> set (mem s Req_data)" and sl: "\<forall>x \<in> set slots. 0 \<in> set (key_id x)"
  shows "i + n \<le> length slots \<Longrightarrow>
    rets (handle_slots_loop E (call E) ctx (Req_data, 0) slots i n (Key_data, 0) sizeof_key_data 0) (\<lambda>_ _. True) s"
proof (induction n arbitrary: i)
  case (Suc n)
  then have "0 \<in> set (key_id (slots ! i))" using sl by simp
  with Suc id show ?case
    by (auto simp: strcmp_eq_cstr split: option.splits intro!: call_rets [OF env rdy])
qed simp

lemma rets_handle_slots:
  assumes env: "env_ok ck E" "answers E (caam_base s)" and rdy: "key_ready s" and id: "0 \<in> set (mem s Req_data)"
    and sl: "slots_ok slots cnt" and Q: "\<And>r s'. key_post ck E s r s' \<Longrightarrow> Q r s'"
  shows "rets (handle_slots E (call E) ctx (Req_data, 0) slots cnt (Key_data, 0) sizeof_key_data 0) Q s"
proof (rule rets_of_wp [OF _ wp_handle_slots [OF env(1) rdy id sl Q]])
  show "rets (handle_slots E (call E) ctx (Req_data, 0) slots cnt (Key_data, 0) sizeof_key_data 0) (\<lambda>_ _. True) s"
    using sl by (cases slots) (auto simp: handle_slots_def slots_ok_def intro!: handle_slots_loop_rets [OF env rdy id])
qed simp_all

text \<open>The reply is sent and the key wiped, the end both commands share.\<close>

lemma reply_rets:
  assumes inv: "hwkey_inv ck s" and post: "key_post ck E s (st, klen) t"
  shows "rets (mbind (hwkey_send_rsp E ctx hdr (Key_data, 0) klen) (\<lambda>rc.
     mthen (if klen \<noteq> 0 then memset (Key_data, 0) 0 (unat klen) else mret ()) (mret rc))) (\<lambda>_ _. True) t"
proof -
  have "in_obj t (Key_data, 0) (unat klen)"
    using post inv by (simp add: in_obj_def key_post_def hwkey_inv_def key_ready_def key_bufs_def)
  then show ?thesis by (simp add: hwkey_send_rsp_def tipc_send_two_segments_def split: prod.splits)
qed

lemma get_keyslot_cmd_rets:
  assumes env: "env_ok ck E" "answers E (caam_base s)" and inv: "hwkey_inv ck s" and id: "0 \<in> set (mem s Req_data)"
  shows "rets (hwkey_handle_get_keyslot_cmd E (call E) ctx hdr (Req_data, 0)) (\<lambda>_ _. True) s"
proof -
  have rdy: "key_ready s" and sl: "slots_ok (key_slots s) (key_slot_cnt s)"
    using inv by (simp_all add: hwkey_inv_def)
  have tst: "slots_ok (Some (test_key_slots E)) (of_nat (length (test_key_slots E)))"
    by (simp add: slots_ok_def test_key_slots_def clit_def)
  let ?tail = "\<lambda>(st, klen). mbind (hwkey_send_rsp E ctx (hdr\<lparr>status := st\<rparr>) (Key_data, 0) klen) (\<lambda>rc.
     mthen (if klen \<noteq> 0 then memset (Key_data, 0) 0 (unat klen) else mret ()) (mret rc))"
  have tail: "rets (?tail r) (\<lambda>_ _. True) t" if "key_post ck E s r t" for r t
    using that by (cases r) (simp add: reply_rets [OF inv] del: rets_basic)
  have again: "rets (handle_slots E (call E) ctx (Req_data, 0) (Some (test_key_slots E))
      (of_nat (length (test_key_slots E))) (Key_data, 0) sizeof_key_data klen) (\<lambda>r. rets (?tail r) (\<lambda>_ _. True)) t"
    if t: "key_post ck E s (HWKEY_ERR_NOT_FOUND E, klen) t" for klen t
  proof -
    have k: "klen = 0" using t not_found_err [OF env(1)] by (simp add: key_post_def)
    have "key_ready t" "0 \<in> set (mem t Req_data)" "answers E (caam_base t)"
      using t id env(2) key_post_ready [OF rdy t [unfolded k]] by (simp_all add: key_post_def drv_frame_def)
    then show ?thesis unfolding k
      by (intro rets_handle_slots [OF env(1)] tst tail) (auto intro: key_post_trans [OF t])
  qed
  show ?thesis
    unfolding hwkey_handle_get_keyslot_cmd_def rets_basic(2,4) prod.case
    apply (rule rets_handle_slots [OF env rdy id sl])
    subgoal for r t
      using tail [of r t] again [of "snd r" t] by (cases r) (simp only: prod.case rets_basic(2) rets_if snd_conv, auto)
    done
qed

lemma derive_cmd_rets:
  assumes env: "env_ok ck E" "answers E (caam_base s)" and inv: "hwkey_inv ck s" and n: "unat n \<le> HWKEY_MAX_PAYLOAD_SIZE"
  shows "rets (hwkey_handle_derive_key_cmd E (derive E) ctx hdr (Req_data, 0) n) (\<lambda>_ _. True) s"
proof -
  have rdy: "key_ready s" using inv by (simp add: hwkey_inv_def)
  let ?tail = "\<lambda>hdr. \<lambda>(st, klen). mbind (hwkey_send_rsp E ctx (hdr\<lparr>status := st\<rparr>) (Key_data, 0) klen) (\<lambda>rc.
     mthen (if klen \<noteq> 0 then memset (Key_data, 0) 0 (unat klen) else mret ()) (mret rc))"
  have tail: "rets (?tail hdr r) (\<lambda>_ _. True) t" if "key_post ck E s r t" for hdr r t
    using that by (cases r) (simp add: reply_rets [OF inv] del: rets_basic)
  have der: "rets (derive E uuid (Req_data, 0) n (Key_data, 0) sizeof_key_data) (\<lambda>r. rets (?tail hdr r) (\<lambda>_ _. True)) s" for uuid hdr
    by (rule rets_of_wp [OF derive_rets [OF env rdy n] derive_key [OF env(1) rdy n]]) (rule tail)
  show ?thesis
    unfolding hwkey_handle_derive_key_cmd_def Let_def
    using der tail [OF key_post_refl [OF rdy]] by (subst rets_basic(2), unfold rets_if) (simp del: rets_basic(2-))
qed

lemma request_switch_rets:
  assumes env: "env_ok ck E" "answers E (caam_base t)" and inv: "hwkey_inv ck t" and bs: "length bs \<le> HWKEY_MAX_PAYLOAD_SIZE"
    and len: "len = of_int (int (hs + length bs)) - of_nat hs"
  shows "rets (if cmd hdr = HWKEY_GET_KEYSLOT E then
       mthen (mwrite (Req_data, unat len) [0]) (hwkey_handle_get_keyslot_cmd E (call E) c hdr (Req_data, 0))
     else if cmd hdr = HWKEY_DERIVE E then
       mbind (hwkey_handle_derive_key_cmd E (derive E) c hdr (Req_data, 0) len) (\<lambda>rc.
       mthen (memset (Req_data, 0) 0 (unat len)) (mret rc))
     else hwkey_send_rsp E c (hdr\<lparr>status := HWKEY_ERR_NOT_IMPLEMENTED E\<rparr>) (Null, 0) 0) (\<lambda>_ _. True) t"
proof -
  have n: "unat len \<le> HWKEY_MAX_PAYLOAD_SIZE" using bs by (simp add: len HWKEY_MAX_PAYLOAD_SIZE_def unat_of_nat)
  have l: "length (mem t Req_data) = HWKEY_MAX_PAYLOAD_SIZE + 1"
    using inv by (simp add: hwkey_inv_def key_ready_def key_bufs_def)
  have "rets (hwkey_handle_get_keyslot_cmd E (call E) c hdr (Req_data, 0)) (\<lambda>_ _. True) (put_mem (Req_data, unat len) [0] t)"
    using req_written' [OF inv, of "unat len" "[0]"] n env(2)
    by (intro get_keyslot_cmd_rets [OF env(1)]) (simp_all add: overwrite_def)
  moreover have "rets (hwkey_handle_derive_key_cmd E (derive E) c hdr (Req_data, 0) len)
      (\<lambda>_ u. in_obj u (Req_data, 0) (unat len)) t"
    by (rule rets_of_wp [OF derive_cmd_rets [OF env inv n] wp_hwkey_handle_derive_key_cmd [OF env(1) inv n]])
       (use n l in \<open>simp add: reply_post_def in_obj_def\<close>)
  ultimately show ?thesis
    using n l by (auto simp: in_obj_def hwkey_send_rsp_def tipc_send_two_segments_def split: prod.splits)
qed

lemma hwkey_handle_msg_rets:
  assumes env: "env_ok ck E" "answers E (caam_base s)" and inv: "hwkey_inv ck s" and p: "key_ctxs s p = Some c"
  shows "rets (hwkey_chan_handle_msg E (call E) (derive E) p) (\<lambda>_ _. True) s"
  unfolding hwkey_chan_handle_msg_def rets_basic(2) [of "mderef f" for f] rets_basic(8)
proof (intro exI [of _ c] conjI p, subst rets_basic(2), rule rets_mono [OF rets_recv_request [OF env(1) inv]], clarify)
  let ?hs = "sizeof_hwkey_msg E"
  fix rc :: int and hdr and t :: "('w, 'z) hwkey_state_scheme"
  assume r: "rc < 0 \<or> (\<exists>bs :: byte list. length bs \<le> HWKEY_MAX_PAYLOAD_SIZE \<and> rc = int (?hs + length bs) \<and>
    hwkey_inv ck t \<and> caam_base t = caam_base s)"
  show "rets (if rc < 0 then mret rc else
     let req_data_len = of_int rc - of_nat ?hs; hdr = hwkey_msg_of E hdr in
     if cmd hdr = HWKEY_GET_KEYSLOT E then
       mthen (mwrite (Req_data, unat req_data_len) [0]) (hwkey_handle_get_keyslot_cmd E (call E) c hdr (Req_data, 0))
     else if cmd hdr = HWKEY_DERIVE E then
       mbind (hwkey_handle_derive_key_cmd E (derive E) c hdr (Req_data, 0) req_data_len) (\<lambda>rc.
       mthen (memset (Req_data, 0) 0 (unat req_data_len)) (mret rc))
     else hwkey_send_rsp E c (hdr\<lparr>status := HWKEY_ERR_NOT_IMPLEMENTED E\<rparr>) (Null, 0) 0) (\<lambda>_ _. True) t"
  proof (cases "rc < 0")
    case False
    with r obtain bs :: "byte list" where bs: "length bs \<le> HWKEY_MAX_PAYLOAD_SIZE" "rc = int (?hs + length bs)"
      and t: "hwkey_inv ck t" "caam_base t = caam_base s" by blast
    have "answers E (caam_base t)" using env(2) t(2) by simp
    from request_switch_rets [OF env(1) this t(1) bs(1) refl, of "hwkey_msg_of E hdr" ?hs c, folded bs(2)] False
    show ?thesis by (simp only: Let_def if_False)
  qed simp
qed

lemma hwkey_chan_handler_rets:
  assumes env: "env_ok ck E" "answers E (caam_base s)" and inv: "hwkey_inv ck s" and p: "key_ctxs s p = Some c"
    and ev: "ev_handle ev = key_chan c" "ev_event ev \<inter> {IPC_HANDLE_POLL_ERROR, IPC_HANDLE_POLL_READY} = {}"
  shows "rets (hwkey_chan_handler E (call E) (derive E) ev p) (\<lambda>_ _. True) s"
proof -
  have "p \<noteq> 0" using inv p by (auto simp: hwkey_inv_def key_ctx_ok_def)
  moreover have "rets (hwkey_chan_handle_msg E (call E) (derive E) p) (\<lambda>_ t. key_ctxs t p = Some c) s"
    by (rule rets_of_wp [OF hwkey_handle_msg_rets [OF env inv p] wp_hwkey_chan_handle_msg [OF env(1) inv p]]) (simp add: p)
  ultimately show ?thesis
    using p ev by (auto simp: hwkey_chan_handler_def hwkey_ctx_close_def elim!: rets_mono)
qed

end

lemma hwkey_port_handler_rets:
  assumes "ev_event ev \<subseteq> {IPC_HANDLE_POLL_READY}" and "0 < heap_next s"
  shows "rets (hwkey_port_handler E ev) (\<lambda>_ _. True) s"
  using assms by (auto simp: hwkey_port_handler_def hwkey_ctx_close_def Let_def intro!: rets_calloc split: prod.splits)

text \<open>
  The handler of the RPMB slot, with a blob: the key buffer gets what the device unseals, and its
  length is reported; \<open>P\<close> is what the job promises. With a device that answers it returns.
\<close>

lemma rpmb_handler_rets:
  assumes "rets (caam_decap_blob E (Skeymod, 0) 16 (Key_data, 0) (Rpmb_keyblob, 0) 32) (\<lambda>r t. r = CAAM_SUCCESS \<and> P t) s"
    and "rpmb_keyblob_len s = RPMBKEY_LEN"
  shows "rets (get_rpmb_ss_auth_key E slot (Key_data, 0) sizeof_key_data 0) (\<lambda>r t. r = (HWKEY_NO_ERROR E, 32) \<and> P t) s"
  unfolding get_rpmb_ss_auth_key_def rets_basic(2,3)
  using assms by (auto simp: RPMB_SS_AUTH_KEY_SIZE_def sizeof_key_data_def HWKEY_MAX_PAYLOAD_SIZE_def elim!: rets_mono)

lemma rpmb_decap_rets:
  assumes ok: "dma_ok E" and live: "caam_live E (caam_base s) pa" and rdy: "key_ready s"
  shows "rets (caam_decap_blob E (Skeymod, 0) 16 (Key_data, 0) (Rpmb_keyblob, 0) 32)
    (\<lambda>r t. r = CAAM_SUCCESS \<and> job_post E (Key_data, 0) 32 s CAAM_SUCCESS t) s"
proof -
  have obj: "in_obj s (Skeymod, 0) 16" "in_obj s (Rpmb_keyblob, 0) 80" "in_obj s (Key_data, 0) 32" "caam_ready s"
    "dma_windows s = []"
    using rdy by (simp_all add: in_obj_def key_ready_def key_bufs_def HWKEY_MAX_PAYLOAD_SIZE_def)
  have "rets (caam_decap_blob E (Skeymod, 0) 16 (Key_data, 0) (Rpmb_keyblob, 0) 32) (\<lambda>r _. r = CAAM_SUCCESS) s"
    using obj by (intro decap_rets [OF live]) (simp_all add: job_pre_def caam_up_def CAAM_KB_HEADER_LEN_def)
  moreover have "wp (caam_decap_blob E (Skeymod, 0) 16 (Key_data, 0) (Rpmb_keyblob, 0) 32) (job_post E (Key_data, 0) 32 s) s"
    using obj by (intro wp_caam_decap_blob [OF ok]) (simp_all add: CAAM_KB_HEADER_LEN_def)
  ultimately have "rets (caam_decap_blob E (Skeymod, 0) 16 (Key_data, 0) (Rpmb_keyblob, 0) 32)
      (\<lambda>r t. r = CAAM_SUCCESS \<and> job_post E (Key_data, 0) 32 s r t) s" by (rule rets_wp)
  then show ?thesis by (rule rets_mono) auto
qed

lemma call_handler_rets:
  assumes ok: "dma_ok E" and live: "caam_live E (caam_base s) pa" and rdy: "key_ready s"
  shows "rets (call_handler E h slot (Key_data, 0) sizeof_key_data 0) (\<lambda>_ _. True) s"
proof (cases h)
  case Get_rpmb_ss_auth_key
  then show ?thesis
    using rpmb_handler_rets [OF rpmb_decap_rets [OF ok live rdy]]
    by (cases "rpmb_keyblob_len s = RPMBKEY_LEN")
       (auto simp: get_rpmb_ss_auth_key_def sizeof_key_data_def RPMB_SS_AUTH_KEY_SIZE_def HWKEY_MAX_PAYLOAD_SIZE_def
         elim!: rets_mono)
next
  case Get_unittest_key32
  then show ?thesis
    using rdy by (simp add: get_unittest_key32_def in_obj_def key_ready_def key_bufs_def unittest_key32_def
        sizeof_key_data_def HWKEY_MAX_PAYLOAD_SIZE_def)
qed

lemma derive_key_v1_rets:
  assumes "key_ready s" and "unat n \<le> HWKEY_MAX_PAYLOAD_SIZE"
  shows "rets (derive_key_v1 E uuid (Req_data, 0) n (Key_data, 0) sizeof_key_data) (\<lambda>_ _. True) s"
  using assms by (simp add: derive_key_v1_def in_obj_def key_ready_def key_bufs_def split: prod.splits)

interpretation caam_keys_live: live_provider ck call_handler derive_key_v1 "\<lambda>E base. \<exists>pa. caam_live E base pa" for ck
  by unfold_locales (auto intro: call_handler_rets env_okD(1) derive_key_v1_rets)

section \<open>The event loop\<close>

text \<open>
  The events a handle can have: a port becomes ready, a channel gets a message, is closed by
  its peer, or can be sent to again.
\<close>

fun expected_flags :: "cookie option \<Rightarrow> poll_flag set" where
  "expected_flags (Some Hwkey_port_cookie) = {IPC_HANDLE_POLL_READY}"
| "expected_flags (Some Hwrng_port_cookie) = {IPC_HANDLE_POLL_READY}"
| "expected_flags (Some (Hwkey_chan_cookie p)) = {IPC_HANDLE_POLL_HUP, IPC_HANDLE_POLL_MSG, IPC_HANDLE_POLL_SEND_UNBLOCKED}"
| "expected_flags (Some (Hwrng_chan_cookie p)) = {IPC_HANDLE_POLL_HUP, IPC_HANDLE_POLL_MSG, IPC_HANDLE_POLL_SEND_UNBLOCKED}"
| "expected_flags None = UNIV"

lemma dispatch_event_rets:
  fixes s :: "('w, 'z) hwkey_state_scheme"
  assumes env: "env_ok ck E" and inv: "app_inv ck s" and live: "caam_live E (caam_base s) pa"
    and ev: "ev_cookie ev = ck (world s) (ev_handle ev)" "ev_event ev \<subseteq> expected_flags (ev_cookie ev)"
  shows "rets (dispatch_event E ev) (\<lambda>_ _. True) s"
proof -
  have rng: "hwrng_inv ck s" and key: "hwkey_inv ck s" and heap: "0 < heap_next s"
    using inv by (simp_all add: app_inv_def hwkey_inv_def)
  have alive: "\<exists>pa. caam_live E (caam_base s) pa" using live by blast
  consider "ev_event ev = {}" | "ev_cookie ev = None" | "ev_cookie ev = Some Hwkey_port_cookie"
    | "ev_cookie ev = Some Hwrng_port_cookie" | p where "ev_cookie ev = Some (Hwkey_chan_cookie p)"
    | p where "ev_cookie ev = Some (Hwrng_chan_cookie p)"
    by (cases "ev_cookie ev") (simp, metis cookie.exhaust)
  then show ?thesis
  proof cases
    case (5 p)
    with ev obtain d where d: "key_ctxs s p = Some d" "key_chan d = ev_handle ev" using hwkey_cookieD [OF key] by metis
    then have "key_evt_handler d = \<lparr>proc = Some Hwkey_chan_handler, priv = p\<rparr>"
      using key by (simp add: hwkey_inv_def key_ctx_ok_def)
    moreover have "rets (hwkey_chan_handler E (call_handler E) (derive_key_v1 E) ev p) (\<lambda>_ _. True) s"
      using 5 ev(2) d by (intro caam_keys_live.hwkey_chan_handler_rets [OF env alive key d(1)]) auto
    ultimately show ?thesis using 5 d by (simp add: dispatch_event_def)
  next
    case (6 p)
    with ev obtain d where d: "rng_ctxs s p = Some d" "rng_chan d = ev_handle ev" using hwrng_cookieD [OF rng] by metis
    then have "rng_evt_handler d = \<lparr>proc = Some Hwrng_chan_handler, priv = p\<rparr>"
      using rng by (simp add: hwrng_inv_def rng_ctx_ok_def)
    moreover have "rets (hwrng_chan_handler E (hwrng_dev_get_rng_data E) ev p) (\<lambda>_ _. True) s"
      using 6 ev(2) d by (intro hwrng_chan_handler_rets [OF env rng d(1) live]) auto
    ultimately show ?thesis using 6 d by (simp add: dispatch_event_def)
  qed (use ev(2) heap in \<open>simp_all add: dispatch_event_def hwkey_port_handler_rets hwrng_port_handler_rets\<close>)
qed

lemma loop_turn_rets:
  fixes s :: "('w, 'z) hwkey_state_scheme"
  assumes env: "env_ok ck E" and inv: "app_inv ck s" and live: "caam_live E (caam_base s) pa"
    and ev: "\<And>e w. k_wait_any E (world s) = ((0, e), w) \<Longrightarrow> ev_event e \<subseteq> expected_flags (ev_cookie e)"
  shows "rets (loop_turn E) (\<lambda>r t. app_inv ck t \<and> keys_kept s t \<and> (\<forall>rc. r = Some rc \<longrightarrow> rc < 0)) s"
proof -
  note cks = cookies_okD [OF env_okD(6) [OF env]]
  have w: "app_inv ck (s\<lparr>world := w\<rparr>)" if "ck w = ck (world s)" for w
    using hwkey_world [of ck s w] hwrng_world [of ck s w] that inv by (simp add: app_inv_def)
  have "rets (dispatch_event E e) (\<lambda>_ _. True) (s\<lparr>world := w\<rparr>)" if "k_wait_any E (world s) = ((0, e), w)" for e w
    using cks(6,7) [OF that] ev [OF that] live by (intro dispatch_event_rets [OF env w, where pa = pa]) simp_all
  then have "rets (loop_turn E) (\<lambda>r _. \<forall>rc. r = Some rc \<longrightarrow> rc < 0) s"
    by (auto simp: loop_turn_def split: prod.splits)
  from rets_wp [OF this wp_loop_turn [OF env inv]] show ?thesis by (rule rets_mono) simp
qed

end
