(* ===== verification/Demo_Env.thy ===== *)
theory Demo_Env
  imports Serve_Live
begin

text \<open>
  A concrete environment that meets everything the program relies on: a kernel with a
  cookie table, message queues and a log of the messages sent, a CAAM that completes every
  job at once, and an allocator that never fails. It shows that the hypotheses of the
  theorems can hold together, and the witnesses of the properties run in it. \<open>demo_cold\<close> is the
  same with the self tests built in and a generator that is not instantiated at start.
\<close>

record demo_world =
  dw_cookies :: "handle \<Rightarrow> cookie option"
  dw_inbox :: "handle \<Rightarrow> byte list list"
  dw_sent :: "(handle \<times> byte list list) list"
  dw_events :: "(handle \<times> poll_flag set) list"
  dw_rng :: bool
  dw_seen :: "u32 \<Rightarrow> byte list"
  dw_job :: "(u32 \<Rightarrow> byte list) option"

definition demo_msg_of :: "byte list \<Rightarrow> hwkey_msg" where
  "demo_msg_of bs = \<lparr>cmd = of_le32 (take 4 bs), status = of_le32 (take 4 (drop 4 bs)),
     arg1 = of_le32 (take 4 (drop 8 bs)), hdr_rest = []\<rparr>"

definition demo_bytes_of :: "hwkey_msg \<Rightarrow> byte list" where
  "demo_bytes_of m = le32 (cmd m) @ le32 (status m) @ le32 (arg1 m)"

definition demo_get_msg :: "handle \<Rightarrow> demo_world \<Rightarrow> (int \<times> ipc_msg_info) \<times> demo_world" where
  "demo_get_msg h w = (case dw_inbox w h of
     [] \<Rightarrow> ((- 5, \<lparr>msg_len = 0, msg_id = 0\<rparr>), w)
   | m # _ \<Rightarrow> ((0, \<lparr>msg_len = length m, msg_id = 1\<rparr>), w))"

definition demo_read_msg :: "handle \<Rightarrow> u32 \<Rightarrow> nat list \<Rightarrow> demo_world \<Rightarrow> (int \<times> byte list) \<times> demo_world" where
  "demo_read_msg h i lens w = (case dw_inbox w h of
     [] \<Rightarrow> ((- 5, []), w)
   | m # _ \<Rightarrow> ((int (min (length m) (sum_list lens)), take (sum_list lens) m), w))"

definition demo_wait_any :: "demo_world \<Rightarrow> (int \<times> uevent) \<times> demo_world" where
  "demo_wait_any w = (case dw_events w of
     [] \<Rightarrow> ((- 13, \<lparr>ev_handle = 0, ev_event = {}, ev_cookie = None\<rparr>), w)
   | (h, fl) # es \<Rightarrow> ((0, \<lparr>ev_handle = h, ev_event = fl \<inter> expected_flags (dw_cookies w h),
       ev_cookie = dw_cookies w h\<rparr>), w\<lparr>dw_events := es\<rparr>))"

definition demo_env :: "demo_world env" where
  "demo_env = \<lparr>mach_type = MACH_IMX7, with_caam_self_test = False, with_hwcrypto_unittest = False,
     ERR_GENERIC = - 1, ERR_NO_MEMORY = - 2, ERR_BAD_LEN = - 3, ERR_NOT_ENOUGH_BUFFER = - 4,
     INVALID_IPC_HANDLE = - 1, HWKEY_PORT = ''com.android.trusty.hwkey'', HWRNG_PORT = ''com.android.trusty.hwrng'',
     SECURE_STORAGE_SERVER_APP_UUID = replicate 16 1, HWCRYPTO_UNITTEST_APP_UUID = replicate 16 2,
     HWKEY_GET_KEYSLOT = 0, HWKEY_DERIVE = 2, HWKEY_RESP_BIT = 1,
     HWKEY_KDF_VERSION_BEST = 0, HWKEY_KDF_VERSION_1 = 1,
     HWKEY_NO_ERROR = 0, HWKEY_ERR_GENERIC = 1, HWKEY_ERR_NOT_FOUND = 2, HWKEY_ERR_BAD_LEN = 3,
     HWKEY_ERR_NOT_IMPLEMENTED = 4,
     sizeof_hwkey_msg = 12, hwkey_msg_of = demo_msg_of, bytes_of_hwkey_msg = demo_bytes_of,
     sizeof_hwrng_req = 4, hwrng_req_len = of_le32,
     k_readl = (\<lambda>a w. (1, w)), k_writel = (\<lambda>v a w. w), poll_fuel = 3,
     k_mmap = (\<lambda>n i w. (0x40000000, w)), k_memalign = (\<lambda>a n w. (Some (\<lambda>_. 0), w)),
     k_calloc = (\<lambda>w. (True, w)), stack_garbage = (\<lambda>w nm i. 0),
     k_prepare_dma = (\<lambda>p bs n fl w. ((1, \<lparr>paddr = 0, pm_size = n\<rparr>), w)),
     k_finish_dma = (\<lambda>p n w. w),
     dma_ram = (\<lambda>w p i. if fst p = Rings then 0 else of_nat (Suc i)), dma_early = (\<lambda>w p i. 0),
     k_port_create = (\<lambda>nm n len w. (if nm = ''com.android.trusty.hwkey'' then 1 else 2, w)),
     k_set_cookie = (\<lambda>h c w. (0, w\<lparr>dw_cookies := (dw_cookies w)(h := Some c)\<rparr>)),
     k_accept = (\<lambda>h w. ((h + 10, replicate 16 1), w)),
     k_close = (\<lambda>h w. w\<lparr>dw_cookies := (dw_cookies w)(h := None)\<rparr>),
     k_get_msg = demo_get_msg, k_read_msg = demo_read_msg,
     k_put_msg = (\<lambda>h i w. w\<lparr>dw_inbox := (dw_inbox w)(h := tl (dw_inbox w h))\<rparr>),
     k_send_msg = (\<lambda>h bss w. (int (sum_list (map length bss)), w\<lparr>dw_sent := dw_sent w @ [(h, bss)]\<rparr>)),
     k_wait_any = demo_wait_any,
     HKDF = (\<lambda>n secret salt info. (True, \<lambda>i. of_nat (i + 7))),
     list_in_list = (\<lambda>l x. x \<in> set l), list_add_tail = (\<lambda>l x. l @ [x]), list_delete = (\<lambda>l x. remove1 x l)\<rparr>"

lemma demo_dma_ok: "dma_ok demo_env"
  by (auto simp: dma_ok_def segment_ok_def demo_env_def)

lemma demo_ipc_ok: "ipc_ok demo_env"
  by (auto simp: ipc_ok_def demo_env_def demo_get_msg_def demo_read_msg_def split: list.splits)

lemma demo_err_ok: "err_ok demo_env"
  by (simp add: err_ok_def demo_env_def)

lemma demo_list_ok: "list_ok demo_env"
  by (simp add: list_ok_def demo_env_def)

lemma demo_quiet: "quiet dw_cookies demo_env"
  by (simp add: quiet_def demo_env_def)

lemma demo_sent_log: "sent_log dw_sent demo_env"
  by (simp add: sent_log_def quiet_def demo_env_def demo_get_msg_def demo_read_msg_def split: list.splits)

lemma demo_cookies_ok: "cookies_ok dw_cookies demo_env"
  by (auto simp: cookies_ok_def demo_env_def demo_get_msg_def demo_read_msg_def demo_wait_any_def
      split: list.splits)

lemma demo_env_ok: "env_ok dw_cookies demo_env"
  by (simp add: env_ok_def demo_dma_ok demo_ipc_ok demo_err_ok demo_list_ok demo_quiet demo_cookies_ok)

text \<open>The program as it is loaded, with a key box that holds an RPMB blob.\<close>

definition demo_kbox :: "byte list" where
  "demo_kbox = clit ''!KS'' @ le32 80 @ replicate 80 5 @ le32 0 @ replicate 1080 0"

fun demo_mem :: "cobj \<Rightarrow> byte list" where
  "demo_mem Null = []"
| "demo_mem Rings = []"
| "demo_mem Job_dsc = []"
| "demo_mem Key_data = replicate 2048 0"
| "demo_mem Req_data = replicate 2049 0"
| "demo_mem Rng_data = replicate 4096 0"
| "demo_mem Kdfv1_key = replicate 32 0"
| "demo_mem Skeymod = skeymod"
| "demo_mem Rpmb_keyblob = replicate 80 0"
| "demo_mem Unittest_key32 = unittest_key32"
| "demo_mem Sram = demo_kbox"
| "demo_mem (Local nm) = []"

definition demo_world0 :: demo_world where
  "demo_world0 = \<lparr>dw_cookies = (\<lambda>_. None), dw_inbox = (\<lambda>_. []), dw_sent = [], dw_events = [], dw_rng = False,
     dw_seen = (\<lambda>_. []), dw_job = None\<rparr>"

definition demo_boot :: "demo_world hwkey_state" where
  "demo_boot = \<lparr>world = demo_world0, mem = demo_mem, dma_windows = [], heap_next = 1,
     caam_base = 0, ccm_base = 0, sram_base = 0, g_rings = None, g_job = None,
     hwrng_port = - 1, rng_ctxs = Map.empty, hwrng_req_list = [],
     rpmb_keyblob_len = 0, key_slots = None, key_slot_cnt = 0, key_ctxs = Map.empty\<rparr>"

lemma demo_boot_state: "boot_state dw_cookies demo_boot"
  by (simp add: boot_state_def demo_boot_def demo_world0_def key_bufs_def HWKEY_MAX_PAYLOAD_SIZE_def
      skeymod_def MAX_HWRNG_MSG_SIZE_def kbox_layout demo_kbox_def clit_def)

text \<open>The program once it serves requests: one client of each service.\<close>

definition demo_app :: "demo_world hwkey_state" where
  "demo_app = demo_boot\<lparr>
     world := demo_world0\<lparr>dw_cookies := [1 \<mapsto> Hwkey_port_cookie, 2 \<mapsto> Hwrng_port_cookie,
       11 \<mapsto> Hwkey_chan_cookie 1, 12 \<mapsto> Hwrng_chan_cookie 2]\<rparr>,
     heap_next := 3,
     g_rings := Some \<lparr>ring_in = 0, ring_out0 = 0, ring_out1 = 0\<rparr>,
     g_job := Some \<lparr>dsc = replicate 64 0, dsc_used = 0, job_status = 0\<rparr>,
     rng_ctxs := [2 \<mapsto> new_rng_ctx 2 12], key_ctxs := [1 \<mapsto> new_key_ctx 1 11 (replicate 16 1)],
     key_slots := Some (keys demo_env), key_slot_cnt := 1, rpmb_keyblob_len := 80\<rparr>"

lemma demo_caam_ready: "caam_ready demo_app"
  by (simp add: caam_ready_def demo_app_def MAX_DSC_NUM_def)

lemma demo_key_ready: "key_ready demo_app"
  unfolding key_ready_def
  by (simp add: demo_caam_ready) (simp add: demo_app_def demo_boot_def key_bufs_def HWKEY_MAX_PAYLOAD_SIZE_def skeymod_def)

lemma demo_hwrng_inv: "hwrng_inv dw_cookies demo_app"
  unfolding hwrng_inv_def
  by (simp add: demo_caam_ready)
     (auto simp: demo_app_def demo_boot_def MAX_HWRNG_MSG_SIZE_def rng_ctx_ok_def new_rng_ctx_def
        split: if_splits)

lemma demo_hwkey_inv: "hwkey_inv dw_cookies demo_app"
  unfolding hwkey_inv_def
  by (simp add: demo_key_ready)
     (auto simp: demo_app_def demo_boot_def slots_ok_def keys_def clit_def key_ctx_ok_def new_key_ctx_def
        split: if_splits)

text \<open>The device of this environment answers, and the program comes up in it.\<close>

lemma demo_live: "caam_live demo_env base 0"
proof -
  have "map (dma_ram demo_env w (Rings, 4)) [0..<8] = le32 0 @ le32 0" for w
    by (simp add: demo_env_def le32_def upt_rec)
  then show ?thesis by (auto simp: caam_live_def demo_env_def intro!: exI [of _ 0])
qed

lemma demo_boot_live: "boot_live demo_env 0x40000000 0"
  unfolding boot_live_def using demo_live
  by (simp add: demo_env_def MAP_FAILED_def RDSTA_IF0_def rng_live_def)

text \<open>
  The same kernel over a device whose generator is not instantiated at start, built with the
  self tests: the status register at offset 0x6C0 of the block reads 0 until a finished job has
  been taken off the output ring, and then shows both state handles.
\<close>

definition demo_cold :: "demo_world env" where
  "demo_cold = demo_env\<lparr>with_caam_self_test := True,
     k_readl := (\<lambda>a w. (if a = 0x400006C0 then if dw_rng w then 0x40000001 else 0 else 1, w)),
     k_writel := (\<lambda>v a w. if a = 0x40001034 then w\<lparr>dw_rng := True\<rparr> else w)\<rparr>"

lemma demo_cold_sel:
  "k_prepare_dma demo_cold = k_prepare_dma demo_env" "k_get_msg demo_cold = k_get_msg demo_env"
  "k_read_msg demo_cold = k_read_msg demo_env" "ERR_GENERIC demo_cold = ERR_GENERIC demo_env"
  "ERR_NO_MEMORY demo_cold = ERR_NO_MEMORY demo_env" "ERR_BAD_LEN demo_cold = ERR_BAD_LEN demo_env"
  "ERR_NOT_ENOUGH_BUFFER demo_cold = ERR_NOT_ENOUGH_BUFFER demo_env"
  "HWKEY_NO_ERROR demo_cold = HWKEY_NO_ERROR demo_env" "HWKEY_ERR_NOT_FOUND demo_cold = HWKEY_ERR_NOT_FOUND demo_env"
  "list_in_list demo_cold = list_in_list demo_env" "list_add_tail demo_cold = list_add_tail demo_env"
  "list_delete demo_cold = list_delete demo_env" "k_set_cookie demo_cold = k_set_cookie demo_env"
  "k_close demo_cold = k_close demo_env" "k_port_create demo_cold = k_port_create demo_env"
  "k_accept demo_cold = k_accept demo_env" "k_put_msg demo_cold = k_put_msg demo_env"
  "k_send_msg demo_cold = k_send_msg demo_env" "k_wait_any demo_cold = k_wait_any demo_env"
  by (simp_all add: demo_cold_def)

lemma demo_cold_env_ok: "env_ok dw_cookies demo_cold"
proof -
  have "dma_ok demo_cold = dma_ok demo_env" "ipc_ok demo_cold = ipc_ok demo_env" "err_ok demo_cold = err_ok demo_env"
    "list_ok demo_cold = list_ok demo_env" "cookies_ok ck demo_cold = cookies_ok ck demo_env" for ck
    by (simp_all only: dma_ok_def ipc_ok_def err_ok_def list_ok_def cookies_ok_def demo_cold_sel)
  moreover have "quiet dw_cookies demo_cold" by (simp add: quiet_def demo_cold_def demo_env_def)
  ultimately show ?thesis
    by (simp add: env_ok_def demo_dma_ok demo_ipc_ok demo_err_ok demo_list_ok demo_cookies_ok)
qed

lemma demo_cold_live: "caam_live demo_cold 0x40000000 0"
proof -
  have "map (dma_ram demo_cold w (Rings, 4)) [0..<8] = le32 0 @ le32 0" for w
    by (simp add: demo_cold_def demo_env_def le32_def upt_rec)
  then show ?thesis by (auto simp: caam_live_def demo_cold_def demo_env_def intro!: exI [of _ 0])
qed

lemma demo_cold_boot_live: "boot_live demo_cold 0x40000000 0"
  unfolding boot_live_def rng_live_def using demo_cold_live
  by (simp add: demo_cold_def demo_env_def MAP_FAILED_def RDSTA_IF0_def RDSTA_SKVN_def push_bit_eq_mult)

lemma demo_magic: "strncmp_eq (kbox_field demo_boot 0 4) (clit KEYPACK_MAGIC) 4"
proof -
  have "kbox_field demo_boot 0 4 = clit ''!KS''"
    by (simp add: kbox_field_def demo_boot_def demo_kbox_def clit_def)
  then show ?thesis by (simp add: KEYPACK_MAGIC_def clit_def eval_nat_numeral)
qed

lemma demo_expected:
  "k_wait_any demo_env w = ((0, e), w') \<Longrightarrow> ev_event e \<subseteq> expected_flags (ev_cookie e)"
  by (auto simp: demo_env_def demo_wait_any_def split: list.splits)

text \<open>The program as it is loaded, with a client that connects to the key service first.\<close>

definition demo_visit :: "demo_world hwkey_state" where
  "demo_visit = demo_boot\<lparr>world := demo_world0\<lparr>dw_events := [(1, {IPC_HANDLE_POLL_READY})]\<rparr>\<rparr>"

lemma demo_visit_boot_state: "boot_state dw_cookies demo_visit"
  using demo_boot_state by (simp add: boot_state_def demo_visit_def key_bufs_def demo_world0_def skeymod_def)

lemma init_keeps:
  assumes "quiet obs E" and "\<And>nm n len w. obs (snd (k_port_create E nm n len w)) = obs w"
    and "\<And>h c w. obs (snd (k_set_cookie E h c w)) = obs w" and "\<And>h w. obs (k_close E h w) = obs w"
  shows "keeps obs (main_init E)"
proof -
  have k: "keeps obs (sys (k_port_create E nm n len))" "keeps obs (sys (k_set_cookie E h c))"
    "keeps obs (close E h)" for nm n len h c
    using assms(2-4) by (auto simp: close_def intro!: keeps_sys keeps_sys_do)
  show ?thesis
    unfolding main_init_def hwrng_init_srv_provider_def hwrng_start_service_def hwkey_init_srv_provider_def
      hwkey_install_keys_def hwkey_start_service_def Let_def
    by (intro keeps_intros keeps_init_caam_env [OF assms(1)] keeps_unpack_kbox [OF assms(1)] k; simp)
qed

lemma demo_init_events: "keeps dw_events (main_init demo_env)"
  by (rule init_keeps) (simp_all add: quiet_def demo_env_def)

text \<open>The initialisation returns, and so does the turn that serves the client.\<close>

lemma demo_visit_turn:
  "\<exists>s1 s2. main_init demo_env demo_visit = Inr (0, s1) \<and> loop_turn demo_env s1 = Inr (None, s2) \<and> reach demo_env demo_visit s2"
proof -
  have m: "strncmp_eq (kbox_field demo_visit 0 4) (clit KEYPACK_MAGIC) 4"
    using demo_magic by (simp add: kbox_field_def demo_visit_def)
  from main_init_rets [OF demo_env_ok demo_visit_boot_state demo_boot_live m]
  obtain s1 where s1: "main_init demo_env demo_visit = Inr (0, s1)" "app_inv dw_cookies s1" by (auto simp: rets_def)
  have "dw_events (world s1) = dw_events (world demo_visit)"
    using demo_init_events s1(1) unfolding keeps_def by blast
  then have "dw_events (world s1) = [(1, {IPC_HANDLE_POLL_READY})]" by (simp add: demo_visit_def)
  then have w: "fst (fst (k_wait_any demo_env (world s1))) = 0" by (simp add: demo_env_def demo_wait_any_def)
  have "rets (loop_turn demo_env) (\<lambda>_ _. True) s1"
    by (rule rets_mono [OF loop_turn_rets [OF demo_env_ok s1(2) demo_live]]) (auto dest: demo_expected)
  then obtain r s2 where t: "loop_turn demo_env s1 = Inr (r, s2)" by (auto simp: rets_def)
  then have "r = None"
    using w by (auto simp: loop_turn_def prog_simps sys_def split: prod.splits sum.splits if_splits)
  with s1 t show ?thesis by (blast intro: reach.intros)
qed

lemma demo_bufs:
  "in_obj demo_app (Skeymod, 0) 16" "in_obj demo_app (Rpmb_keyblob, 0) 80" "in_obj demo_app (Key_data, 0) 32"
  "in_obj demo_app (Key_data, 0) 80" "in_obj demo_app (Req_data, 0) 32" "in_obj demo_app (Rng_data, 0) 4096"
  "in_obj demo_app (Kdfv1_key, 0) 32" "dma_windows demo_app = []"
  by (simp_all add: in_obj_def demo_app_def demo_boot_def skeymod_def)

text \<open>The id of the RPMB slot, as a client sends it.\<close>

definition demo_rpmb_id :: "byte list" where
  "demo_rpmb_id = map of_char RPMB_SS_AUTH_KEY_ID"

lemma length_demo_rpmb_id: "length demo_rpmb_id = 36"
  by (simp add: demo_rpmb_id_def RPMB_SS_AUTH_KEY_ID_def)

end
