(* ===== verification/Hwkey_Spec.thy ===== *)
theory Hwkey_Spec
  imports Serve_Live
begin

text \<open>
  What the key service promises, as a function from the state of the service, the client and
  its message to the replies it may get, and the refinement: the handlers of hwkey_srv.c over
  the provider send exactly such a reply. The key derivation is a function of its inputs; of
  the slots the one the client asks for is found with \<^verbatim>\<open>find\<close>; only the RPMB key is left to
  the device.
\<close>

section \<open>The specification\<close>

text \<open>The header of a reply: the request's, with the status and the response bit.\<close>

definition response :: "'w env \<Rightarrow> hwkey_msg \<Rightarrow> u32 \<Rightarrow> byte list" where
  "response E hdr st = bytes_of_hwkey_msg E (hdr\<lparr>status := st, cmd := cmd hdr OR HWKEY_RESP_BIT E\<rparr>)"

text \<open>A reply: the header it is made from, its status and its payload.\<close>

type_synonym key_reply = "hwkey_msg \<times> u32 \<times> byte list"

text \<open>
  Key derivation: the best version is version 1, no other one is implemented, and the output is
  as long as the input, which must not be empty.
\<close>

definition derive_answer :: "'w env \<Rightarrow> byte list \<Rightarrow> uuid \<Rightarrow> hwkey_msg \<Rightarrow> byte list \<Rightarrow> key_reply" where
  "derive_answer E root client hdr ikm =
     (let hdr' = (if arg1 hdr = HWKEY_KDF_VERSION_BEST E then hdr\<lparr>arg1 := HWKEY_KDF_VERSION_1 E\<rparr> else hdr) in
      if arg1 hdr' \<noteq> HWKEY_KDF_VERSION_1 E then (hdr', HWKEY_ERR_NOT_IMPLEMENTED E, [])
      else if ikm = [] then (hdr', HWKEY_ERR_BAD_LEN E, [])
      else case HKDF E (length ikm) root client ikm of (ok, okm) \<Rightarrow>
        if ok then (hdr', HWKEY_NO_ERROR E, map okm [0..<length ikm]) else (hdr', HWKEY_ERR_GENERIC E, []))"

text \<open>
  A slot matches a request when its id is the requested one and the client is its owner; it
  serves the request when it has a handler, too.
\<close>

definition slot_matches :: "uuid \<Rightarrow> byte list \<Rightarrow> hwkey_keyslot \<Rightarrow> bool" where
  "slot_matches client req x \<longleftrightarrow> cstr (key_id x) = cstr req \<and> take sizeof_uuid client = take sizeof_uuid (slot_uuid x)"

definition slot_serves :: "uuid \<Rightarrow> byte list \<Rightarrow> hwkey_keyslot \<Rightarrow> bool" where
  "slot_serves client req x \<longleftrightarrow> slot_matches client req x \<and> slot_handler x \<noteq> None"

text \<open>What a slot handler may answer, given the length of the RPMB blob.\<close>

fun handler_answers :: "'w env \<Rightarrow> u32 \<Rightarrow> key_handler \<Rightarrow> (u32 \<times> byte list) set" where
  "handler_answers E blob_len Get_rpmb_ss_auth_key =
     (if blob_len \<noteq> RPMBKEY_LEN then {(HWKEY_ERR_NOT_FOUND E, [])}
      else insert (HWKEY_ERR_GENERIC E, []) {(HWKEY_NO_ERROR E, map (dma_ram E w (Key_data, 0)) [0..<32]) | w. True})"
| "handler_answers E blob_len Get_unittest_key32 = {(HWKEY_NO_ERROR E, unittest_key32)}"

definition lookup_answers ::
  "'w env \<Rightarrow> u32 \<Rightarrow> uuid \<Rightarrow> byte list \<Rightarrow> hwkey_keyslot list \<Rightarrow> (u32 \<times> byte list) set" where
  "lookup_answers E blob_len client req sl =
     (case find (slot_serves client req) sl of
        None \<Rightarrow> {(HWKEY_ERR_NOT_FOUND E, [])}
      | Some x \<Rightarrow> handler_answers E blob_len (the (slot_handler x)))"

definition slot_answers ::
  "'w env \<Rightarrow> u32 \<Rightarrow> uuid \<Rightarrow> byte list \<Rightarrow> hwkey_keyslot list \<Rightarrow> (u32 \<times> byte list) set" where
  "slot_answers E blob_len client req sl =
     (\<Union>r \<in> lookup_answers E blob_len client req sl.
        if with_hwcrypto_unittest E \<and> fst r = HWKEY_ERR_NOT_FOUND E
        then lookup_answers E blob_len client req (test_key_slots E) else {r})"

text \<open>The slots that are installed.\<close>

definition installed :: "('w, 'z) hwkey_state_scheme \<Rightarrow> hwkey_keyslot list" where
  "installed s = (case key_slots s of None \<Rightarrow> [] | Some sl \<Rightarrow> take (unat (key_slot_cnt s)) sl)"

definition key_answers ::
  "'w env \<Rightarrow> ('w, 'z) hwkey_state_scheme \<Rightarrow> uuid \<Rightarrow> hwkey_msg \<Rightarrow> byte list \<Rightarrow> key_reply set" where
  "key_answers E s client hdr payload =
     (if cmd hdr = HWKEY_GET_KEYSLOT E
      then {(hdr, r) | r. r \<in> slot_answers E (rpmb_keyblob_len s) client (payload @ [0]) (installed s)}
      else if cmd hdr = HWKEY_DERIVE E then {derive_answer E (mem s Kdfv1_key) client hdr payload}
      else {(hdr, HWKEY_ERR_NOT_IMPLEMENTED E, [])})"

section \<open>Key derivation\<close>

text \<open>Running a pair of segments through the kernel; nothing of the program changes.\<close>

definition sends ::
  "'w env \<Rightarrow> handle \<Rightarrow> byte list list \<Rightarrow> ('w, 'z) hwkey_state_scheme \<Rightarrow> stop + int \<times> ('w, 'z) hwkey_state_scheme" where
  "sends E chan segs s = (case k_send_msg E chan segs (world s) of (rc, w) \<Rightarrow> Inr (rc, s\<lparr>world := w\<rparr>))"

lemma put_wiped:
  assumes "all_zero (mem s Key_data)" and "length bs \<le> length (mem s Key_data)" and "n = length bs"
  shows "put_mem (Key_data, 0) (replicate n 0) (put_mem (Key_data, 0) bs s) = s"
proof -
  have "overwrite 0 (replicate n 0) (mem s Key_data) = mem s Key_data"
    using assms by (intro overwrite_zeros) simp_all
  then have "(mem s)(Key_data := overwrite 0 (replicate n 0) (mem s Key_data)) = mem s" by auto
  with assms(2,3) show ?thesis by (simp add: put_mem_def)
qed

text \<open>The end of a command: the reply goes out and a clean key buffer is left.\<close>

lemma reply_sends:
  assumes "key_ready s" and "length bs = unat klen" "unat klen \<le> HWKEY_MAX_PAYLOAD_SIZE"
  shows "mbind (hwkey_send_rsp E ctx (hdr\<lparr>status := st\<rparr>) (Key_data, 0) klen) (\<lambda>rc.
     mthen (if klen \<noteq> 0 then memset (Key_data, 0) 0 (unat klen) else mret ()) (mret rc)) (put_mem (Key_data, 0) bs s) =
    sends E (key_chan ctx) [response E hdr st, bs] s"
proof -
  let ?t = "put_mem (Key_data, 0) bs s"
  have len: "length (mem s Key_data) = HWKEY_MAX_PAYLOAD_SIZE" "all_zero (mem s Key_data)"
    using assms(1) by (simp_all add: key_ready_def key_bufs_def)
  have w: "put_mem (Key_data, 0) (replicate (unat klen) 0) ?t = s" using len assms by (intro put_wiped) simp_all
  have m: "take (unat klen) (mem ?t Key_data) = bs" using len assms by (simp add: overwrite_def)
  have e: "?t = s" if "klen = 0" using that assms(2) by (simp add: put_mem_def)
  show ?thesis
    using len assms w m e
    by (simp add: prog_simps hwkey_send_rsp_def tipc_send_two_segments_def mread_def in_obj_def
        memset_def mwrite_def sys_def sends_def response_def split: prod.splits)
qed

lemma derive_v1_answer:
  assumes rdy: "key_ready s" and n: "unat n \<le> HWKEY_MAX_PAYLOAD_SIZE" and ikm: "ikm = take (unat n) (mem s Req_data)"
  shows "derive_key_v1 E client (Req_data, 0) n (Key_data, 0) sizeof_key_data s =
    (if n = 0 then Inr ((HWKEY_ERR_BAD_LEN E, 0), s) else
     case HKDF E (unat n) (mem s Kdfv1_key) client ikm of (ok, okm) \<Rightarrow>
       if ok then Inr ((HWKEY_NO_ERROR E, n), put_mem (Key_data, 0) (map okm [0..<unat n]) s)
       else Inr ((HWKEY_ERR_GENERIC E, 0), s))"
proof -
  have len: "length (mem s Key_data) = HWKEY_MAX_PAYLOAD_SIZE" "all_zero (mem s Key_data)"
    "length (mem s Kdfv1_key) = 32" "length (mem s Req_data) = HWKEY_MAX_PAYLOAD_SIZE + 1"
    using rdy by (simp_all add: key_ready_def key_bufs_def)
  have w: "put_mem (Key_data, 0) (replicate (unat n) 0) (put_mem (Key_data, 0) (map okm [0..<unat n]) s) = s" for okm
    using len n by (intro put_wiped) simp_all
  show ?thesis
    using n len w ikm
    by (auto simp: derive_key_v1_def prog_simps mread_def mwrite_def memset_def in_obj_def split: prod.splits)
qed

text \<open>The command does what the specification says: one message is sent, and nothing else changes.\<close>

lemma derive_cmd_answer:
  assumes rdy: "key_ready s" and n: "unat n \<le> HWKEY_MAX_PAYLOAD_SIZE" and ikm: "ikm = take (unat n) (mem s Req_data)"
    and ans: "derive_answer E (mem s Kdfv1_key) (ctx_uuid ctx) hdr ikm = (h, st, k)"
  shows "hwkey_handle_derive_key_cmd E (derive_key_v1 E) ctx hdr (Req_data, 0) n s =
    sends E (key_chan ctx) [response E h st, k] s"
proof -
  let ?h = "if arg1 hdr = HWKEY_KDF_VERSION_BEST E then hdr\<lparr>arg1 := HWKEY_KDF_VERSION_1 E\<rparr> else hdr"
  have l: "length ikm = unat n"
    using rdy n by (simp add: ikm key_ready_def key_bufs_def)
  then have n0: "ikm = [] \<longleftrightarrow> n = 0" by (metis length_0_conv unat_eq_0)
  note rep = reply_sends [OF rdy, where E = E and ctx = ctx and hdr = ?h] 
  have e: "put_mem (Key_data, 0) [] s = s" by (simp add: put_mem_def)
  note rep0 = rep [of "[]" 0, unfolded e]
  show ?thesis
    using ans rep0 rep [of "map f [0..<unat n]" n for f] n n0 l
    unfolding hwkey_handle_derive_key_cmd_def Let_def derive_answer_def prog_run(2) [of "if b then x else y" for b x y]
    by (auto simp: derive_v1_answer [OF rdy n ikm] prog_run(1) split: if_splits prod.splits)
qed

section \<open>Key slots\<close>

text \<open>The loop over the slots is a search for the first slot that serves the request.\<close>

lemma handle_slots_loop_find:
  assumes id: "0 \<in> set (mem s Req_data)" and sl: "\<forall>x \<in> set sl. 0 \<in> set (key_id x)"
  shows "i + n \<le> length sl \<Longrightarrow> handle_slots_loop E call ctx (Req_data, 0) sl i n kbuf kbuf_len klen s =
    (case find (slot_serves (ctx_uuid ctx) (mem s Req_data)) (take n (drop i sl)) of
       None \<Rightarrow> Inr ((HWKEY_ERR_NOT_FOUND E, klen), s)
     | Some x \<Rightarrow> call (the (slot_handler x)) x kbuf kbuf_len klen s)"
proof (induction n arbitrary: i)
  case (Suc n)
  then have "0 \<in> set (key_id (sl ! i))" "take (Suc n) (drop i sl) = sl ! i # take n (drop (Suc i) sl)"
    using sl by (simp_all add: take_Suc_conv_app_nth Cons_nth_drop_Suc [symmetric])
  with Suc id show ?case
    by (auto simp: prog_simps strcmp_eq_cstr slot_serves_def slot_matches_def memcmp_eq_def split: option.splits)
qed (simp add: prog_simps)

lemma handle_slots_find:
  assumes "0 \<in> set (mem s Req_data)" and "slots_ok slots cnt"
  shows "handle_slots E call ctx (Req_data, 0) slots cnt kbuf kbuf_len klen s =
    (case find (slot_serves (ctx_uuid ctx) (mem s Req_data)) (case slots of None \<Rightarrow> [] | Some sl \<Rightarrow> take (unat cnt) sl) of
       None \<Rightarrow> Inr ((HWKEY_ERR_NOT_FOUND E, klen), s)
     | Some x \<Rightarrow> call (the (slot_handler x)) x kbuf kbuf_len klen s)"
  using assms handle_slots_loop_find [OF assms(1), of "the slots" 0 "unat cnt"]
  by (cases slots) (simp_all add: handle_slots_def slots_ok_def prog_simps)

lemma slot_serves_cstr: "cstr req = cstr req' \<Longrightarrow> slot_serves client req = slot_serves client req'"
  by (auto simp: slot_serves_def slot_matches_def)

lemma slot_answers_cstr:
  assumes "cstr req = cstr req'"
  shows "slot_answers E n client req sl = slot_answers E n client req' sl"
  by (simp add: slot_answers_def lookup_answers_def slot_serves_cstr [OF assms])

text \<open>The handlers answer as specified.\<close>

lemma wp_handler_answers:
  assumes ok: "dma_ok E" and rdy: "key_ready s"
  shows "wp (call_handler E h slot (Key_data, 0) sizeof_key_data 0)
    (\<lambda>(st, klen) t. (st, take (unat klen) (mem t Key_data)) \<in> handler_answers E (rpmb_keyblob_len s) h) s"
proof (cases h)
  case Get_rpmb_ss_auth_key
  have z: "length (mem s Key_data) = HWKEY_MAX_PAYLOAD_SIZE" "dma_windows s = []" "caam_ready s"
    using rdy by (simp_all add: key_ready_def key_bufs_def)
  have obj: "in_obj s (Skeymod, 0) 16" "in_obj s (Rpmb_keyblob, 0) 80" "in_obj s (Key_data, 0) 32"
    using rdy by (simp_all add: in_obj_def key_ready_def key_bufs_def HWKEY_MAX_PAYLOAD_SIZE_def)
  have post: "length (mem t Key_data) = HWKEY_MAX_PAYLOAD_SIZE \<and>
      (r = CAAM_SUCCESS \<longrightarrow> (\<exists>w. take 32 (mem t Key_data) = map (dma_ram E w (Key_data, 0)) [0..<32]))"
    if "job_post E (Key_data, 0) 32 s r t" for r t
  proof -
    have "mem t Key_data = overwrite 0 (map (dma_ram E (world t) (Key_data, 0)) [0..<32]) (mem s Key_data)"
      if "r = CAAM_SUCCESS" using \<open>job_post E (Key_data, 0) 32 s r t\<close> that by (auto simp: job_post_def)
    then have "take 32 (mem t Key_data) = map (dma_ram E (world t) (Key_data, 0)) [0..<32]" if "r = CAAM_SUCCESS"
      using z that by (simp add: overwrite_def HWKEY_MAX_PAYLOAD_SIZE_def)
    then show ?thesis using that z by (auto simp: job_post_def HWKEY_MAX_PAYLOAD_SIZE_def)
  qed
  have "wp (caam_decap_blob E (Skeymod, 0) 16 (Key_data, 0) (Rpmb_keyblob, 0) 32) (job_post E (Key_data, 0) 32 s) s"
    using obj z by (intro wp_caam_decap_blob [OF ok]) (simp_all add: CAAM_KB_HEADER_LEN_def)
  then show ?thesis
    unfolding Get_rpmb_ss_auth_key call_handler.simps get_rpmb_ss_auth_key_def
    by (auto simp: RPMB_SS_AUTH_KEY_SIZE_def in_obj_def HWKEY_MAX_PAYLOAD_SIZE_def dest!: post elim!: wp_mono)
next
  case Get_unittest_key32
  then show ?thesis
    using rdy by (simp add: get_unittest_key32_def in_obj_def key_ready_def key_bufs_def unittest_key32_def
        HWKEY_MAX_PAYLOAD_SIZE_def overwrite_def)
qed

lemma keeps_handle_slots [keeps_intros]:
  assumes "quiet obs E"
  shows "keeps obs (handle_slots E (call_handler E) ctx slot_id slots cnt kbuf kbuf_len klen)"
proof -
  have call: "keeps obs (call_handler E h slot kbuf kbuf_len klen)" for h slot
    using assms by (cases h) (simp_all add: get_rpmb_ss_auth_key_def get_unittest_key32_def keeps_intros)
  have "keeps obs (handle_slots_loop E (call_handler E) ctx slot_id sl i n kbuf kbuf_len klen)" for sl i n
    by (induction n arbitrary: i) (auto split: option.split intro!: keeps_intros call)
  then show ?thesis unfolding handle_slots_def by (cases slots) (auto intro!: keeps_intros)
qed

lemma wp_lookup_answers:
  assumes env: "env_ok ck E" and log: "quiet log E" and rdy: "key_ready s" and id: "0 \<in> set (mem s Req_data)" and sl: "slots_ok slots cnt"
  shows "wp (handle_slots E (call_handler E) ctx (Req_data, 0) slots cnt (Key_data, 0) sizeof_key_data 0)
    (\<lambda>(st, klen) t. key_post ck E s (st, klen) t \<and> log (world t) = log (world s) \<and> (st, take (unat klen) (mem t Key_data)) \<in>
       lookup_answers E (rpmb_keyblob_len s) (ctx_uuid ctx) (mem s Req_data)
         (case slots of None \<Rightarrow> [] | Some sl \<Rightarrow> take (unat cnt) sl)) s"
proof -
  have "wp (handle_slots E (call_handler E) ctx (Req_data, 0) slots cnt (Key_data, 0) sizeof_key_data 0)
    (\<lambda>(st, klen) t. (st, take (unat klen) (mem t Key_data)) \<in>
       lookup_answers E (rpmb_keyblob_len s) (ctx_uuid ctx) (mem s Req_data)
         (case slots of None \<Rightarrow> [] | Some sl \<Rightarrow> take (unat cnt) sl)) s"
    using wp_handler_answers [OF env_okD(1) [OF env] rdy]
    by (auto simp: wp_def handle_slots_find [OF id sl] lookup_answers_def split: option.splits)
  moreover have "wp (handle_slots E (call_handler E) ctx (Req_data, 0) slots cnt (Key_data, 0) sizeof_key_data 0)
    (key_post ck E s) s"
    by (rule caam_keys.wp_handle_slots [OF env rdy id sl])
  ultimately show ?thesis
    using keeps_handle_slots [OF log] by (fastforce simp: wp_def keeps_def split: sum.splits)
qed

text \<open>What a reply puts on the channel.\<close>

lemma wp_reply_sent:
  assumes inv: "hwkey_inv ck s" and post: "key_post ck E s (st, klen) t"
    and Q: "\<And>rc u. k_send_msg E (key_chan ctx) [response E hdr st, take (unat klen) (mem t Key_data)] (world t) = (rc, world u) \<Longrightarrow> Q rc u"
  shows "wp (mbind (hwkey_send_rsp E ctx (hdr\<lparr>status := st\<rparr>) (Key_data, 0) klen) (\<lambda>rc.
     mthen (if klen \<noteq> 0 then memset (Key_data, 0) 0 (unat klen) else mret ()) (mret rc))) Q t"
proof -
  have obj: "in_obj t (Key_data, 0) (unat klen)"
    using post inv by (simp add: in_obj_def key_post_def hwkey_inv_def key_ready_def key_bufs_def)
  show ?thesis
    unfolding wp_basic(2) hwkey_send_rsp_def
    by (intro wp_send_two [OF obj]) (auto simp: obj response_def intro!: Q)
qed

text \<open>A request no slot answers is tried on the unit test slot, when that is built in.\<close>

lemma wp_unittest_lookup:
  assumes env: "env_ok ck E" and log: "quiet log E" and rdy: "key_ready s" and id: "0 \<in> set (mem s Req_data)"
    and t: "key_post ck E s (HWKEY_ERR_NOT_FOUND E, klen) t"
  shows "wp (handle_slots E (call_handler E) ctx (Req_data, 0) (Some (test_key_slots E))
      (of_nat (length (test_key_slots E))) (Key_data, 0) sizeof_key_data klen)
    (\<lambda>(st, kl) u. key_post ck E s (st, kl) u \<and> log (world u) = log (world t) \<and> (st, take (unat kl) (mem u Key_data)) \<in>
       lookup_answers E (rpmb_keyblob_len s) (ctx_uuid ctx) (mem s Req_data) (test_key_slots E)) t"
proof -
  have k: "klen = 0" using t not_found_err [OF env] by (simp add: key_post_def)
  have f: "mem t Req_data = mem s Req_data" "rpmb_keyblob_len t = rpmb_keyblob_len s"
    using t hwkey_more_sel(4) by (auto simp: key_post_def drv_frame_def)
  have t': "key_ready t" "0 \<in> set (mem t Req_data)" using id f key_post_ready [OF rdy t [unfolded k]] by simp_all
  have tst: "slots_ok (Some (test_key_slots E)) (of_nat (length (test_key_slots E)))"
    by (simp add: slots_ok_def test_key_slots_def clit_def)
  show ?thesis
    unfolding k using key_post_trans [OF t]
    by (intro wp_mono [OF wp_lookup_answers [OF env log t' tst, where ctx = ctx]]) (auto simp: f test_key_slots_def)
qed

lemma wp_keyslot_answers:
  assumes env: "env_ok ck E" and log: "quiet log E" and inv: "hwkey_inv ck s" and id: "0 \<in> set (mem s Req_data)"
  shows "wp (hwkey_handle_get_keyslot_cmd E (call_handler E) ctx hdr (Req_data, 0)) (\<lambda>rc s'. \<exists>st k w.
    (st, k) \<in> slot_answers E (rpmb_keyblob_len s) (ctx_uuid ctx) (mem s Req_data) (installed s) \<and>
    log w = log (world s) \<and> k_send_msg E (key_chan ctx) [response E hdr st, k] w = (rc, world s')) s" (is "wp _ ?Q s")
proof -
  let ?look = "lookup_answers E (rpmb_keyblob_len s) (ctx_uuid ctx) (mem s Req_data)"
  let ?tail = "\<lambda>(st, klen). mbind (hwkey_send_rsp E ctx (hdr\<lparr>status := st\<rparr>) (Key_data, 0) klen) (\<lambda>rc.
     mthen (if klen \<noteq> 0 then memset (Key_data, 0) 0 (unat klen) else mret ()) (mret rc))"
  have rdy: "key_ready s" and sl: "slots_ok (key_slots s) (key_slot_cnt s)" using inv by (simp_all add: hwkey_inv_def)
  have tail: "wp (?tail (st, klen)) ?Q t" if "key_post ck E s (st, klen) t" "log (world t) = log (world s)"
    "(st, take (unat klen) (mem t Key_data)) \<in> slot_answers E (rpmb_keyblob_len s) (ctx_uuid ctx) (mem s Req_data) (installed s)"
    for st klen t
    unfolding prod.case by (rule wp_reply_sent [OF inv that(1)]) (use that(2,3) in blast)
  have again: "wp (handle_slots E (call_handler E) ctx (Req_data, 0) (Some (test_key_slots E))
      (of_nat (length (test_key_slots E))) (Key_data, 0) sizeof_key_data klen) (\<lambda>r. wp (?tail r) ?Q) t"
    if t: "key_post ck E s (HWKEY_ERR_NOT_FOUND E, klen) t" "(HWKEY_ERR_NOT_FOUND E, take (unat klen) (mem t Key_data)) \<in> ?look (installed s)"
      "with_hwcrypto_unittest E" "log (world t) = log (world s)" for klen t
  proof (rule wp_mono [OF wp_unittest_lookup [OF env log rdy id t(1), where ctx = ctx]])
    fix r u assume r: "(\<lambda>(st, kl) u. key_post ck E s (st, kl) u \<and> log (world u) = log (world t) \<and>
      (st, take (unat kl) (mem u Key_data)) \<in> ?look (test_key_slots E)) r u"
    obtain st kl where rr: "r = (st, kl)" by (cases r)
    have "(st, take (unat kl) (mem u Key_data)) \<in>
        slot_answers E (rpmb_keyblob_len s) (ctx_uuid ctx) (mem s Req_data) (installed s)"
      using r t(2,3) unfolding rr slot_answers_def by (force intro: bexI)
    then show "wp (?tail r) ?Q u" using r t(4) unfolding rr by (intro tail) simp_all
  qed
  show ?thesis
    unfolding hwkey_handle_get_keyslot_cmd_def wp_basic(2,5) prod.case
    apply (rule wp_mono [OF wp_lookup_answers [OF env log rdy id sl, where ctx = ctx, folded installed_def]])
    subgoal premises r for r t
    proof -
      obtain st klen where rr: "r = (st, klen)" by (cases r)
      have p: "key_post ck E s (st, klen) t" "log (world t) = log (world s)" and l: "(st, take (unat klen) (mem t Key_data)) \<in> ?look (installed s)"
        using r by (simp_all add: rr)
      have "(st, take (unat klen) (mem t Key_data)) \<in>
          slot_answers E (rpmb_keyblob_len s) (ctx_uuid ctx) (mem s Req_data) (installed s)"
        if "\<not> (with_hwcrypto_unittest E \<and> st = HWKEY_ERR_NOT_FOUND E)"
        using l that unfolding slot_answers_def by (intro UN_I [OF l]) auto
      with again [of klen t] tail [of st klen t] p l show ?thesis
        unfolding rr prod.case wp_basic(2) [of "if b then x else y" for b x y] wp_if wp_basic(1) by auto
    qed
    done
qed

section \<open>Messages\<close>

text \<open>The message a client has sent: the kernel announces it and copies it out.\<close>

definition incoming :: "'w env \<Rightarrow> handle \<Rightarrow> 'w \<Rightarrow> byte list \<Rightarrow> byte list \<Rightarrow> 'w \<Rightarrow> bool" where
  "incoming E chan w hdr payload w' \<longleftrightarrow> length hdr = sizeof_hwkey_msg E \<and>
     (\<exists>mi w1 w2. k_get_msg E chan w = ((0, mi), w1) \<and> sizeof_hwkey_msg E \<le> msg_len mi \<and>
       k_read_msg E chan (msg_id mi) [sizeof_hwkey_msg E, HWKEY_MAX_PAYLOAD_SIZE] w1 =
         ((int (length (hdr @ payload)), hdr @ payload), w2) \<and> w' = k_put_msg E chan (msg_id mi) w2)"

lemma recv_incoming:
  assumes "incoming E chan (world s) hdr payload w'" and "in_obj s (Req_data, 0) (length payload)"
  shows "tipc_recv_two_segments E chan (sizeof_hwkey_msg E) (Req_data, 0) HWKEY_MAX_PAYLOAD_SIZE s =
    Inr ((int (sizeof_hwkey_msg E + length payload), hdr), (put_mem (Req_data, 0) payload s)\<lparr>world := w'\<rparr>)"
  using assms by (auto simp: incoming_def tipc_recv_two_segments_def prog_simps sys_def sys_do_def mwrite_def)

lemma cstr_append0: "cstr (bs @ [0] @ cs) = cstr (bs @ [0])"
  by (induction bs) simp_all

text \<open>A slot request up to its handling: the id is in the request buffer, with a zero after it.\<close>

lemma keyslot_request:
  assumes rdy: "key_ready s" and p: "key_ctxs s p = Some c"
    and msg: "incoming E (key_chan c) (world s) hb name w'" and n: "length name \<le> HWKEY_MAX_PAYLOAD_SIZE"
    and cmd: "cmd (hwkey_msg_of E hb) = HWKEY_GET_KEYSLOT E"
    and u: "u = put_mem (Req_data, length name) [0] ((put_mem (Req_data, 0) name s)\<lparr>world := w'\<rparr>)"
  shows "hwkey_chan_handle_msg E call derive p s = hwkey_handle_get_keyslot_cmd E call c (hwkey_msg_of E hb) (Req_data, 0) u"
    and "key_ready u" and "0 \<in> set (mem u Req_data)" and "cstr (mem u Req_data) = cstr (name @ [0])"
    and "u = (put_mem (Req_data, 0) (name @ [0]) s)\<lparr>world := w'\<rparr>"
proof -
  have len: "length (mem s Req_data) = HWKEY_MAX_PAYLOAD_SIZE + 1"
    using rdy by (simp add: key_ready_def key_bufs_def)
  then have obj: "in_obj s (Req_data, 0) (length name)" using n by (simp add: in_obj_def)
  have un: "unat (of_nat (length name) :: u32) = length name" using n by (simp add: unat_of_nat HWKEY_MAX_PAYLOAD_SIZE_def)
  have l: "of_int (int (sizeof_hwkey_msg E + length name)) - of_nat (sizeof_hwkey_msg E) = (of_nat (length name) :: u32)" by simp
  show "hwkey_chan_handle_msg E call derive p s = hwkey_handle_get_keyslot_cmd E call c (hwkey_msg_of E hb) (Req_data, 0) u"
    unfolding hwkey_chan_handle_msg_def u using p cmd n un len obj l
    by (simp add: prog_simps recv_incoming [OF msg obj] Let_def mwrite_def in_obj_def del: of_int_of_nat_eq of_nat_add)
  have "mem u Req_data = name @ [0] @ drop (Suc (length name)) (mem s Req_data)"
    using len n by (simp add: u overwrite_def)
  then show "0 \<in> set (mem u Req_data)" "cstr (mem u Req_data) = cstr (name @ [0])"
    by (simp, simp only: cstr_append0)
  show "key_ready u" using rdy n len by (simp add: u key_ready_def key_bufs_def)
  show "u = (put_mem (Req_data, 0) (name @ [0]) s)\<lparr>world := w'\<rparr>"
    using len n by (simp add: u put_mem_def overwrite_def)
qed

lemma incoming_ck:
  assumes "cookies_ok ck E" and "incoming E chan w hdr payload w'"
  shows "ck w' = ck w"
  using assms unfolding incoming_def cookies_ok_def by (metis snd_conv)

lemma incoming_log:
  assumes "sent_log log E" and "incoming E chan w hdr payload w'"
  shows "log w' = log w"
  using assms unfolding incoming_def sent_log_def by (metis snd_conv)

text \<open>
  A request to derive a key, from the message to the reply: what is left of it in the program
  is that the bytes it took in the request buffer are zero.
\<close>

lemma derive_request:
  assumes rdy: "key_ready s" and p: "key_ctxs s p = Some c"
    and msg: "incoming E (key_chan c) (world s) hb ikm w'" and n: "length ikm \<le> HWKEY_MAX_PAYLOAD_SIZE"
    and cmd: "cmd (hwkey_msg_of E hb) = HWKEY_DERIVE E" "HWKEY_DERIVE E \<noteq> HWKEY_GET_KEYSLOT E"
    and ans: "derive_answer E (mem s Kdfv1_key) (ctx_uuid c) (hwkey_msg_of E hb) ikm = (h, st, k)"
    and snd: "k_send_msg E (key_chan c) [response E h st, k] w' = (rc, w'')"
  shows "hwkey_chan_handle_msg E call (derive_key_v1 E) p s =
    Inr (rc, (put_mem (Req_data, 0) (replicate (length ikm) 0) s)\<lparr>world := w''\<rparr>)"
proof -
  let ?t = "(put_mem (Req_data, 0) ikm s)\<lparr>world := w'\<rparr>" and ?n = "of_nat (length ikm) :: u32"
  have len: "length (mem s Req_data) = HWKEY_MAX_PAYLOAD_SIZE + 1"
    using rdy by (simp add: key_ready_def key_bufs_def)
  then have obj: "in_obj s (Req_data, 0) (length ikm)" using n by (simp add: in_obj_def)
  have un: "unat ?n = length ikm" using n by (simp add: unat_of_nat HWKEY_MAX_PAYLOAD_SIZE_def)
  have rdy': "key_ready ?t" using rdy n len by (simp add: key_ready_def key_bufs_def)
  have m: "ikm = take (unat ?n) (mem ?t Req_data)" "mem ?t Kdfv1_key = mem s Kdfv1_key"
    using len n un by (simp_all add: overwrite_def)
  have der: "hwkey_handle_derive_key_cmd E (derive_key_v1 E) c (hwkey_msg_of E hb) (Req_data, 0) ?n ?t = Inr (rc, ?t\<lparr>world := w''\<rparr>)"
    using derive_cmd_answer [OF rdy' _ m(1), of E c] n un ans m(2) snd by (simp add: sends_def)
  have l: "of_int (int (sizeof_hwkey_msg E + length ikm)) - of_nat (sizeof_hwkey_msg E) = ?n" by simp
  show ?thesis
    unfolding hwkey_chan_handle_msg_def
    using p cmd un len n obj l
    by (simp add: prog_simps recv_incoming [OF msg obj] Let_def der memset_def mwrite_def in_obj_def
        del: of_int_of_nat_eq of_nat_add) (simp add: put_mem_def)
qed

lemma unsupported_request:
  assumes rdy: "key_ready s" and p: "key_ctxs s p = Some c"
    and msg: "incoming E (key_chan c) (world s) hb payload w'" and n: "length payload \<le> HWKEY_MAX_PAYLOAD_SIZE"
    and cmd: "cmd (hwkey_msg_of E hb) \<notin> {HWKEY_GET_KEYSLOT E, HWKEY_DERIVE E}"
    and snd: "k_send_msg E (key_chan c) [response E (hwkey_msg_of E hb) (HWKEY_ERR_NOT_IMPLEMENTED E), []] w' = (rc, w'')"
  shows "hwkey_chan_handle_msg E call derive p s = Inr (rc, (put_mem (Req_data, 0) payload s)\<lparr>world := w''\<rparr>)"
proof -
  have obj: "in_obj s (Req_data, 0) (length payload)"
    using rdy n by (simp add: key_ready_def key_bufs_def in_obj_def)
  show ?thesis
    unfolding hwkey_chan_handle_msg_def
    using p cmd snd by (simp add: prog_simps recv_incoming [OF msg obj] Let_def hwkey_send_rsp_def
        tipc_send_two_segments_def mread_def in_obj_def sys_def response_def)
qed

text \<open>The refinement: whatever is received, the reply is one of those specified.\<close>

lemma wp_key_answers:
  fixes s :: "('w, 'z) hwkey_state_scheme"
  assumes env: "env_ok ck E" and log: "sent_log log E" and inv: "hwkey_inv ck s" and p: "key_ctxs s p = Some c"
    and msg: "incoming E (key_chan c) (world s) hb payload w'" and n: "length payload \<le> HWKEY_MAX_PAYLOAD_SIZE"
  shows "wp (hwkey_chan_handle_msg E (call_handler E) (derive_key_v1 E) p) (\<lambda>rc s'. \<exists>h st k w.
    (h, st, k) \<in> key_answers E s (ctx_uuid c) (hwkey_msg_of E hb) payload \<and>
    log w = log (world s) \<and> k_send_msg E (key_chan c) [response E h st, k] w = (rc, world s')) s" (is "wp _ ?Q s")
proof -
  have q: "quiet log E" "log w' = log (world s)" using log incoming_log [OF log msg] by (simp_all add: sent_log_def)
  have rdy: "key_ready s" using inv by (simp add: hwkey_inv_def)
  obtain h st k where ans: "derive_answer E (mem s Kdfv1_key) (ctx_uuid c) (hwkey_msg_of E hb) payload = (h, st, k)"
    by (metis surj_pair)
  consider "cmd (hwkey_msg_of E hb) = HWKEY_GET_KEYSLOT E"
    | "cmd (hwkey_msg_of E hb) = HWKEY_DERIVE E" "HWKEY_DERIVE E \<noteq> HWKEY_GET_KEYSLOT E"
    | "cmd (hwkey_msg_of E hb) \<notin> {HWKEY_GET_KEYSLOT E, HWKEY_DERIVE E}"
    by (cases "cmd (hwkey_msg_of E hb) = HWKEY_GET_KEYSLOT E"; cases "cmd (hwkey_msg_of E hb) = HWKEY_DERIVE E") auto
  then show ?thesis
  proof cases
    case 1
    define u where "u = put_mem (Req_data, length payload) [0] ((put_mem (Req_data, 0) payload s)\<lparr>world := w'\<rparr>)"
    note r = keyslot_request [OF rdy p msg n 1 u_def]
    have u: "hwkey_inv ck u" "rpmb_keyblob_len u = rpmb_keyblob_len s" "installed u = installed s" "world u = w'"
      using req_written(1) [OF inv, of 0 "payload @ [0]" w'] n incoming_ck [OF env_okD(6) [OF env] msg]
      unfolding r(5) by (simp_all add: installed_def put_mem_def cong: option.case_cong)
    have "wp (hwkey_handle_get_keyslot_cmd E (call_handler E) c (hwkey_msg_of E hb) (Req_data, 0)) ?Q u"
      by (rule wp_mono [OF wp_keyslot_answers [OF env q(1) u(1) r(3)]])
         (use 1 in \<open>auto simp: key_answers_def u slot_answers_cstr [OF r(4)] q(2)\<close>)
    then show ?thesis by (simp add: wp_def r(1))
  next
    case 2
    obtain rc w'' where "k_send_msg E (key_chan c) [response E h st, k] w' = (rc, w'')" by fastforce
    then show ?thesis
      using derive_request [OF rdy p msg n 2 ans] 2 ans q(2) by (auto simp: wp_def key_answers_def)
  next
    case 3
    obtain rc w'' where "k_send_msg E (key_chan c) [response E (hwkey_msg_of E hb) (HWKEY_ERR_NOT_IMPLEMENTED E), []] w' = (rc, w'')"
      by fastforce
    then show ?thesis
      using unsupported_request [OF rdy p msg n 3] 3 q(2) by (auto simp: wp_def key_answers_def)
  qed
qed

section \<open>The RPMB key\<close>

text \<open>The device has unsealed one of the keys \<open>K\<close> allows in its world into the key buffer.\<close>

definition key_job :: "('w \<Rightarrow> byte list set) \<Rightarrow> ('w, 'z) hwkey_state_scheme \<Rightarrow> ('w, 'z) hwkey_state_scheme \<Rightarrow> bool" where
  "key_job K s t \<longleftrightarrow> (\<exists>bs \<in> K (world t). length bs = 32 \<and> mem t = mem (put_mem (Key_data, 0) bs s))"

text \<open>The reply goes out with that key, and the key buffer is wiped.\<close>

lemma key_reply_rets:
  fixes s :: "('w, 'z) hwkey_state_scheme"
  assumes rdy: "key_ready s" and t: "key_job K s t"
  shows "rets (mbind (hwkey_send_rsp E c (hdr\<lparr>status := HWKEY_NO_ERROR E\<rparr>) (Key_data, 0) 32) (\<lambda>rc.
      mthen (memset (Key_data, 0) 0 (unat (32 :: u32))) (mret rc)))
    (\<lambda>rc s'. all_zero (mem s' Key_data) \<and> (\<exists>w. \<exists>k \<in> K w. k_send_msg E (key_chan c)
      [response E hdr (HWKEY_NO_ERROR E), k] w = (rc, world s'))) t"
proof -
  have k: "length (mem s Key_data) = HWKEY_MAX_PAYLOAD_SIZE" "all_zero (mem s Key_data)"
    using rdy by (simp_all add: key_ready_def key_bufs_def)
  obtain bs where bs: "bs \<in> K (world t)" "length bs = 32" and m: "mem t Key_data = overwrite 0 bs (mem s Key_data)"
    using t by (auto simp: key_job_def)
  have "all_zero (overwrite 0 (replicate 32 0) (mem t Key_data))"
    using k bs by (simp add: m HWKEY_MAX_PAYLOAD_SIZE_def all_zero_drop_overwrite all_zero_overwrite_zeros)
  moreover have "take 32 (mem t Key_data) = bs" "in_obj t (Key_data, 0) 32"
    using k bs by (simp_all add: m in_obj_def HWKEY_MAX_PAYLOAD_SIZE_def) (simp add: overwrite_def)
  ultimately show ?thesis
    using bs by (auto simp: hwkey_send_rsp_def tipc_send_two_segments_def response_def split: prod.splits)
qed

text \<open>The request of the owner for the RPMB slot, once its id is in the request buffer.\<close>

lemma rpmb_cmd_rets:
  fixes s :: "('w, 'z) hwkey_state_scheme"
  assumes err: "err_ok E" and rdy: "key_ready s"
    and blob: "rpmb_keyblob_len s = RPMBKEY_LEN" and slots: "key_slots s = Some (keys E)" "key_slot_cnt s = 1"
    and own: "ctx_uuid c = SECURE_STORAGE_SERVER_APP_UUID E"
    and id: "0 \<in> set (mem s Req_data)" "cstr (mem s Req_data) = cstr (clit RPMB_SS_AUTH_KEY_ID)"
    and job: "rets (caam_decap_blob E (Skeymod, 0) 16 (Key_data, 0) (Rpmb_keyblob, 0) 32)
      (\<lambda>r t. r = CAAM_SUCCESS \<and> key_job K s t) s"
  shows "rets (hwkey_handle_get_keyslot_cmd E (call_handler E) c hdr (Req_data, 0))
    (\<lambda>rc s'. all_zero (mem s' Key_data) \<and> (\<exists>w. \<exists>k \<in> K w. k_send_msg E (key_chan c)
      [response E hdr (HWKEY_NO_ERROR E), k] w = (rc, world s'))) s"
proof -
  let ?x = "\<lparr>key_id = clit RPMB_SS_AUTH_KEY_ID, slot_uuid = SECURE_STORAGE_SERVER_APP_UUID E,
     slot_handler = Some Get_rpmb_ss_auth_key\<rparr>"
  have "handle_slots E (call_handler E) c (Req_data, 0) (Some (keys E)) 1 (Key_data, 0) sizeof_key_data 0 s =
      call_handler E Get_rpmb_ss_auth_key ?x (Key_data, 0) sizeof_key_data 0 s"
    using id own slots_ok_keys [of E]
    by (subst handle_slots_find) (simp_all add: keys_def slot_serves_def slot_matches_def)
  then have slot: "rets (handle_slots E (call_handler E) c (Req_data, 0) (key_slots s) (key_slot_cnt s) (Key_data, 0) sizeof_key_data 0)
      (\<lambda>r t. r = (HWKEY_NO_ERROR E, 32) \<and> key_job K s t) s"
    using rpmb_handler_rets [OF job blob, of ?x] by (simp add: slots rets_def)
  have "HWKEY_NO_ERROR E \<noteq> HWKEY_ERR_NOT_FOUND E" using err by (simp add: err_ok_def)
  then show ?thesis
    unfolding hwkey_handle_get_keyslot_cmd_def rets_basic(2,4) prod.case
    by (intro rets_mono [OF slot]) (use key_reply_rets [OF rdy] in auto)
qed

text \<open>The whole request, for the keys \<open>K\<close> the device may unseal.\<close>

lemma rpmb_request_rets:
  fixes s :: "('w, 'z) hwkey_state_scheme"
  assumes "err_ok E" and "key_ready s"
    and "rpmb_keyblob_len s = RPMBKEY_LEN" and "key_slots s = Some (keys E)" and "key_slot_cnt s = 1"
    and "key_ctxs s p = Some c" and "ctx_uuid c = SECURE_STORAGE_SERVER_APP_UUID E"
    and "incoming E (key_chan c) (world s) hb name w'" and "length name \<le> HWKEY_MAX_PAYLOAD_SIZE"
    and "cstr (name @ [0]) = cstr (clit RPMB_SS_AUTH_KEY_ID)" and "cmd (hwkey_msg_of E hb) = HWKEY_GET_KEYSLOT E"
    and job: "\<And>u :: ('w, 'z) hwkey_state_scheme. key_ready u \<Longrightarrow> caam_base u = caam_base s \<Longrightarrow>
      \<forall>b. b \<noteq> Req_data \<longrightarrow> mem u b = mem s b \<Longrightarrow>
      rets (caam_decap_blob E (Skeymod, 0) 16 (Key_data, 0) (Rpmb_keyblob, 0) 32) (\<lambda>r t. r = CAAM_SUCCESS \<and> key_job K u t) u"
  shows "rets (hwkey_chan_handle_msg E (call_handler E) (derive_key_v1 E) p)
    (\<lambda>rc s'. all_zero (mem s' Key_data) \<and> (\<exists>w. \<exists>k \<in> K w. k_send_msg E (key_chan c)
      [response E (hwkey_msg_of E hb) (HWKEY_NO_ERROR E), k] w = (rc, world s'))) s"
proof -
  define u where "u = put_mem (Req_data, length name) [0] ((put_mem (Req_data, 0) name s)\<lparr>world := w'\<rparr>)"
  note r = keyslot_request [OF assms(2,6,8,9,11) u_def]
  have sel: "caam_base u = caam_base s" "rpmb_keyblob_len u = rpmb_keyblob_len s" "key_slots u = key_slots s"
    "key_slot_cnt u = key_slot_cnt s" and m: "\<forall>b. b \<noteq> Req_data \<longrightarrow> mem u b = mem s b" by (simp_all add: u_def put_mem_def)
  have "rets (hwkey_handle_get_keyslot_cmd E (call_handler E) c (hwkey_msg_of E hb) (Req_data, 0))
    (\<lambda>rc s'. all_zero (mem s' Key_data) \<and> (\<exists>w. \<exists>k \<in> K w. k_send_msg E (key_chan c)
      [response E (hwkey_msg_of E hb) (HWKEY_NO_ERROR E), k] w = (rc, world s'))) u"
    using assms(1,3-5,7,10) r(2-4) by (intro rpmb_cmd_rets job m) (simp_all only: sel)
  then show ?thesis by (simp add: rets_def r(1))
qed

end
