(* ===== verification/Hwkey_Props.thy ===== *)
theory Hwkey_Props
  imports Demo_Env Hwkey_Spec
begin

text \<open>
  The properties of the key service over its provider: what a client may get, what it gets
  when it asks for a derived key, and that no key stays in memory.
\<close>

section \<open>Key slots\<close>

text \<open>
  C13: \<^verbatim>\<open>_handle_slots\<close> is a search: among the installed slots, in their order, it takes the first
  one that has the requested id, belongs to the client and has a handler, and calls that handler
  with the key buffer; when there is none it answers HWKEY_ERR_NOT_FOUND and changes nothing.
\<close>

theorem handle_slots_is_search:
  assumes "0 \<in> set (mem s Req_data)" and "slots_ok slots cnt"
  shows "handle_slots E call ctx (Req_data, 0) slots cnt kbuf kbuf_len klen s =
    (case find (slot_serves (ctx_uuid ctx) (mem s Req_data)) (case slots of None \<Rightarrow> [] | Some sl \<Rightarrow> take (unat cnt) sl) of
       None \<Rightarrow> Inr ((HWKEY_ERR_NOT_FOUND E, klen), s)
     | Some x \<Rightarrow> call (the (slot_handler x)) x kbuf kbuf_len klen s)"
  using assms by (rule handle_slots_find)

theorem handle_slots_is_search_witness:
  "handle_slots demo_env (call_handler demo_env) (new_key_ctx 1 11 (replicate 16 1)) (Req_data, 0)
     (Some [\<lparr>key_id = clit [], slot_uuid = replicate 16 1, slot_handler = None\<rparr>,
       \<lparr>key_id = clit [], slot_uuid = replicate 16 2, slot_handler = Some Get_rpmb_ss_auth_key\<rparr>,
       \<lparr>key_id = clit [], slot_uuid = replicate 16 1, slot_handler = Some Get_unittest_key32\<rparr>]) 3
     (Key_data, 0) sizeof_key_data 0 demo_app =
   call_handler demo_env Get_unittest_key32
     \<lparr>key_id = clit [], slot_uuid = replicate 16 1, slot_handler = Some Get_unittest_key32\<rparr>
     (Key_data, 0) sizeof_key_data 0 demo_app"
proof -
  have r: "mem demo_app Req_data = 0 # replicate 2048 0"
    by (simp add: demo_app_def demo_boot_def flip: replicate_Suc)
  show ?thesis
    by (subst handle_slots_is_search)
       (simp_all add: r slots_ok_def clit_def slot_serves_def slot_matches_def new_key_ctx_def sizeof_uuid_def)
qed


section \<open>Requests\<close>

text \<open>
  C11: Whatever message a client sends and whatever the kernel and the device answer, handling
  it performs no undefined access, keeps the invariant of the service, and leaves no byte of a
  key in the key buffer.
\<close>

theorem hwkey_request_leaves_no_key:
  assumes "env_ok ck E" and "hwkey_inv ck s" and "key_ctxs s p = Some c"
  shows "wp (hwkey_chan_handle_msg E (call_handler E) (derive_key_v1 E) p)
    (\<lambda>_ s'. hwkey_inv ck s' \<and> all_zero (mem s' Key_data) \<and> hwkey_frame ck s s') s"
  by (rule caam_keys.wp_hwkey_chan_handle_msg [OF assms])
     (simp add: hwkey_inv_def key_ready_def key_bufs_def)

theorem hwkey_request_leaves_no_key_witness:
  "wp (hwkey_chan_handle_msg demo_env (call_handler demo_env) (derive_key_v1 demo_env) 1)
    (\<lambda>_ s'. hwkey_inv dw_cookies s' \<and> all_zero (mem s' Key_data) \<and> hwkey_frame dw_cookies demo_app s') demo_app"
  by (rule hwkey_request_leaves_no_key [OF demo_env_ok demo_hwkey_inv, of 1 "new_key_ctx 1 11 (replicate 16 1)"])
     (simp add: demo_app_def)

text \<open>
  C5: The key service refines its specification. Whatever message a client has sent, handling it
  performs no undefined access, and when it returns, exactly one message has been sent: it has
  gone to the client's channel, and it is one of the replies \<open>key_answers\<close> allows for this client,
  its message and the state of the service. The result is what the kernel says of sending it, and
  the invariant holds again. With a device that answers it returns.
\<close>

theorem key_service_refines:
  assumes "env_ok ck E" and "sent_log log E" and "hwkey_inv ck s" and "key_ctxs s p = Some c"
    and "incoming E (key_chan c) (world s) hb payload w'" and "length payload \<le> HWKEY_MAX_PAYLOAD_SIZE"
  shows "wp (hwkey_chan_handle_msg E (call_handler E) (derive_key_v1 E) p) (\<lambda>rc s'. hwkey_inv ck s' \<and> (\<exists>h st k w.
      (h, st, k) \<in> key_answers E s (ctx_uuid c) (hwkey_msg_of E hb) payload \<and>
      log (world s') = log (world s) @ [(key_chan c, [response E h st, k])] \<and>
      k_send_msg E (key_chan c) [response E h st, k] w = (rc, world s'))) s \<and>
    (caam_live E (caam_base s) pa \<longrightarrow>
      (\<exists>rc s'. hwkey_chan_handle_msg E (call_handler E) (derive_key_v1 E) p s = Inr (rc, s')))"
proof -
  have "wp (hwkey_chan_handle_msg E (call_handler E) (derive_key_v1 E) p) (\<lambda>_. hwkey_inv ck) s"
    by (rule caam_keys.wp_hwkey_chan_handle_msg [OF assms(1,3,4)])
  then have "wp (hwkey_chan_handle_msg E (call_handler E) (derive_key_v1 E) p) (\<lambda>rc s'. hwkey_inv ck s' \<and> (\<exists>h st k w.
      (h, st, k) \<in> key_answers E s (ctx_uuid c) (hwkey_msg_of E hb) payload \<and>
      log (world s') = log (world s) @ [(key_chan c, [response E h st, k])] \<and>
      k_send_msg E (key_chan c) [response E h st, k] w = (rc, world s'))) s"
    using wp_key_answers [OF assms] sent_log_send [OF assms(2)] by (fastforce simp: wp_def split: sum.splits)
  with caam_keys_live.hwkey_handle_msg_rets [OF assms(1) _ assms(3,4)] show ?thesis by (auto simp: rets_def)
qed

text \<open>
  C8: A request to derive a key, from the message to the reply: the payload is the input of
  HKDF, keyed with the root key and salted with the client's uuid; the reply \<open>derive_answer\<close>
  gives goes to the channel of the client, with an output as long as the input or with the
  status of what is wrong (an unknown version, an empty input, HKDF failing) and no payload;
  afterwards the only trace of the request in the program is that the bytes it took in the
  request buffer are zero, and the key buffer is as clean as before.
\<close>

theorem derive_request_end_to_end:
  assumes "key_ready s" and "key_ctxs s p = Some c"
    and "incoming E (key_chan c) (world s) hb ikm w'" and "length ikm \<le> HWKEY_MAX_PAYLOAD_SIZE"
    and "cmd (hwkey_msg_of E hb) = HWKEY_DERIVE E" and "HWKEY_DERIVE E \<noteq> HWKEY_GET_KEYSLOT E"
    and "derive_answer E (mem s Kdfv1_key) (ctx_uuid c) (hwkey_msg_of E hb) ikm = (h, st, k)"
    and "k_send_msg E (key_chan c) [response E h st, k] w' = (rc, w'')"
  shows "hwkey_chan_handle_msg E (call_handler E) (derive_key_v1 E) p s =
    Inr (rc, (put_mem (Req_data, 0) (replicate (length ikm) 0) s)\<lparr>world := w''\<rparr>)"
  using assms by (rule derive_request)

definition demo_derive_msg :: "byte list" where
  "demo_derive_msg = le32 2 @ le32 0 @ le32 1"

definition demo_derive :: "demo_world hwkey_state" where
  "demo_derive = demo_app\<lparr>world := (world demo_app)\<lparr>dw_inbox := (\<lambda>_. [])(11 := [demo_derive_msg @ [9, 8, 7]])\<rparr>\<rparr>"

lemma demo_derive_ready: "key_ready demo_derive"
  using demo_key_ready by (simp add: demo_derive_def key_ready_def key_bufs_def)

lemma demo_derive_ctx: "key_ctxs demo_derive 1 = Some (new_key_ctx 1 11 (replicate 16 1))"
  by (simp add: demo_derive_def demo_app_def)

lemma demo_derive_incoming:
  "incoming demo_env (key_chan (new_key_ctx 1 11 (replicate 16 1))) (world demo_derive) demo_derive_msg [9, 8, 7]
     ((world demo_app)\<lparr>dw_inbox := \<lambda>_. []\<rparr>)"
  by (simp add: incoming_def demo_derive_def demo_env_def demo_get_msg_def demo_read_msg_def new_key_ctx_def
      demo_derive_msg_def HWKEY_MAX_PAYLOAD_SIZE_def fun_upd_idem)

lemma demo_derive_hdr: "hwkey_msg_of demo_env demo_derive_msg = \<lparr>cmd = 2, status = 0, arg1 = 1, hdr_rest = []\<rparr>"
  by (simp add: demo_env_def demo_msg_of_def demo_derive_msg_def le32_def of_le32_def)

theorem derive_request_end_to_end_witness:
  "hwkey_chan_handle_msg demo_env (call_handler demo_env) (derive_key_v1 demo_env) 1 demo_derive =
    Inr (15, (put_mem (Req_data, 0) [0, 0, 0] demo_derive)\<lparr>world := (world demo_app)\<lparr>dw_inbox := \<lambda>_. [],
      dw_sent := [(11, [le32 3 @ le32 0 @ le32 1, [7, 8, 9]])]\<rparr>\<rparr>)"
proof -
  let ?hdr = "\<lparr>cmd = 2, status = 0, arg1 = 1, hdr_rest = []\<rparr>"
  have "hwkey_chan_handle_msg demo_env (call_handler demo_env) (derive_key_v1 demo_env) 1 demo_derive =
    Inr (15, (put_mem (Req_data, 0) (replicate (length [9, 8, 7 :: byte]) 0) demo_derive)\<lparr>world :=
      ((world demo_app)\<lparr>dw_inbox := \<lambda>_. []\<rparr>)\<lparr>dw_sent := [(11, [le32 3 @ le32 0 @ le32 1, [7, 8, 9]])]\<rparr>\<rparr>)"
    by (rule derive_request_end_to_end [OF demo_derive_ready demo_derive_ctx demo_derive_incoming,
          where h = ?hdr and st = 0 and k = "[7, 8, 9]"])
       (simp_all add: demo_derive_hdr, simp_all add: HWKEY_MAX_PAYLOAD_SIZE_def derive_answer_def new_key_ctx_def demo_env_def
         demo_app_def demo_boot_def demo_world0_def response_def demo_bytes_of_def upt_rec)
  then show ?thesis by (simp add: numeral_3_eq_3)
qed

theorem key_service_refines_witness:
  "\<exists>rc s' h st k. hwkey_chan_handle_msg demo_env (call_handler demo_env) (derive_key_v1 demo_env) 1 demo_derive = Inr (rc, s') \<and>
     hwkey_inv dw_cookies s' \<and> dw_sent (world s') = dw_sent (world demo_derive) @ [(11, [response demo_env h st, k])] \<and>
     (h, st, k) \<in> key_answers demo_env demo_derive (replicate 16 1) (hwkey_msg_of demo_env demo_derive_msg) [9, 8, 7]"
proof -
  have "hwkey_inv dw_cookies demo_derive"
    using demo_hwkey_inv demo_derive_ready unfolding demo_derive_def hwkey_inv_def by (simp add: key_ctx_ok_def)
  from key_service_refines [OF demo_env_ok demo_sent_log this demo_derive_ctx demo_derive_incoming, of 0] show ?thesis
    using demo_live by (auto simp: HWKEY_MAX_PAYLOAD_SIZE_def wp_def new_key_ctx_def) blast
qed




text \<open>
  C7: The owner of the RPMB key gets it: when the storage service asks for the RPMB slot by its
  id, a blob has been unpacked and the device answers, the request is answered with status
  HWKEY_NO_ERROR and the 32 bytes the device has unsealed, sent on the channel of that client,
  and afterwards the key buffer holds no byte of the key.
\<close>

theorem rpmb_request_end_to_end:
  assumes "dma_ok E" and "err_ok E" and "caam_live E (caam_base s) pa" and "key_ready s"
    and "rpmb_keyblob_len s = RPMBKEY_LEN" and "key_slots s = Some (keys E)" and "key_slot_cnt s = 1"
    and "key_ctxs s p = Some c" and "ctx_uuid c = SECURE_STORAGE_SERVER_APP_UUID E"
    and "incoming E (key_chan c) (world s) hb name w'" and "length name \<le> HWKEY_MAX_PAYLOAD_SIZE"
    and "cstr (name @ [0]) = cstr (clit RPMB_SS_AUTH_KEY_ID)" and "cmd (hwkey_msg_of E hb) = HWKEY_GET_KEYSLOT E"
  shows "\<exists>rc s' w. hwkey_chan_handle_msg E (call_handler E) (derive_key_v1 E) p s = Inr (rc, s') \<and>
    all_zero (mem s' Key_data) \<and> k_send_msg E (key_chan c)
      [response E (hwkey_msg_of E hb) (HWKEY_NO_ERROR E), map (dma_ram E w (Key_data, 0)) [0..<32]] w = (rc, world s')"
proof -
  have "\<exists>bs\<in>{map (dma_ram E (world t) (Key_data, 0)) [0..<32]}. length bs = 32 \<and> mem t = mem (put_mem (Key_data, 0) bs u)"
    if "job_post E (Key_data, 0) 32 u CAAM_SUCCESS t" for t u using that by (auto simp: job_post_def)
  then have job: "rets (caam_decap_blob E (Skeymod, 0) 16 (Key_data, 0) (Rpmb_keyblob, 0) 32)
      (\<lambda>r t. r = CAAM_SUCCESS \<and> key_job (\<lambda>w. {map (dma_ram E w (Key_data, 0)) [0..<32]}) u t) u"
    if "key_ready u" "caam_base u = caam_base s" for u :: "('a, 'b) hwkey_state_scheme"
    using that assms(1,3) rpmb_decap_rets [of E u pa] unfolding key_job_def by (auto elim!: rets_mono)
  have "rets (hwkey_chan_handle_msg E (call_handler E) (derive_key_v1 E) p)
    (\<lambda>rc s'. all_zero (mem s' Key_data) \<and> (\<exists>w. \<exists>k \<in> {map (dma_ram E w (Key_data, 0)) [0..<32]}.
      k_send_msg E (key_chan c) [response E (hwkey_msg_of E hb) (HWKEY_NO_ERROR E), k] w = (rc, world s'))) s"
    by (rule rpmb_request_rets [OF assms(2,4-13)]) (rule job)
  then show ?thesis by (auto simp: rets_def)
qed

definition demo_rpmb :: "demo_world hwkey_state" where
  "demo_rpmb = demo_app\<lparr>world := (world demo_app)\<lparr>dw_inbox :=
     (\<lambda>_. [])(11 := [(le32 0 @ le32 0 @ le32 0) @ demo_rpmb_id])\<rparr>\<rparr>"

theorem rpmb_request_end_to_end_witness:
  "\<exists>rc s' w. hwkey_chan_handle_msg demo_env (call_handler demo_env) (derive_key_v1 demo_env) 1 demo_rpmb = Inr (rc, s') \<and>
    all_zero (mem s' Key_data) \<and> k_send_msg demo_env (key_chan (new_key_ctx 1 11 (replicate 16 1)))
      [response demo_env (hwkey_msg_of demo_env (le32 0 @ le32 0 @ le32 0)) (HWKEY_NO_ERROR demo_env),
       map (dma_ram demo_env w (Key_data, 0)) [0..<32]] w = (rc, world s')"
proof (rule rpmb_request_end_to_end [OF demo_dma_ok demo_err_ok demo_live])
  show "key_ready demo_rpmb" using demo_key_ready by (simp add: demo_rpmb_def key_ready_def key_bufs_def)
  show "rpmb_keyblob_len demo_rpmb = RPMBKEY_LEN" "key_slots demo_rpmb = Some (keys demo_env)"
    "key_slot_cnt demo_rpmb = 1" "key_ctxs demo_rpmb 1 = Some (new_key_ctx 1 11 (replicate 16 1))"
    by (simp_all add: demo_rpmb_def demo_app_def kbox_layout)
  note len = length_demo_rpmb_id
  then show "length demo_rpmb_id \<le> HWKEY_MAX_PAYLOAD_SIZE" by (simp add: HWKEY_MAX_PAYLOAD_SIZE_def)
  show "incoming demo_env (key_chan (new_key_ctx 1 11 (replicate 16 1))) (world demo_rpmb) (le32 0 @ le32 0 @ le32 0)
      demo_rpmb_id ((world demo_app)\<lparr>dw_inbox := \<lambda>_. []\<rparr>)"
    using len by (simp add: incoming_def demo_rpmb_def demo_env_def demo_get_msg_def demo_read_msg_def new_key_ctx_def
        HWKEY_MAX_PAYLOAD_SIZE_def fun_upd_idem)
  show "cstr (demo_rpmb_id @ [0]) = cstr (clit RPMB_SS_AUTH_KEY_ID)" by (simp add: demo_rpmb_id_def clit_def)
qed (simp_all add: new_key_ctx_def demo_env_def demo_msg_of_def le32_def of_le32_def)

section \<open>The key box\<close>

text \<open>
  C17: Unpacking the key box, when it returns, has found the magic, has taken over the RPMB blob
  exactly when its recorded length is right, has set the root key to what the device generated,
  has wiped the whole box in the secure RAM, and has changed nothing else. With the magic in
  place, no blob taken over before and a device that answers, it returns.
\<close>

theorem unpack_kbox_effect:
  assumes "dma_ok E" and "key_ready s" and "1172 \<le> length (mem s Sram)"
  shows "wp (unpack_kbox E) (\<lambda>_. kbox_post E s) s \<and>
    (caam_live E (caam_base s) pa \<and> strncmp_eq (kbox_field s 0 4) (clit KEYPACK_MAGIC) 4 \<and> rpmb_keyblob_len s = 0 \<longrightarrow>
     (\<exists>s'. unpack_kbox E s = Inr ((), s') \<and> kbox_post E s s'))"
  using wp_unpack_kbox [OF assms] unpack_kbox_rets [OF _ assms] by (auto simp: rets_def)

theorem unpack_kbox_effect_witness:
  "wp (unpack_kbox demo_env) (\<lambda>_. kbox_post demo_env (demo_app\<lparr>rpmb_keyblob_len := 0\<rparr>)) (demo_app\<lparr>rpmb_keyblob_len := 0\<rparr>) \<and>
   (\<exists>s'. unpack_kbox demo_env (demo_app\<lparr>rpmb_keyblob_len := 0\<rparr>) = Inr ((), s'))"
proof -
  have "key_ready (demo_app\<lparr>rpmb_keyblob_len := 0\<rparr>)" using demo_key_ready
    by (simp add: key_ready_def key_bufs_def caam_ready_def)
  moreover have "1172 \<le> length (mem (demo_app\<lparr>rpmb_keyblob_len := 0\<rparr>) Sram)"
    by (simp add: demo_app_def demo_boot_def demo_kbox_def clit_def)
  moreover have "kbox_field (demo_app\<lparr>rpmb_keyblob_len := 0\<rparr>) 0 4 = kbox_field demo_boot 0 4"
    by (simp add: kbox_field_def demo_app_def)
  ultimately show ?thesis
    using unpack_kbox_effect [OF demo_dma_ok, of "demo_app\<lparr>rpmb_keyblob_len := 0\<rparr>" 0] demo_live demo_magic by auto
qed

text \<open>
  C27: A key box without the magic stops the application before any of it is used.
\<close>

theorem unpack_kbox_bad_magic:
  assumes "4 \<le> length (mem s Sram)" and "\<not> strncmp_eq (kbox_field s 0 4) (clit KEYPACK_MAGIC) 4"
  shows "unpack_kbox E s = Inl Abort"
  using assms by (simp add: unpack_kbox_def Let_def caam_get_keybox_def prog_simps mread_def in_obj_def kbox_field_def)

theorem unpack_kbox_bad_magic_witness:
  "unpack_kbox demo_env (demo_app\<lparr>mem := (mem demo_app)(Sram := replicate 1172 0)\<rparr>) = Inl Abort"
proof (rule unpack_kbox_bad_magic)
  have "\<not> strncmp_eq (0 # replicate 3 0) (33 # t) 4" for t
    using strncmp_eq.simps(2) [of 0 "replicate 3 0" 33 t 3] by simp
  moreover have "take 4 (replicate 1172 (0 :: byte)) = 0 # replicate 3 0" by (simp flip: replicate_Suc)
  ultimately show "\<not> strncmp_eq (kbox_field (demo_app\<lparr>mem := (mem demo_app)(Sram := replicate 1172 0)\<rparr>) 0 4)
      (clit KEYPACK_MAGIC) 4"
    by (simp add: kbox_field_def KEYPACK_MAGIC_def clit_def del: strncmp_eq.simps)
qed simp

end
