(* ===== verification/Hwrng_Sends.thy ===== *)
theory Hwrng_Sends
  imports Hwrng_Provider
begin

text \<open>
  The messages one pass over the pending requests sends: one to each client that is not blocked,
  in the order of the list, with as many bytes as a message holds or as are asked for.
\<close>

section \<open>What is offered\<close>

text \<open>The message an entry of the list is offered: its channel and the lengths of its segments.\<close>

definition offer :: "('w, 'z) hwrng_state_scheme \<Rightarrow> nat \<Rightarrow> (handle \<times> nat list) list" where
  "offer s p = (case rng_ctxs s p of None \<Rightarrow> []
     | Some c \<Rightarrow> if send_blocked c then [] else [(rng_chan c, [min (unat (req_size c)) 4096])])"

lemma offer_cong: "rng_ctxs t p = rng_ctxs s p \<Longrightarrow> offer t p = offer s p"
  by (simp add: offer_def)

text \<open>The messages sent between two states, by channel and lengths.\<close>

definition sent_between ::
  "('w \<Rightarrow> (handle \<times> byte list list) list) \<Rightarrow> 'w \<Rightarrow> 'w \<Rightarrow> (handle \<times> nat list) list \<Rightarrow> bool" where
  "sent_between log w w' os \<longleftrightarrow> (\<exists>L. log w' = log w @ L \<and> map (\<lambda>(h, bss). (h, map length bss)) L = os)"

lemma sent_between_none: "log w' = log w \<Longrightarrow> sent_between log w w' []"
  by (simp add: sent_between_def)

lemma sent_between_step:
  assumes "log w1 = log w @ [(h, [bs])]" and "sent_between log w1 w2 os"
  shows "sent_between log w w2 ((h, [length bs]) # os)"
  using assms by (auto simp: sent_between_def)

section \<open>The pass\<close>

text \<open>The state the device needs: the driver is ready and the buffer is there.\<close>

definition buf_ready :: "('w, 'z) hwrng_state_scheme \<Rightarrow> bool" where
  "buf_ready s \<longleftrightarrow> caam_ready s \<and> dma_windows s = [] \<and> length (mem s Rng_data) = unat MAX_HWRNG_MSG_SIZE"

lemma buf_ready_simps [simp]:
  "buf_ready (s\<lparr>world := w\<rparr>) = buf_ready s" "buf_ready (s\<lparr>rng_ctxs := cs\<rparr>) = buf_ready s"
  "buf_ready (s\<lparr>hwrng_req_list := l\<rparr>) = buf_ready s"
  by (simp_all add: buf_ready_def caam_ready_def)

text \<open>What a reply makes of the list and the contexts sends nothing.\<close>

lemma reply_sends_nothing:
  assumes log: "sent_log log E"
    and run: "(if rc < 0 then
       mthen (if rc = ERR_NOT_ENOUGH_BUFFER E then put_ctx p (c\<lparr>send_blocked := True\<rparr>)
              else hwrng_close_chan E p) (serve need)
     else mthen (put_ctx p (c\<lparr>req_size := n\<rparr>))
       (if n = 0
        then mthen (mmod (\<lambda>s. s\<lparr>hwrng_req_list := list_delete E (hwrng_req_list s) p\<rparr>)) (serve need)
        else serve True)) s = Inr (r, s')"
  obtains need2 u where "serve need2 u = Inr (r, s')" "log (world u) = log (world s)"
    "\<And>q. q \<noteq> p \<Longrightarrow> rng_ctxs u q = rng_ctxs s q" "buf_ready u = buf_ready s"
proof -
  have cl: "log (k_close E h w) = log w" for h w using log by (simp add: sent_log_def)
  show thesis
    using run by (auto simp: prog_simps put_ctx_def hwrng_close_chan_def close_def sys_do_def cl
        split: if_splits option.splits elim!: that)
qed

text \<open>
  A device of random numbers as \<open>rng_device\<close> has it, which sends no messages.
\<close>

locale rng_source = rng_device ck dev
  for ck :: "'w \<Rightarrow> handle \<Rightarrow> cookie option" and dev :: "'w env \<Rightarrow> ('w, 'z) rng_dev" +
  assumes dev_quiet: "quiet (log :: 'w \<Rightarrow> (handle \<times> byte list list) list) E \<Longrightarrow> keeps log (dev E buf n)"
begin

lemma fill_effect:
  assumes "env_ok ck E" and "sent_log log E" and "buf_ready s" and "n \<le> MAX_HWRNG_MSG_SIZE"
    and run: "dev E (Rng_data, 0) n s = Inr (x, t)"
  shows "log (world t) = log (world s)" and "rng_ctxs t = rng_ctxs s" and "buf_ready t"
proof -
  have "keeps log (dev E (Rng_data, 0) n)" using assms(2) by (intro dev_quiet) (simp add: sent_log_def)
  with run show "log (world t) = log (world s)" unfolding keeps_def by blast
  have n: "unat n \<le> unat MAX_HWRNG_MSG_SIZE" using assms(4) by (simp add: word_le_nat_alt)
  have "wp (dev E (Rng_data, 0) n) (\<lambda>_. out_frame (Rng_data, 0) (unat n) s) s"
    using assms(3) n by (intro dev_fills [OF assms(1)]) (simp_all add: buf_ready_def in_obj_def)
  from wpD [OF this run] assms(3) n show "rng_ctxs t = rng_ctxs s" "buf_ready t"
    by (auto simp: out_frame_def drv_frame_def buf_ready_def dest: hwrng_more_sel)
qed

lemma serve_sends:
  assumes env: "env_ok ck E" and log: "sent_log log E"
  shows "hwrng_serve E (dev E) ps need s = Inr (r, s') \<Longrightarrow> buf_ready s \<Longrightarrow> distinct ps \<Longrightarrow>
    sent_between log (world s) (world s') (concat (map (offer s) ps))"
proof (induction ps arbitrary: s need)
  case Nil
  then show ?case by (simp add: prog_simps sent_between_none)
next
  case (Cons p ps)
  obtain c where c: "rng_ctxs s p = Some c" using Cons.prems(1) by (auto simp: prog_simps split: option.splits)
  show ?case
  proof (cases "send_blocked c")
    case True
    then show ?thesis using Cons c by (simp add: prog_simps offer_def)
  next
    case False
    let ?n = "if req_size c > MAX_HWRNG_MSG_SIZE then MAX_HWRNG_MSG_SIZE else req_size c"
    have n: "?n \<le> MAX_HWRNG_MSG_SIZE" "unat ?n = min (unat (req_size c)) 4096"
      by (auto simp: MAX_HWRNG_MSG_SIZE_def word_less_nat_alt word_le_nat_alt)
    obtain t rc u where t: "dev E (Rng_data, 0) ?n s = Inr ((), t)"
      and u: "tipc_send_single_buf E (rng_chan c) (Rng_data, 0) ?n t = Inr (rc, u)"
      and rest: "(if rc < 0 then
         mthen (if rc = ERR_NOT_ENOUGH_BUFFER E then put_ctx p (c\<lparr>send_blocked := True\<rparr>)
                else hwrng_close_chan E p) (hwrng_serve E (dev E) ps need)
       else mthen (put_ctx p (c\<lparr>req_size := req_size c - ?n\<rparr>))
         (if req_size c - ?n = 0
          then mthen (mmod (\<lambda>s. s\<lparr>hwrng_req_list := list_delete E (hwrng_req_list s) p\<rparr>)) (hwrng_serve E (dev E) ps need)
          else hwrng_serve E (dev E) ps True)) u = Inr (r, s')"
      using Cons.prems(1) c False by (auto simp: prog_simps Let_def split: sum.splits)
    note t' = fill_effect [OF env log Cons.prems(2) n(1) t]
    obtain bs w where bs: "length bs = unat ?n" "log (world u) = log (world t) @ [(rng_chan c, [bs])]"
      and w: "u = t\<lparr>world := w\<rparr>"
      using sent_log_single [OF log u] by blast
    from reply_sends_nothing [where serve = "hwrng_serve E (dev E) ps", OF log rest]
    obtain need2 v where v: "hwrng_serve E (dev E) ps need2 v = Inr (r, s')" "log (world v) = log (world u)"
      "\<And>q. q \<noteq> p \<Longrightarrow> rng_ctxs v q = rng_ctxs u q" "buf_ready v = buf_ready u" by blast
    have "rng_ctxs v q = rng_ctxs s q" if "q \<in> set ps" for q
      using v(3) [of q] that Cons.prems(3) t'(2) w by auto
    then have "map (offer v) ps = map (offer s) ps" by (auto intro!: offer_cong)
    with Cons.IH [OF v(1)] have "sent_between log (world v) (world s') (concat (map (offer s) ps))"
      using v(4) Cons.prems(3) t'(3) w by simp
    then have "sent_between log (world s) (world s') ((rng_chan c, [length bs]) # concat (map (offer s) ps))"
      using bs(2) v(2) t'(1) by (intro sent_between_step [of log "world v"]) simp_all
    moreover have "offer s p = [(rng_chan c, [length bs])]" using c False n(2) bs(1) by (simp add: offer_def)
    ultimately show ?thesis by simp
  qed
qed

lemma wp_pass_sends:
  assumes env: "env_ok ck E" and log: "sent_log log E" and inv: "hwrng_inv ck s"
  shows "wp (hwrng_handle_req_queue E (dev E)) (\<lambda>_ s'.
    sent_between log (world s) (world s') (concat (map (offer s) (hwrng_req_list s)))) s"
proof -
  have "buf_ready s" "distinct (hwrng_req_list s)" using inv by (simp_all add: buf_ready_def hwrng_inv_def)
  with serve_sends [OF env log, of "hwrng_req_list s" False s] wp_hwrng_handle_req_queue [OF env inv] show ?thesis
    by (auto simp: wp_def hwrng_handle_req_queue_def prog_simps split: sum.splits)
qed

end

text \<open>The CAAM is such a device.\<close>

interpretation caam_rng_source: rng_source ck hwrng_dev_get_rng_data for ck
  by unfold_locales (unfold hwrng_dev_get_rng_data_def, intro keeps_intros)

end
