(* ===== verification/Hwrng_Props.thy ===== *)
theory Hwrng_Props
  imports Demo_Env Hwrng_Sends
begin

text \<open>
  The properties of the random number service over its provider: the pass over the pending
  requests, how requests are queued, and when they are served.
\<close>

section \<open>One pass\<close>

text \<open>
  C14: One run of \<^verbatim>\<open>hwrng_handle_req_queue\<close> does to the pending requests exactly what one pass
  of the abstract queue does: every entry that is not blocked is offered one message, and the
  kernel's reply decides whether it is done, shortened, blocked or closed, in the order of the
  list. It announces more work exactly when an entry is left that is not blocked, performs no
  undefined access, and keeps the invariant and the state of the key service.
\<close>

theorem hwrng_pass_refines:
  assumes "env_ok ck E" and "hwrng_inv ck s"
  shows "wp (hwrng_handle_req_queue E (hwrng_dev_get_rng_data E)) (\<lambda>need s'. hwrng_inv ck s' \<and> hwrng_frame ck s s' \<and>
     (\<exists>rs. set rs \<subseteq> replies E \<and> length rs = length (filter (\<lambda>x. \<not> blocked x) (req_queue s)) \<and>
       req_queue s' = pass (req_queue s) rs \<and> need = (\<exists>x \<in> set (req_queue s'). \<not> blocked x))) s"
  using assms by (rule caam_rng.wp_hwrng_handle_req_queue)

theorem hwrng_pass_refines_witness:
  "wp (hwrng_handle_req_queue demo_env (hwrng_dev_get_rng_data demo_env)) (\<lambda>need s'. hwrng_inv dw_cookies s' \<and>
     hwrng_frame dw_cookies demo_app s' \<and>
     (\<exists>rs. set rs \<subseteq> replies demo_env \<and> length rs = length (filter (\<lambda>x. \<not> blocked x) (req_queue demo_app)) \<and>
       req_queue s' = pass (req_queue demo_app) rs \<and> need = (\<exists>x \<in> set (req_queue s'). \<not> blocked x))) demo_app"
  by (rule hwrng_pass_refines [OF demo_env_ok demo_hwrng_inv])

text \<open>
  C15: One run of \<^verbatim>\<open>hwrng_handle_req_queue\<close> sends exactly one message to every client with a pending
  request that is not blocked, in the order of the list and on the channel of that client, with as
  many bytes as are asked for but at most 4096, and no other message; it performs no undefined
  access.
\<close>

theorem hwrng_pass_sends:
  assumes "env_ok ck E" and "sent_log log E" and "hwrng_inv ck s"
  shows "wp (hwrng_handle_req_queue E (hwrng_dev_get_rng_data E)) (\<lambda>_ s'.
    sent_between log (world s) (world s') (concat (map (offer s) (hwrng_req_list s)))) s"
  using assms by (rule caam_rng_source.wp_pass_sends)

text \<open>A client that has asked for 5000 bytes.\<close>

definition demo_rng_big :: "demo_world hwkey_state" where
  "demo_rng_big = demo_app\<lparr>rng_ctxs := (rng_ctxs demo_app)(2 \<mapsto> (new_rng_ctx 2 12)\<lparr>req_size := 5000\<rparr>),
     hwrng_req_list := [2]\<rparr>"

lemma demo_rng_big_inv: "hwrng_inv dw_cookies demo_rng_big"
proof -
  have "hwrng_inv dw_cookies (demo_app\<lparr>rng_ctxs := (rng_ctxs demo_app)(2 \<mapsto> (new_rng_ctx 2 12)\<lparr>req_size := 5000\<rparr>)\<rparr>)"
    by (rule hwrng_put [OF demo_hwrng_inv, of _ "new_rng_ctx 2 12"]) (simp_all add: demo_app_def)
  then show ?thesis unfolding demo_rng_big_def by (rule hwrng_list) simp_all
qed

theorem hwrng_pass_sends_witness:
  "wp (hwrng_handle_req_queue demo_env (hwrng_dev_get_rng_data demo_env)) (\<lambda>_ s'.
    sent_between dw_sent (world demo_rng_big) (world s') [(12, [4096])]) demo_rng_big"
proof -
  have "concat (map (offer demo_rng_big) (hwrng_req_list demo_rng_big)) = [(12, [4096])]"
    by (simp add: offer_def demo_rng_big_def new_rng_ctx_def)
  with hwrng_pass_sends [OF demo_env_ok demo_sent_log demo_rng_big_inv] show ?thesis by simp
qed

section \<open>Queueing\<close>

text \<open>
  C25: A request that has been received is queued: a context without a pending request is put
  at the end of the list with the number of bytes asked for, and a context that is already
  pending has the new number added to what it is owed, modulo 2 to the power 32.
\<close>

theorem hwrng_request_queued:
  assumes "rng_ctxs s p = Some c" and "p \<noteq> 0" and "list_ok E"
    and "tipc_recv_single_buf E (rng_chan c) (sizeof_hwrng_req E) s = Inr ((int (sizeof_hwrng_req E), req), s\<lparr>world := w\<rparr>)"
  shows "hwrng_chan_handle_msg E p s = Inr (0,
    if p \<in> set (hwrng_req_list s)
    then s\<lparr>world := w, rng_ctxs := (rng_ctxs s)(p \<mapsto> c\<lparr>req_size := req_size c + hwrng_req_len E req\<rparr>)\<rparr>
    else s\<lparr>world := w, rng_ctxs := (rng_ctxs s)(p \<mapsto> c\<lparr>req_size := hwrng_req_len E req\<rparr>),
      hwrng_req_list := hwrng_req_list s @ [p]\<rparr>) \<and>
    unat (req_size c + hwrng_req_len E req) = (unat (req_size c) + unat (hwrng_req_len E req)) mod 2 ^ 32"
  using assms by (simp add: hwrng_chan_handle_msg_def prog_simps put_ctx_def unat_word_ariths)

definition demo_rng_req :: "demo_world hwkey_state" where
  "demo_rng_req = demo_app\<lparr>world := (world demo_app)\<lparr>dw_inbox := (\<lambda>_. [])(12 := [le32 5000])\<rparr>\<rparr>"

theorem hwrng_request_queued_witness:
  "hwrng_chan_handle_msg demo_env 2 demo_rng_req = Inr (0,
    if 2 \<in> set (hwrng_req_list demo_rng_req)
    then demo_rng_req\<lparr>world := world demo_app, rng_ctxs := (rng_ctxs demo_rng_req)(2 \<mapsto> (new_rng_ctx 2 12)\<lparr>req_size :=
      req_size (new_rng_ctx 2 12) + hwrng_req_len demo_env (le32 5000)\<rparr>)\<rparr>
    else demo_rng_req\<lparr>world := world demo_app, rng_ctxs := (rng_ctxs demo_rng_req)(2 \<mapsto> (new_rng_ctx 2 12)\<lparr>req_size :=
      hwrng_req_len demo_env (le32 5000)\<rparr>), hwrng_req_list := hwrng_req_list demo_rng_req @ [2]\<rparr>) \<and>
   unat (req_size (new_rng_ctx 2 12) + hwrng_req_len demo_env (le32 5000)) =
     (unat (req_size (new_rng_ctx 2 12)) + unat (hwrng_req_len demo_env (le32 5000))) mod 2 ^ 32"
proof (rule hwrng_request_queued [OF _ _ demo_list_ok])
  show "rng_ctxs demo_rng_req 2 = Some (new_rng_ctx 2 12)" by (simp add: demo_rng_req_def demo_app_def)
  have w: "(world demo_app)\<lparr>dw_inbox := (\<lambda>_. [])\<rparr> = world demo_app" by (simp add: demo_app_def demo_world0_def)
  show "tipc_recv_single_buf demo_env (rng_chan (new_rng_ctx 2 12)) (sizeof_hwrng_req demo_env) demo_rng_req =
    Inr ((int (sizeof_hwrng_req demo_env), le32 5000), demo_rng_req\<lparr>world := world demo_app\<rparr>)"
    by (simp add: tipc_recv_single_buf_def prog_simps sys_def sys_do_def demo_env_def demo_get_msg_def demo_read_msg_def
        demo_rng_req_def new_rng_ctx_def fun_upd_idem w)
qed simp

section \<open>Service\<close>

text \<open>
  After the wake-up at the end of a channel event, no request is pending that could have
  been completed: every entry of the list is blocked or still owed bytes, the list has no
  duplicates, and its entries are live contexts.
\<close>

lemma hwrng_kick_serves:
  assumes "env_ok ck E" and "hwrng_inv ck s"
  shows "wp (hwrng_kick_req_queue E (hwrng_dev_get_rng_data E)) (\<lambda>_ s'. distinct (hwrng_req_list s') \<and>
    list_all (\<lambda>p. case rng_ctxs s' p of None \<Rightarrow> False | Some c \<Rightarrow> send_blocked c \<or> req_size c \<noteq> 0) (hwrng_req_list s')) s"
proof -
  have fin: "distinct (hwrng_req_list t) \<and>
      list_all (\<lambda>p. case rng_ctxs t p of None \<Rightarrow> False | Some c \<Rightarrow> send_blocked c \<or> req_size c \<noteq> 0) (hwrng_req_list t)"
    if t: "hwrng_inv ck t" "req_queue t = pass (req_queue s) rs"
      "length rs = length (filter (\<lambda>x. \<not> blocked x) (req_queue s))" for t rs
  proof -
    have q: "send_blocked c \<or> req_size c \<noteq> 0" if "p \<in> set (hwrng_req_list t)" "rng_ctxs t p = Some c" for p c
    proof -
      have "pending t p \<in> set (pass (req_queue s) rs)" using that unfolding t(2) [symmetric] by (simp add: req_queue_def)
      with pass_left [of "req_queue s" rs] t(3) that(2) show ?thesis by (fastforce simp: pending_def blocked_def)
    qed
    have "set (hwrng_req_list t) \<subseteq> dom (rng_ctxs t)" "distinct (hwrng_req_list t)"
      using t(1) by (simp_all add: hwrng_inv_def)
    with q show ?thesis by (fastforce simp: list_all_iff split: option.splits)
  qed
  show ?thesis
    unfolding hwrng_kick_req_queue_def wp_basic(1,3)
    by (rule wp_mono [OF caam_rng.wp_hwrng_handle_req_queue [OF assms]]) (elim conjE exE, rule fin)
qed









end
