(* ===== verification/Caam_Props.thy ===== *)
theory Caam_Props
  imports Demo_Env
begin

text \<open>
  The properties of the CAAM driver: what each job writes and when it returns, that the
  driver's loops end, that the descriptors announce what the driver has prepared, and that the
  driver is brought up properly.
\<close>

section \<open>What the jobs write\<close>

lemma job_total:
  assumes "wp m (job_post E out n s) s" and "rets m (\<lambda>r _. r = CAAM_SUCCESS) s"
  shows "\<exists>s'. m s = Inr (CAAM_SUCCESS, s') \<and> job_post E out n s CAAM_SUCCESS s'"
  using rets_wp [OF assms(2,1)] by (auto simp: rets_def)

text \<open>A job whose arguments are checked by assertions: safe, total within the limits, stopped outside.\<close>

lemma job_cases:
  assumes "wp m (job_post E out n s) s" and "c \<Longrightarrow> live \<Longrightarrow> rets m (\<lambda>r _. r = CAAM_SUCCESS) s"
    and "\<not> c \<Longrightarrow> m s = Inl AssertFail"
  shows "wp m (job_post E out n s) s \<and>
    (if c then live \<longrightarrow> (\<exists>s'. m s = Inr (CAAM_SUCCESS, s') \<and> job_post E out n s CAAM_SUCCESS s') else m s = Inl AssertFail)"
  using assms job_total [OF assms(1)] by (cases c) simp_all

lemma job_preD:
  assumes "job_pre base s bufs"
  shows "caam_ready s" "dma_windows s = []" "(p, n) \<in> set bufs \<Longrightarrow> in_obj s p n"
  using assms by (auto simp: job_pre_def caam_up_def)

text \<open>
  C18: Unsealing a blob performs no undefined access; when it returns, it reports success or
  failure, at most the \<open>len\<close> bytes of the plain text buffer have changed, on success they are
  what the device has left in memory there, no DMA window stays open, and the driver is ready
  for the next job. With a device that answers and arguments within the limits it returns and
  reports success; other arguments stop it at an assertion.
\<close>

theorem decap_blob_effect:
  assumes "dma_ok E" and "job_pre (caam_base s) s [(kmod, 16), (blob, unat (len + CAAM_KB_HEADER_LEN)), (plain, unat len)]"
  shows "wp (caam_decap_blob E kmod kmod_size plain blob len) (job_post E plain (unat len) s) s \<and>
    (if kmod_size = 16 \<and> len + CAAM_KB_HEADER_LEN < 0xFFFF
     then caam_live E (caam_base s) pa \<longrightarrow> (\<exists>s'. caam_decap_blob E kmod kmod_size plain blob len s =
       Inr (CAAM_SUCCESS, s') \<and> job_post E plain (unat len) s CAAM_SUCCESS s')
     else caam_decap_blob E kmod kmod_size plain blob len s = Inl AssertFail)"
proof (rule job_cases)
  show "wp (caam_decap_blob E kmod kmod_size plain blob len) (job_post E plain (unat len) s) s"
    using job_preD [OF assms(2)] by (intro wp_caam_decap_blob [OF assms(1)]) simp_all
qed (use assms(2) decap_rets in blast, auto simp: caam_decap_blob_def prog_simps)

theorem decap_blob_effect_witness:
  "wp (caam_decap_blob demo_env (Skeymod, 0) 16 (Key_data, 0) (Rpmb_keyblob, 0) 32)
     (job_post demo_env (Key_data, 0) (unat (32 :: u32)) demo_app) demo_app \<and>
   (\<exists>s'. caam_decap_blob demo_env (Skeymod, 0) 16 (Key_data, 0) (Rpmb_keyblob, 0) 32 demo_app = Inr (CAAM_SUCCESS, s'))"
proof -
  have "job_pre (caam_base demo_app) demo_app
      [((Skeymod, 0), 16), ((Rpmb_keyblob, 0), unat (32 + CAAM_KB_HEADER_LEN)), ((Key_data, 0), unat (32 :: u32))]"
    by (simp add: job_pre_def caam_up_def demo_bufs demo_caam_ready CAAM_KB_HEADER_LEN_def)
  from decap_blob_effect [OF demo_dma_ok this, of 16 0] show ?thesis
    using demo_live by (auto simp: CAAM_KB_HEADER_LEN_def)
qed

text \<open>
  Sealing a blob performs no undefined access; when it returns, at most the \<open>len\<close> + 48
  bytes of the blob buffer have changed, and on success they are what the device has left
  there. With a device that answers and arguments within the limits it returns and reports
  success; other arguments stop it at an assertion.
\<close>

lemma gen_blob_effect:
  assumes "dma_ok E" and "job_pre (caam_base s) s [(kmod, 16), (plain, unat len), (blob, unat (len + CAAM_KB_HEADER_LEN))]"
  shows "wp (caam_gen_blob E kmod kmod_size plain blob len) (job_post E blob (unat (len + CAAM_KB_HEADER_LEN)) s) s \<and>
    (if kmod_size = 16 \<and> len + CAAM_KB_HEADER_LEN < 0xFFFF
     then caam_live E (caam_base s) pa \<longrightarrow> (\<exists>s'. caam_gen_blob E kmod kmod_size plain blob len s =
       Inr (CAAM_SUCCESS, s') \<and> job_post E blob (unat (len + CAAM_KB_HEADER_LEN)) s CAAM_SUCCESS s')
     else caam_gen_blob E kmod kmod_size plain blob len s = Inl AssertFail)"
proof (rule job_cases)
  show "wp (caam_gen_blob E kmod kmod_size plain blob len) (job_post E blob (unat (len + CAAM_KB_HEADER_LEN)) s) s"
    using job_preD [OF assms(2)] by (intro wp_caam_gen_blob [OF assms(1)]) simp_all
qed (use assms(2) gen_rets in blast, auto simp: caam_gen_blob_def prog_simps)

text \<open>
  AES encryption and decryption perform no undefined access; when they return, at most the
  output buffer has changed, and on success it holds what the device has left there. With a
  device that answers they return and report success for a 16-byte key and a length of at most
  65535 that is a multiple of 16; other arguments stop them at an assertion.
\<close>

lemma aes_op_effect:
  assumes "dma_ok E" and "job_pre (caam_base s) s [(key, 16), (inp, unat len), (out, unat len)]"
  shows "wp (caam_aes_op E key key_size inp out len enc) (job_post E out (unat len) s) s \<and>
    (if key_size = 16 \<and> len \<le> 0xFFFF \<and> len mod 16 = 0
     then caam_live E (caam_base s) pa \<longrightarrow> (\<exists>s'. caam_aes_op E key key_size inp out len enc s =
       Inr (CAAM_SUCCESS, s') \<and> job_post E out (unat len) s CAAM_SUCCESS s')
     else caam_aes_op E key key_size inp out len enc s = Inl AssertFail)"
proof (rule job_cases)
  show "wp (caam_aes_op E key key_size inp out len enc) (job_post E out (unat len) s) s"
    using job_preD [OF assms(2)] by (intro wp_caam_aes_op [OF assms(1)]) simp_all
next
  assume "key_size = 16 \<and> len \<le> 0xFFFF \<and> len mod 16 = 0" and live: "caam_live E (caam_base s) pa"
  then show "rets (caam_aes_op E key key_size inp out len enc) (\<lambda>r _. r = CAAM_SUCCESS) s"
    using aes_rets [OF live _ _ assms(2)] by simp
qed (auto simp: caam_aes_op_def prog_simps)

text \<open>
  C23: However many physical segments the buffer has, fetching random numbers writes at most the
  bytes asked for, performs no undefined access, and leaves the rest of the program alone. With
  a device that answers it returns and reports success.
\<close>

theorem hwrng_effect:
  assumes "dma_ok E" and "job_pre (caam_base s) s [(out, unat len)]"
  shows "wp (caam_hwrng E out len) (\<lambda>r s'. out_frame out (unat len) s s' \<and> (r = CAAM_SUCCESS \<or> r = CAAM_FAILURE)) s \<and>
    (caam_live E (caam_base s) pa \<longrightarrow> (\<exists>s'. caam_hwrng E out len s = Inr (CAAM_SUCCESS, s') \<and>
       out_frame out (unat len) s s'))"
proof -
  have w: "wp (caam_hwrng E out len) (\<lambda>r s'. out_frame out (unat len) s s' \<and> (r = CAAM_SUCCESS \<or> r = CAAM_FAILURE)) s"
    using job_preD [OF assms(2)] by (intro wp_caam_hwrng [OF assms(1)]) simp_all
  have "\<exists>s'. caam_hwrng E out len s = Inr (CAAM_SUCCESS, s') \<and> out_frame out (unat len) s s'"
    if "caam_live E (caam_base s) pa"
    using rets_wp [OF hwrng_rets [OF that assms(2)] w] by (auto simp: rets_def)
  with w show ?thesis by blast
qed

theorem hwrng_effect_witness:
  "wp (caam_hwrng demo_env (Rng_data, 0) 4096) (\<lambda>r s'. out_frame (Rng_data, 0) (unat (4096 :: u32)) demo_app s' \<and>
     (r = CAAM_SUCCESS \<or> r = CAAM_FAILURE)) demo_app \<and>
   (\<exists>s'. caam_hwrng demo_env (Rng_data, 0) 4096 demo_app = Inr (CAAM_SUCCESS, s'))"
proof -
  have "job_pre (caam_base demo_app) demo_app [((Rng_data, 0), unat (4096 :: u32))]"
    by (simp add: job_pre_def caam_up_def demo_bufs demo_caam_ready)
  from hwrng_effect [OF demo_dma_ok this, of 0] show ?thesis using demo_live by auto
qed

section \<open>Loops end\<close>

text \<open>
  C29: The loop over the segments of a random number request ends: any fuel above the number of
  bytes gives the same result as the fuel chosen, so the fuel never cuts the loop off.
\<close>

theorem hwrng_fuel_enough:
  assumes "dma_ok E" and "unat len < fuel"
  shows "caam_hwrng_loop E fuel out len s = caam_hwrng E out len s"
  unfolding caam_hwrng_def using assms by (intro hwrng_fuel) simp_all

theorem hwrng_fuel_enough_witness:
  "caam_hwrng_loop demo_env 100 (Rng_data, 0) 32 demo_app = caam_hwrng demo_env (Rng_data, 0) 32 demo_app"
  by (rule hwrng_fuel_enough [OF demo_dma_ok]) simp


section \<open>Descriptors\<close>

text \<open>
  Every job descriptor the driver builds is announced with its own length: the length field
  in the low seven bits of its header word is the number of its words, and it fits the 64-word
  descriptor buffer.
\<close>

lemma descriptor_headers:
  "list_all (\<lambda>d. unat (hd d AND 0x7f) = length d \<and> length d \<le> MAX_DSC_NUM)
     [decap_dsc a b c n, encap_dsc a b c n, aes_dsc a b c n enc, hwrng_dsc n a, hash_dsc a b n, kdfv1_dsc a, rng_inst_dsc]"
  by (simp add: decap_dsc_def encap_dsc_def aes_dsc_def hwrng_dsc_def hash_dsc_def kdfv1_dsc_def rng_inst_dsc_def
      MAX_DSC_NUM_def)





section \<open>Bringing the driver up\<close>

text \<open>
  C28: \<^verbatim>\<open>init_caam_env\<close> performs no undefined access; when it returns 0 the rings and the job
  exist and the driver is ready, otherwise it returns one of its two error codes; it leaves the
  other components and every object but the self tests' buffers alone. With a kernel that
  grants its mappings and allocations, a device that answers it returns 0, with the generator instantiated
  first where it was not, and after the self tests where they are built in.
\<close>

theorem init_caam_env_effect:
  assumes "dma_ok E" and "dma_windows s = []"
  shows "wp (init_caam_env E) (\<lambda>rc t. init_post s t \<and> (rc = 0 \<and> caam_ready t \<or> rc \<in> {ERR_GENERIC E, ERR_NO_MEMORY E})) s \<and>
    (boot_live E base pa \<longrightarrow> (\<exists>t. init_caam_env E s = Inr (0, t) \<and> caam_base t = base))"
  using assms init_caam_env_rets [of E base pa s] by (auto simp: rets_def intro!: wp_init_caam_env)

theorem init_caam_env_effect_witness:
  "wp (init_caam_env demo_cold) (\<lambda>rc t. init_post demo_boot t \<and>
     (rc = 0 \<and> caam_ready t \<or> rc \<in> {ERR_GENERIC demo_cold, ERR_NO_MEMORY demo_cold})) demo_boot \<and>
   (\<exists>t. init_caam_env demo_cold demo_boot = Inr (0, t) \<and> caam_base t = 0x40000000)"
proof -
  have "dma_windows demo_boot = []" by (simp add: demo_boot_def)
  with init_caam_env_effect [OF env_okD(1) [OF demo_cold_env_ok], where base = "0x40000000" and pa = 0] demo_cold_boot_live
  show ?thesis by blast
qed

text \<open>
  C38: \<^verbatim>\<open>caam_clk_get\<close> reads the clock gate register once and writes it back once. On the i.MX7
  the value is 3; on the i.MX6 the gate fields at bits 8 and 12 are switched on, but the field
  at bit 10 stays as it was and bit 0 is set, since the source compares 3 with 10 where it
  shifts elsewhere.
\<close>

theorem caam_clk_gates:
  "caam_clk_get E s = (case k_readl E (ccm_base s + CCM_CAAM_CCGR_OFFSET (soc (mach_type E))) (world s) of (v, w) \<Rightarrow>
     Inr ((), s\<lparr>world := k_writel E (caam_clk_val (mach_type E) v) (ccm_base s + CCM_CAAM_CCGR_OFFSET (soc (mach_type E))) w\<rparr>)) \<and>
   caam_clk_val MACH_IMX7 val = 3 \<and> caam_clk_val MACH_IMX6 val AND 0x3300 = 0x3300 \<and>
   caam_clk_val MACH_IMX6 val AND 0x0C00 = val AND 0x0C00 \<and> caam_clk_val MACH_IMX6 val AND 1 = 1"
  by (simp add: caam_clk_get_def prog_simps readl_def writel_def sys_def sys_do_def caam_clk_val_def
      bit.conj_disj_distrib2 split: prod.splits)




end
