(* ===== verification/Caam_Device.thy ===== *)
theory Caam_Device
  imports Caam_Live
begin

text \<open>
  What the jobs compute. The accelerator is programmed with descriptors; here is what the
  commands of the driver's descriptors ask for, as an interpreter over the words, with the
  cryptographic units as parameters, and the contract of a device that does what it is asked
  for. Under this contract the jobs of the driver compute the functions they are named after.
\<close>

section \<open>Descriptors\<close>

text \<open>
  The units: AES-128 in ECB mode (encrypting or not, key, message), SHA-1, sealing and unsealing
  of blobs under a key modifier, and the master key verification blob of a key modifier.
\<close>

record caam_units =
  aes_unit :: "bool \<Rightarrow> byte list \<Rightarrow> byte list \<Rightarrow> byte list"
  sha1_unit :: "byte list \<Rightarrow> byte list"
  seal_unit :: "byte list \<Rightarrow> byte list \<Rightarrow> byte list"
  unseal_unit :: "byte list \<Rightarrow> byte list \<Rightarrow> byte list"
  mkvb_unit :: "byte list \<Rightarrow> byte list"

text \<open>
  The descriptor controller while it works on a job: the class 1 key, the key modifier, the last
  algorithm operation, the message loaded, the input and output sequences, and the results, by
  the bus address they are stored at.
\<close>

record deco =
  class1_key :: "byte list"
  key_modifier :: "byte list"
  algorithm :: u32
  message :: "byte list"
  seq_in :: "byte list"
  seq_out :: "u32 \<times> nat"
  results :: "(u32 \<times> byte list) list"

definition deco0 :: deco where
  "deco0 = \<lparr>class1_key = [], key_modifier = [], algorithm = 0, message = [], seq_in = [], seq_out = (0, 0), results = []\<rparr>"

text \<open>The fields of a command: its type, a length of \<open>n\<close> bits, the field of \<open>n\<close> bits above bit 16.\<close>

definition cmd_type :: "u32 \<Rightarrow> u32" where "cmd_type c = drop_bit 27 c"
definition cmd_len :: "nat \<Rightarrow> u32 \<Rightarrow> nat" where "cmd_len n c = unat (take_bit n c)"
definition cmd_field :: "nat \<Rightarrow> u32 \<Rightarrow> u32" where "cmd_field n c = take_bit n (drop_bit 16 c)"
definition op_type :: "u32 \<Rightarrow> u32" where "op_type c = take_bit 3 (drop_bit 24 c)"

definition put_result :: "u32 \<Rightarrow> byte list \<Rightarrow> deco \<Rightarrow> deco" where
  "put_result a bs d = d\<lparr>results := (a, bs) # results d\<rparr>"

text \<open>
  An OPERATION: the blob protocol (0x0D) works on the sequences at once, with 2 in the protocol
  information for the verification blob; an algorithm is remembered for the message to come.
\<close>

definition operation :: "caam_units \<Rightarrow> u32 \<Rightarrow> deco \<Rightarrow> deco" where
  "operation U c d =
     (let (a, n) = seq_out d in
      if op_type c = 6 \<and> cmd_field 8 c = 0x0D then put_result a (take n (unseal_unit U (key_modifier d) (seq_in d))) d
      else if op_type c = 7 \<and> cmd_field 8 c = 0x0D then
        put_result a (take n (if take_bit 16 c = 2 then mkvb_unit U (key_modifier d)
                              else seal_unit U (key_modifier d) (seq_in d))) d
      else d\<lparr>algorithm := c\<rparr>)"

text \<open>The algorithm 0x10 is AES, with the direction in the lowest bit; 0x41 is SHA-1.\<close>

definition fifo_store :: "caam_units \<Rightarrow> u32 \<Rightarrow> u32 \<Rightarrow> deco \<Rightarrow> deco" where
  "fifo_store U c a d =
     (if cmd_field 6 c = 0x30 \<and> cmd_field 8 (algorithm d) = 0x10
      then put_result a (take (cmd_len 16 c) (aes_unit U (bit (algorithm d) 0) (class1_key d) (message d))) d
      else d)"

definition store :: "caam_units \<Rightarrow> u32 \<Rightarrow> u32 \<Rightarrow> deco \<Rightarrow> deco" where
  "store U c a d =
     (if cmd_field 7 c = 0x20 \<and> cmd_field 8 (algorithm d) = 0x41
      then put_result a (take (cmd_len 8 c) (sha1_unit U (message d))) d
      else d)"

text \<open>
  The commands, by their type: KEY (0x00), LOAD (0x02, with the data in the descriptor when bit
  23 is set), FIFO LOAD (0x04), STORE (0x0A), FIFO STORE (0x0C), OPERATION (0x10), HEADER (0x16),
  SEQ IN PTR (0x1E), SEQ OUT PTR (0x1F). \<open>m a\<close> is what the device reads at the bus address \<open>a\<close>.
\<close>

fun dsc_exec :: "caam_units \<Rightarrow> (u32 \<Rightarrow> byte list) \<Rightarrow> u32 list \<Rightarrow> deco \<Rightarrow> deco" where
  "dsc_exec U m (c # a # ws) d =
     (if cmd_type c = 0x16 then dsc_exec U m (a # ws) d
      else if cmd_type c = 0x10 then dsc_exec U m (a # ws) (operation U c d)
      else if cmd_type c = 0x02 \<and> bit c 23 then
        (let k = (cmd_len 8 c + 3) div 4 in
         dsc_exec U m (drop k (a # ws)) (d\<lparr>key_modifier := take (cmd_len 8 c) (words_bytes (take k (a # ws)))\<rparr>))
      else dsc_exec U m ws
       (if cmd_type c = 0x00 then d\<lparr>class1_key := take (cmd_len 10 c) (m a)\<rparr>
        else if cmd_type c = 0x02 then d\<lparr>key_modifier := take (cmd_len 8 c) (m a)\<rparr>
        else if cmd_type c = 0x04 then d\<lparr>message := take (cmd_len 16 c) (m a)\<rparr>
        else if cmd_type c = 0x0A then store U c a d
        else if cmd_type c = 0x0C then fifo_store U c a d
        else if cmd_type c = 0x1E then d\<lparr>seq_in := take (cmd_len 16 c) (m a)\<rparr>
        else if cmd_type c = 0x1F then d\<lparr>seq_out := (a, cmd_len 16 c)\<rparr>
        else d))"
| "dsc_exec U m [c] d = (if cmd_type c = 0x10 then operation U c d else d)"
| "dsc_exec U m [] d = d"

definition dsc_results :: "caam_units \<Rightarrow> (u32 \<Rightarrow> byte list) \<Rightarrow> u32 list \<Rightarrow> (u32 \<times> byte list) list" where
  "dsc_results U m ws = results (dsc_exec U m ws deco0)"

section \<open>What the driver's descriptors ask for\<close>

text \<open>A command with a length in its low half.\<close>

lemma len_command:
  fixes c len :: u32
  assumes "take_bit 16 c = 0"
  shows "take_bit 16 (c OR (0x0000ffff AND len)) = take_bit 16 len"
    and "16 \<le> k \<Longrightarrow> drop_bit k (c OR (0x0000ffff AND len)) = drop_bit k c"
proof -
  have "0x0000ffff AND len = take_bit 16 len" by (simp add: take_bit_eq_mask mask_numeral and.commute)
  then show "take_bit 16 (c OR (0x0000ffff AND len)) = take_bit 16 len"
    "16 \<le> k \<Longrightarrow> drop_bit k (c OR (0x0000ffff AND len)) = drop_bit k c"
    using assms by (simp_all add: take_bit_or drop_bit_or drop_bit_take_bit)
qed

lemmas dsc_simps = cmd_type_def cmd_len_def cmd_field_def op_type_def operation_def fifo_store_def store_def
  put_result_def deco0_def len_command Let_def

lemma len16:
  fixes len :: u32
  assumes "len \<le> 0xFFFF"
  shows "take_bit 16 len = len" and "unat (0xFFFF AND len) = unat len"
proof -
  have "unat len < 2 ^ 16" using assms by (simp add: word_le_nat_alt)
  then have "unat (take_bit 16 len) = unat len" by (simp add: unsigned_take_bit_eq take_bit_nat_eq_self)
  then show t: "take_bit 16 len = len" by (simp only: word_unat_eq_iff)
  have "0xFFFF AND len = take_bit 16 len" by (simp add: take_bit_eq_mask mask_numeral and.commute)
  with t show "unat (0xFFFF AND len) = unat len" by simp
qed

lemma aes_results:
  assumes "len \<le> 0xFFFF"
  shows "dsc_results U m (aes_dsc kpa ipa opa len enc) =
    [(opa, take (unat len) (aes_unit U enc (take 16 (m kpa)) (take (unat len) (m ipa))))]"
  using len16 [OF assms] by (cases enc) (simp_all add: dsc_results_def aes_dsc_def dsc_simps)

lemma hash_results:
  assumes "len \<le> 0xFFFF"
  shows "dsc_results U m (hash_dsc ipa opa len) = [(opa, take 20 (sha1_unit U (take (unat len) (m ipa))))]"
  using len16 [OF assms] by (simp add: dsc_results_def hash_dsc_def dsc_simps)

lemma encap_results:
  assumes "len + CAAM_KB_HEADER_LEN < 0xFFFF" and "len \<le> 0xFFFF"
  shows "dsc_results U m (encap_dsc kpa ppa bpa len) =
    [(bpa, take (unat (len + CAAM_KB_HEADER_LEN)) (seal_unit U (take 16 (m kpa)) (take (unat len) (m ppa))))]"
  using len16 [OF assms(2)] len16 [OF less_imp_le [OF assms(1)]] by (simp add: dsc_results_def encap_dsc_def dsc_simps)

lemma decap_results:
  assumes "len + CAAM_KB_HEADER_LEN < 0xFFFF" and "len \<le> 0xFFFF"
  shows "dsc_results U m (decap_dsc kpa bpa ppa len) =
    [(ppa, take (unat len) (unseal_unit U (take 16 (m kpa)) (take (unat (len + CAAM_KB_HEADER_LEN)) (m bpa))))]"
  using len16 [OF assms(2)] len16 [OF less_imp_le [OF assms(1)]] by (simp add: dsc_results_def decap_dsc_def dsc_simps)

text \<open>The key modifier of the root key is in the descriptor.\<close>

definition kdfv1_modifier :: "byte list" where
  "kdfv1_modifier = words_bytes [0x7083A393, 0x2CC0C9F7, 0xFC5D2FC0, 0x2C4B04E7]"

lemma kdfv1_results:
  "dsc_results U m (kdfv1_dsc pa) = [(pa, take 48 (mkvb_unit U kdfv1_modifier))]"
  by (simp add: dsc_results_def kdfv1_dsc_def dsc_simps kdfv1_modifier_def)

section \<open>A device that does what it is asked for\<close>

fun bytes_words :: "byte list \<Rightarrow> u32 list" where
  "bytes_words (b0 # b1 # b2 # b3 # bs) = of_le32 [b0, b1, b2, b3] # bytes_words bs"
| "bytes_words bs = []"

lemma bytes_words_le32 [simp]: "bytes_words (le32 w @ bs) = w # bytes_words bs"
  using of_le32_le32 [of w] by (simp add: le32_def)

lemma bytes_words [simp]: "bytes_words (words_bytes ws) = ws"
  by (induction ws) (simp_all add: words_bytes_def)

text \<open>
  The job whose address is in the input ring: what the device makes of it when it sees \<open>m\<close>.
\<close>

definition job_results :: "caam_units \<Rightarrow> u32 \<Rightarrow> (u32 \<Rightarrow> byte list) \<Rightarrow> (u32 \<times> byte list) list" where
  "job_results U ring m = dsc_results U m (bytes_words (m (of_le32 (m ring))))"

text \<open>
  The contract, over two observations of the world: \<open>seen\<close> is what the device sees at a bus
  address, \<open>job\<close> what it saw when it started the job it has last been given, as long as no buffer
  has been prepared since. \<^verbatim>\<open>prepare_dma\<close> shows the device the bytes of a buffer, at the buffer's bus
  address \<open>bus p\<close>; reading registers, writing others than the one that starts a job, and
  \<^verbatim>\<open>finish_dma\<close> change nothing of this; writing the job register starts the job in the ring; and the
  memory at the bus address of a result holds that result (in the rings there is the report on the job).
\<close>

definition crypto_device ::
  "'w env \<Rightarrow> u32 \<Rightarrow> caam_units \<Rightarrow> (cptr \<Rightarrow> u32) \<Rightarrow> ('w \<Rightarrow> u32 \<Rightarrow> byte list) \<Rightarrow>
   ('w \<Rightarrow> (u32 \<Rightarrow> byte list) option) \<Rightarrow> bool" where
  "crypto_device E base U bus seen job \<longleftrightarrow>
     (\<forall>p bs n fl w pm w'. k_prepare_dma E p bs n fl w = ((1, pm), w') \<longrightarrow>
        ucast (paddr pm) = bus p \<and> seen w' = (seen w)(bus p := bs)) \<and>
     (\<forall>a w. seen (snd (k_readl E a w)) = seen w \<and> job (snd (k_readl E a w)) = job w) \<and>
     (\<forall>v a w. seen (k_writel E v a w) = seen w) \<and>
     (\<forall>v a w. job (k_writel E v a w) = (if a = caam_reg_off CAAM_IRJAR0 + base then Some (seen w) else job w)) \<and>
     (\<forall>p n w. job (k_finish_dma E p n w) = job w) \<and>
     (\<forall>w m p bs. job w = Some m \<longrightarrow> fst p \<noteq> Rings \<longrightarrow> map_of (job_results U (bus (Rings, 0)) m) (bus p) = Some bs \<longrightarrow>
        map (dma_ram E w p) [0..<length bs] = bs)"

lemma crypto_deviceD:
  assumes "crypto_device E base U bus seen job"
  shows "k_prepare_dma E p bs n fl w = ((1, pm), w') \<Longrightarrow> ucast (paddr pm) = bus p"
    and "k_prepare_dma E p bs n fl w = ((1, pm), w') \<Longrightarrow> seen w' = (seen w)(bus p := bs)"
    and "seen (snd (k_readl E a w)) = seen w" and "job (snd (k_readl E a w)) = job w"
    and "seen (k_writel E v a w) = seen w"
    and "job (k_writel E v a w) = (if a = caam_reg_off CAAM_IRJAR0 + base then Some (seen w) else job w)"
    and "job (k_finish_dma E p n w) = job w"
    and "job w = Some m \<Longrightarrow> fst p \<noteq> Rings \<Longrightarrow> map_of (job_results U (bus (Rings, 0)) m) (bus p) = Some bs \<Longrightarrow>
        map (dma_ram E w p) [0..<length bs] = bs"
proof -
  note d = assms [unfolded crypto_device_def]
  show "ucast (paddr pm) = bus p" "seen w' = (seen w)(bus p := bs)" if "k_prepare_dma E p bs n fl w = ((1, pm), w')"
    using conjunct1 [OF d] that by blast+
  show "seen (snd (k_readl E a w)) = seen w" "job (snd (k_readl E a w)) = job w" "seen (k_writel E v a w) = seen w"
    "job (k_writel E v a w) = (if a = caam_reg_off CAAM_IRJAR0 + base then Some (seen w) else job w)"
    "job (k_finish_dma E p n w) = job w"
    using conjunct2 [OF d] by blast+
  show "map (dma_ram E w p) [0..<length bs] = bs"
    if "job w = Some m" "fst p \<noteq> Rings" "map_of (job_results U (bus (Rings, 0)) m) (bus p) = Some bs"
    using d that by blast
qed

section \<open>The driver under the contract\<close>

text \<open>The bytes of a range.\<close>

definition bytes_at :: "('w, 'z) machine_scheme \<Rightarrow> cptr \<Rightarrow> nat \<Rightarrow> byte list" where
  "bytes_at s p n = take n (drop (snd p) (mem s (fst p)))"

lemma dev_prepare_bytes:
  assumes live: "caam_live E base pa" and dev: "crypto_device E base U bus seen job"
    and Q: "\<And>pm w. pm_size pm = n \<Longrightarrow> ucast (paddr pm) = bus p \<Longrightarrow> seen w = (seen (world s))(bus p := bs) \<Longrightarrow>
      Q (1, pm) (s\<lparr>world := w, dma_windows := dma_windows s @
        (if DMA_FLAG_FROM_DEVICE \<in> fl then [(p, unat n)] else [])\<rparr>)"
  shows "rets (prepare_dma_bytes E p bs n fl) Q s"
proof -
  from live have "\<exists>pm w. k_prepare_dma E p bs n fl (world s) = ((1, pm), w) \<and> pm_size pm = n"
    unfolding caam_live_def by meson
  then obtain pm w where k: "k_prepare_dma E p bs n fl (world s) = ((1, pm), w)" "pm_size pm = n" by blast
  from Q [OF k(2) crypto_deviceD(1,2) [OF dev k(1)]] k show ?thesis
    by (cases "DMA_FLAG_FROM_DEVICE \<in> fl") (simp_all add: prepare_dma_bytes_def)
qed

lemma dev_prepare:
  assumes "caam_live E base pa" and "crypto_device E base U bus seen job" and "in_obj s p (unat n)"
    and "\<And>pm w. ucast (paddr pm) = bus p \<Longrightarrow> seen w = (seen (world s))(bus p := bytes_at s p (unat n)) \<Longrightarrow>
      Q (1, pm) (s\<lparr>world := w, dma_windows := dma_windows s @ (if DMA_FLAG_FROM_DEVICE \<in> fl then [(p, unat n)] else [])\<rparr>)"
  shows "rets (prepare_dma E p n fl) Q s"
  using assms(3,4) by (auto simp: prepare_dma_def bytes_at_def intro!: dev_prepare_bytes [OF assms(1,2)])

lemma dev_clk:
  assumes dev: "crypto_device E base U bus seen job" and Q: "\<And>w. seen w = seen (world s) \<Longrightarrow> Q () (s\<lparr>world := w\<rparr>)"
  shows "rets (caam_clk_get E) Q s"
proof -
  have "seen w' = seen w" if "k_readl E a w = (v, w')" for a v w w'
    using crypto_deviceD(3) [OF dev, of a w] that by simp
  then show ?thesis
    by (auto simp: caam_clk_get_def readl_def crypto_deviceD(5) [OF dev] intro!: Q split: prod.splits)
qed

lemma dev_reads: "crypto_device E base U bus seen job \<Longrightarrow> job (after_reads E a k w) = job w"
  by (induction k arbitrary: w) (simp_all add: after_reads_def crypto_deviceD(4))

lemma dev_poll:
  assumes "caam_live E base pa" and dev: "crypto_device E base U bus seen job"
    and "a = caam_reg_off CAAM_ORSFR0 + base" and "\<And>w. job w = job (world s) \<Longrightarrow> Q () (s\<lparr>world := w\<rparr>)"
  shows "rets (poll_reg E (poll_fuel E) a (\<lambda>v. v = 1)) Q s"
proof -
  have "\<exists>k<poll_fuel E. fst (k_readl E a (after_reads E a k (world s))) = 1"
    using assms(1,3) by (simp add: caam_live_def)
  with assms(4) show ?thesis by (simp add: rets_def poll_reg_cases dev_reads [OF dev])
qed

text \<open>
  \<^verbatim>\<open>run_job\<close> gives the device the job: it sees what has been prepared, the descriptor, and the
  descriptor's address in the ring.
\<close>

lemma dev_run_job:
  fixes s :: "('w, 'z) caam_state_scheme"
  assumes live: "caam_live E base (bus (Job_dsc, 0))" and dev: "crypto_device E base U bus seen job"
    and rdy: "caam_up base s" and j: "g_job s = Some j" "dsc_used j \<le> length (dsc j)" and win: "win_ok s"
    and Q: "\<And>s' i. caam_up base s' \<Longrightarrow> dma_windows s' = [] \<Longrightarrow> g_job s' = Some i \<Longrightarrow> job_status i = 0 \<Longrightarrow>
      (\<And>p n. in_obj s' p n = in_obj s p n) \<Longrightarrow>
      job (world s') = Some ((seen (world s))(bus (Job_dsc, 0) := words_bytes (take (dsc_used j) (dsc j)),
        bus (Rings, 0) := le32 (bus (Job_dsc, 0)))) \<Longrightarrow> Q () s'"
  shows "rets (run_job E) Q s"
proof -
  from rdy obtain r where r: "g_rings s = Some r" and base: "caam_base s = base" and dsc: "length (dsc j) = MAX_DSC_NUM"
    using j(1) by (auto simp: caam_up_def caam_ready_def)
  have ring: "map (dma_ram E w (Rings, 4)) [0..<8] = le32 (bus (Job_dsc, 0)) @ le32 0" for w
    using live by (simp add: caam_live_def)
  show ?thesis
    unfolding run_job_def
    apply (simp add: r j Let_def)
    apply (rule dev_prepare_bytes [OF live dev])
    apply (simp add: r)
    apply (rule dev_prepare_bytes [OF live dev])
    apply simp
    apply (rule dev_clk [OF dev], simp)
    apply (rule dev_poll [OF live dev])
     apply (simp add: caam_reg_addr_def base)
    apply (simp add: device_done_def)
    apply (rule rets_device_writes)
    subgoal using win by (auto simp: win_ok_def in_obj_def)
    apply (simp add: finish_dma_out_def ring of_le32_le32)
    apply (rule Q [where i = "j\<lparr>job_status := 0\<rparr>"])
         apply (simp_all add: caam_up_def caam_ready_def r dsc in_obj_def base caam_reg_addr_def crypto_deviceD [OF dev]
          ring_bytes_def words_bytes_def sizeof_g_rings_def)
    done
qed

text \<open>Preparing an input shows it to the device, and preparing the output and submitting the job starts it.\<close>

lemma dev_in:
  fixes s :: "('w, 'z) caam_state_scheme"
  assumes live: "caam_live E base pa" and dev: "crypto_device E base U bus seen job"
    and rdy: "caam_up base s" and win: "dma_windows s = []" and obj: "in_obj s p (unat n)"
    and k: "\<And>t. caam_up base t \<Longrightarrow> dma_windows t = [] \<Longrightarrow> mem t = mem s \<Longrightarrow>
      seen (world t) = (seen (world s))(bus p := bytes_at s p (unat n)) \<Longrightarrow> rets (k (bus p)) Q t"
  shows "rets (mbind (prepare_dma E p n {DMA_FLAG_TO_DEVICE}) (\<lambda>(ret, pmem).
     if ret \<noteq> 1 then mret CAAM_FAILURE else let x = ucast (paddr pmem) in k x)) Q s"
  unfolding rets_basic(2) [of "prepare_dma E p n fl" for fl]
  using rdy win by (intro dev_prepare [OF live dev obj]) (auto simp: Let_def intro!: k)

lemma dev_run_then:
  fixes t :: "('w, 'z) caam_state_scheme"
  assumes live: "caam_live E base (bus (Job_dsc, 0))" and dev: "crypto_device E base U bus seen job"
    and t: "caam_up base t" "dma_windows t = [(out, unat n)]" "in_obj t out (unat n)"
    and j: "g_job t = Some j" "dsc_used j \<le> length (dsc j)" "take (dsc_used j) (dsc j) = ws"
    and Q: "\<And>s'. job (world s') = Some ((seen (world t))(bus (Job_dsc, 0) := words_bytes ws,
      bus (Rings, 0) := le32 (bus (Job_dsc, 0)))) \<Longrightarrow> Q CAAM_SUCCESS s'"
  shows "rets (run_job E) (\<lambda>_. rets job_failed (\<lambda>failed. rets (if failed then mret CAAM_FAILURE
      else mthen (finish_dma E out n) (mret CAAM_SUCCESS)) Q)) t"
proof (rule dev_run_job [OF live dev t(1) j(1,2)])
  show "win_ok t" using t by (simp add: win_ok_def)
  fix u :: "('w, 'z) caam_state_scheme" and i
  assume u: "g_job u = Some i" "job_status i = 0" "\<And>p n. in_obj u p n = in_obj t p n"
    "job (world u) = Some ((seen (world t))(bus (Job_dsc, 0) := words_bytes (take (dsc_used j) (dsc j)),
      bus (Rings, 0) := le32 (bus (Job_dsc, 0))))"
  show "rets job_failed (\<lambda>failed. rets (if failed then mret CAAM_FAILURE
    else mthen (finish_dma E out n) (mret CAAM_SUCCESS)) Q) u"
    using u(1,2,4) t(3) u(3) unfolding j(3)
    by (simp add: job_failed_def finish_dma_def, intro Q) (simp add: crypto_deviceD(7) [OF dev])
qed

text \<open>Filling the descriptor in comes first.\<close>

lemma dev_fill_then:
  fixes t :: "('w, 'z) caam_state_scheme"
  assumes live: "caam_live E base (bus (Job_dsc, 0))" and dev: "crypto_device E base U bus seen job"
    and t: "caam_up base t" "dma_windows t = [(out, unat n)]" "in_obj t out (unat n)" and ws: "length ws \<le> MAX_DSC_NUM"
    and Q: "\<And>s'. job (world s') = Some ((seen (world t))(bus (Job_dsc, 0) := words_bytes ws,
      bus (Rings, 0) := le32 (bus (Job_dsc, 0)))) \<Longrightarrow> Q CAAM_SUCCESS s'"
  shows "rets (mthen (set_dsc ws) (mthen (run_job E) (mbind job_failed (\<lambda>failed.
     if failed then mret CAAM_FAILURE else mthen (finish_dma E out n) (mret CAAM_SUCCESS))))) Q t"
proof -
  obtain j where j: "g_job t = Some j" "length (dsc j) = MAX_DSC_NUM"
    using t(1) by (auto simp: caam_up_def caam_ready_def)
  let ?j = "j\<lparr>dsc := overwrite 0 ws (dsc j), dsc_used := length ws\<rparr>"
  have d: "dsc_used ?j \<le> length (dsc ?j)" "take (dsc_used ?j) (dsc ?j) = ws" "length (dsc ?j) = MAX_DSC_NUM"
    using j(2) ws by (simp_all add: overwrite_def)
  have "rets (run_job E) (\<lambda>_. rets job_failed (\<lambda>failed. rets (if failed then mret CAAM_FAILURE
      else mthen (finish_dma E out n) (mret CAAM_SUCCESS)) Q)) (t\<lparr>g_job := Some ?j\<rparr>)"
    using t d by (intro dev_run_then [where j = ?j, OF live dev] Q) (auto simp: caam_up_def caam_ready_def in_obj_def)
  moreover have "set_dsc ws t = Inr ((), t\<lparr>g_job := Some ?j\<rparr>)" using j ws by (simp add: set_dsc_def prog_simps)
  ultimately show ?thesis unfolding rets_basic(2,3) rets_def [of "set_dsc x" for x] by blast
qed

lemma dev_out:
  fixes s :: "('w, 'z) caam_state_scheme"
  assumes live: "caam_live E base (bus (Job_dsc, 0))" and dev: "crypto_device E base U bus seen job"
    and rdy: "caam_up base s" and win: "dma_windows s = []" and obj: "in_obj s out (unat n)"
    and ws: "length (ws (bus out)) \<le> MAX_DSC_NUM"
    and Q: "\<And>s'. job (world s') = Some ((seen (world s))(bus out := bytes_at s out (unat n),
      bus (Job_dsc, 0) := words_bytes (ws (bus out)), bus (Rings, 0) := le32 (bus (Job_dsc, 0)))) \<Longrightarrow> Q CAAM_SUCCESS s'"
  shows "rets (mbind (prepare_dma E out n {DMA_FLAG_FROM_DEVICE}) (\<lambda>(ret, pmem).
     if ret \<noteq> 1 then mret CAAM_FAILURE else let x = ucast (paddr pmem) in
     mthen (set_dsc (ws x)) (mthen (run_job E) (mbind job_failed (\<lambda>failed.
     if failed then mret CAAM_FAILURE else mthen (finish_dma E out n) (mret CAAM_SUCCESS)))))) Q s"
  unfolding rets_basic(2) [of "prepare_dma E out n fl" for fl]
proof (rule dev_prepare [OF live dev obj])
  fix pm :: dma_pmem and w
  assume w: "ucast (paddr pm) = bus out" "seen w = (seen (world s))(bus out := bytes_at s out (unat n))"
  let ?t = "s\<lparr>world := w, dma_windows := dma_windows s @ (if DMA_FLAG_FROM_DEVICE \<in> {DMA_FLAG_FROM_DEVICE}
    then [(out, unat n)] else [])\<rparr>"
  have "rets (mthen (set_dsc (ws (bus out))) (mthen (run_job E) (mbind job_failed (\<lambda>failed.
     if failed then mret CAAM_FAILURE else mthen (finish_dma E out n) (mret CAAM_SUCCESS))))) Q ?t"
    using rdy win obj w(2) ws by (intro dev_fill_then [OF live dev] Q) (simp_all add: in_obj_def)
  then show "rets (case (1, pm) of (ret, pmem) \<Rightarrow> if ret \<noteq> 1 then mret CAAM_FAILURE else
     let x = ucast (paddr pmem) in mthen (set_dsc (ws x)) (mthen (run_job E) (mbind job_failed (\<lambda>failed.
     if failed then mret CAAM_FAILURE else mthen (finish_dma E out n) (mret CAAM_SUCCESS))))) Q ?t"
    by (simp add: Let_def w(1) del: rets_basic(2,3))
qed

section \<open>What the jobs compute\<close>

text \<open>
  The lengths the units work with: AES keeps the length of a message, a SHA-1 digest has 20
  bytes, a blob is 48 bytes longer than what it seals, and a verification blob has 48 bytes.
\<close>

definition units_ok :: "caam_units \<Rightarrow> bool" where
  "units_ok U \<longleftrightarrow> (\<forall>enc k x. length (aes_unit U enc k x) = length x) \<and> (\<forall>x. length (sha1_unit U x) = 20) \<and>
     (\<forall>k x. length (seal_unit U k x) = length x + 48) \<and> (\<forall>k b. length (unseal_unit U k b) = length b - 48) \<and>
     (\<forall>k. length (mkvb_unit U k) = 48)"

text \<open>The device can tell the buffers of a job, its descriptor and its rings apart.\<close>

definition apart :: "(cptr \<Rightarrow> u32) \<Rightarrow> cptr list \<Rightarrow> bool" where
  "apart bus ps \<longleftrightarrow> distinct (map bus (ps @ [(Job_dsc, 0), (Rings, 0)])) \<and> list_all (\<lambda>p. fst p \<noteq> Rings) ps"

text \<open>
  A job has ended well: the \<open>n\<close> bytes of the output buffer begin with the result, and nothing
  else has changed.
\<close>

definition job_done :: "cptr \<Rightarrow> byte list \<Rightarrow> nat \<Rightarrow> ('w, 'z) caam_state_scheme \<Rightarrow> ('w, 'z) caam_state_scheme \<Rightarrow> bool" where
  "job_done out bs n s s' \<longleftrightarrow> drv_frame s s' \<and> dma_windows s' = [] \<and>
     (\<exists>cs. length (bs @ cs) = n \<and> mem s' = mem (put_mem out (bs @ cs) s))"

lemma bytes_at_done:
  assumes "job_done out bs n s s'" and "in_obj s out n"
  shows "bytes_at s' out (length bs) = bs" and "fst p \<noteq> fst out \<Longrightarrow> bytes_at s' p k = bytes_at s p k"
proof -
  obtain cs where cs: "length (bs @ cs) = n" "mem s' = mem (put_mem out (bs @ cs) s)"
    using assms(1) by (auto simp: job_done_def)
  show "bytes_at s' out (length bs) = bs"
    using assms(2) cs by (simp add: bytes_at_def put_mem_def overwrite_def in_obj_def)
  show "fst p \<noteq> fst out \<Longrightarrow> bytes_at s' p k = bytes_at s p k"
    using cs(2) by (simp add: bytes_at_def put_mem_def)
qed

text \<open>A job has been submitted whose result for the buffer at \<open>out\<close> is \<open>rs\<close>.\<close>

definition submitted ::
  "caam_units \<Rightarrow> (cptr \<Rightarrow> u32) \<Rightarrow> ('w \<Rightarrow> (u32 \<Rightarrow> byte list) option) \<Rightarrow> cptr \<Rightarrow> byte list \<Rightarrow>
   u32 \<Rightarrow> ('w, 'z) machine_scheme \<Rightarrow> bool" where
  "submitted U bus job out rs r s' \<longleftrightarrow> r = CAAM_SUCCESS \<and>
     (\<exists>v. job (world s') = Some v \<and> map_of (job_results U (bus (Rings, 0)) v) (bus out) = Some rs)"

lemma job_computes:
  assumes "wp m (job_post E out n s) s" and dev: "crypto_device E base U bus seen job"
    and "rets m (submitted U bus job out rs) s" and ring: "fst out \<noteq> Rings" and k: "k \<le> n" "k \<le> length rs"
  shows "\<exists>s'. m s = Inr (CAAM_SUCCESS, s') \<and> job_done out (take k rs) n s s'"
proof -
  obtain s' v where m: "m s = Inr (CAAM_SUCCESS, s')" "job_post E out n s CAAM_SUCCESS s'"
    and v: "job (world s') = Some v" "map_of (job_results U (bus (Rings, 0)) v) (bus out) = Some rs"
    using rets_wp [OF assms(3,1)] by (auto simp: rets_def submitted_def)
  let ?f = "dma_ram E (world s') out"
  have "map ?f [0..<k] = take k (map ?f [0..<length rs])" using k(2) by (simp add: take_map)
  then have "map ?f [0..<k] = take k rs" using crypto_deviceD(8) [OF dev v(1) ring v(2)] by simp
  moreover have "map ?f [0..<n] = map ?f [0..<k] @ map ?f [k..<n]"
    using k(1) upt_add_eq_append [of 0 k "n - k"] by simp
  ultimately have "mem s' = mem (put_mem out (take k rs @ map ?f [k..<n]) s)"
    using m(2) by (simp add: job_post_def)
  moreover have "length (take k rs @ map ?f [k..<n]) = n" using k by simp
  ultimately have "job_done out (take k rs) n s s'"
    unfolding job_done_def using m(2) unfolding job_post_def by blast
  with m(1) show ?thesis by blast
qed

text \<open>
  The end every job shares, under the contract: the result of the job is the one its descriptor
  asks for, in terms of what the device has been shown.
\<close>

lemma dev_submit:
  fixes s :: "('w, 'z) caam_state_scheme"
  assumes live: "caam_live E base (bus (Job_dsc, 0))" and dev: "crypto_device E base U bus seen job"
    and ap: "apart bus [out]"
    and rdy: "caam_up base s" "dma_windows s = []" "in_obj s out (unat n)" and ws: "length (ws (bus out)) \<le> MAX_DSC_NUM"
    and res: "\<And>m. (\<And>p. apart bus [p, out] \<Longrightarrow> m (bus p) = seen (world s) (bus p)) \<Longrightarrow>
      dsc_results U m (ws (bus out)) = [(bus out, rs)]"
  shows "rets (mbind (prepare_dma E out n {DMA_FLAG_FROM_DEVICE}) (\<lambda>(ret, pmem).
     if ret \<noteq> 1 then mret CAAM_FAILURE else let x = ucast (paddr pmem) in
     mthen (set_dsc (ws x)) (mthen (run_job E) (mbind job_failed (\<lambda>failed.
     if failed then mret CAAM_FAILURE else mthen (finish_dma E out n) (mret CAAM_SUCCESS))))))
     (submitted U bus job out rs) s"
proof (rule dev_out [where ws = ws, OF live dev rdy ws])
  let ?m = "(seen (world s))(bus out := bytes_at s out (unat n),
      bus (Job_dsc, 0) := words_bytes (ws (bus out)), bus (Rings, 0) := le32 (bus (Job_dsc, 0)))"
  have ne: "bus (Job_dsc, 0) \<noteq> bus (Rings, 0)" using ap by (simp add: apart_def)
  have "dsc_results U ?m (ws (bus out)) = [(bus out, rs)]" by (rule res) (auto simp: apart_def)
  then have m: "map_of (job_results U (bus (Rings, 0)) ?m) (bus out) = Some rs"
    using ne by (simp add: job_results_def of_le32_le32)
  fix s' :: "('w, 'z) caam_state_scheme"
  assume "job (world s') = Some ?m"
  with m show "submitted U bus job out rs CAAM_SUCCESS s'" unfolding submitted_def by blast
qed

lemma bytes_at_len [simp]: "in_obj s p n \<Longrightarrow> length (bytes_at s p n) = n"
  by (auto simp: bytes_at_def in_obj_def)

lemma bytes_at_take [simp]: "take n (bytes_at s p n) = bytes_at s p n"
  by (simp add: bytes_at_def)

lemma dsc_fits [simp]:
  "length (aes_dsc a b c n enc) \<le> MAX_DSC_NUM" "length (decap_dsc a b c n) \<le> MAX_DSC_NUM"
  "length (encap_dsc a b c n) \<le> MAX_DSC_NUM" "length (hash_dsc a b n) \<le> MAX_DSC_NUM" "length (kdfv1_dsc a) \<le> MAX_DSC_NUM"
  by (simp_all add: aes_dsc_def decap_dsc_def encap_dsc_def hash_dsc_def kdfv1_dsc_def MAX_DSC_NUM_def)

lemmas dev_simps = job_pre_def in_obj_def bytes_at_def apart_def aes_results decap_results encap_results hash_results
  kdfv1_results

lemma aes_submitted:
  fixes s :: "('w, 'z) caam_state_scheme"
  assumes live: "caam_live E base (bus (Job_dsc, 0))" and dev: "crypto_device E base U bus seen job"
    and len: "len \<le> 0xFFFF" "len mod 16 = 0" and pre: "job_pre base s [(key, 16), (inp, unat len), (out, unat len)]" and ap: "apart bus [key, inp, out]"
  shows "rets (caam_aes_op E key 16 inp out len enc) (submitted U bus job out
    (take (unat len) (aes_unit U enc (bytes_at s key 16) (bytes_at s inp (unat len))))) s"
  unfolding caam_aes_op_def rets_basic(3,6)
  using len pre ap
  by (intro conjI dev_in [OF live dev] dev_submit [OF live dev]) (simp_all add: dev_simps)

lemma gen_submitted:
  fixes s :: "('w, 'z) caam_state_scheme"
  assumes live: "caam_live E base (bus (Job_dsc, 0))" and dev: "crypto_device E base U bus seen job"
    and len: "len + CAAM_KB_HEADER_LEN < 0xFFFF" "len \<le> 0xFFFF" and pre: "job_pre base s [(kmod, 16), (plain, unat len), (blob, unat (len + CAAM_KB_HEADER_LEN))]" and ap: "apart bus [kmod, plain, blob]"
  shows "rets (caam_gen_blob E kmod 16 plain blob len) (submitted U bus job blob
    (take (unat (len + CAAM_KB_HEADER_LEN)) (seal_unit U (bytes_at s kmod 16) (bytes_at s plain (unat len))))) s"
  unfolding caam_gen_blob_def rets_basic(3,6)
  using len pre ap
  by (intro conjI dev_in [OF live dev] dev_submit [OF live dev]) (simp_all add: dev_simps)

lemma decap_submitted:
  fixes s :: "('w, 'z) caam_state_scheme"
  assumes live: "caam_live E base (bus (Job_dsc, 0))" and dev: "crypto_device E base U bus seen job"
    and len: "len + CAAM_KB_HEADER_LEN < 0xFFFF" "len \<le> 0xFFFF" and pre: "job_pre base s [(kmod, 16), (blob, unat (len + CAAM_KB_HEADER_LEN)), (plain, unat len)]" and ap: "apart bus [kmod, blob, plain]"
  shows "rets (caam_decap_blob E kmod 16 plain blob len) (submitted U bus job plain
    (take (unat len) (unseal_unit U (bytes_at s kmod 16) (bytes_at s blob (unat (len + CAAM_KB_HEADER_LEN)))))) s"
  unfolding caam_decap_blob_def rets_basic(3,6)
  using len pre ap
  by (intro conjI dev_in [OF live dev] dev_submit [OF live dev]) (simp_all add: dev_simps)

lemma hash_submitted:
  fixes s :: "('w, 'z) caam_state_scheme"
  assumes live: "caam_live E base (bus (Job_dsc, 0))" and dev: "crypto_device E base U bus seen job"
    and len: "len \<le> 0xFFFF" and pre: "job_pre base s [(inp, unat len), (out, unat len)]" and ap: "apart bus [inp, out]"
  shows "rets (caam_hash E inp out len) (submitted U bus job out
    (take 20 (sha1_unit U (bytes_at s inp (unat len))))) s"
  unfolding caam_hash_def rets_basic(3,6)
  using len pre ap
  by (intro conjI dev_in [OF live dev] dev_submit [OF live dev]) (simp_all add: dev_simps)

lemma kdfv1_submitted:
  fixes s :: "('w, 'z) caam_state_scheme"
  assumes live: "caam_live E base (bus (Job_dsc, 0))" and dev: "crypto_device E base U bus seen job"
    and pre: "job_pre base s [(out, 32)]" and ap: "apart bus [out]"
  shows "rets (caam_gen_kdfv1_root_key E out 32) (submitted U bus job out (take 48 (mkvb_unit U kdfv1_modifier))) s"
  unfolding caam_gen_kdfv1_root_key_def rets_basic(3,6)
  using pre ap
  by (intro conjI dev_in [OF live dev] dev_submit [OF live dev]) (simp_all add: dev_simps)

text \<open>With the lengths of the units: the results are the whole outputs.\<close>

lemma units_len:
  assumes "units_ok U"
  shows "length (aes_unit U enc k x) = length x" "length (sha1_unit U x) = 20"
    "length (seal_unit U k x) = length x + 48" "length (unseal_unit U k x) = length x - 48" "length (mkvb_unit U k) = 48"
  using assms by (simp_all add: units_ok_def)

lemma blob_len: "len \<le> 0xFFFF \<Longrightarrow> unat (len + CAAM_KB_HEADER_LEN) = unat len + 48" for len :: u32
  by (subst unat_add_lem [THEN iffD1]) (simp_all add: word_le_nat_alt CAAM_KB_HEADER_LEN_def)

text \<open>A device that answers and computes, with units of these lengths, behind a documented \<^verbatim>\<open>prepare_dma\<close>.\<close>

definition device_ok ::
  "'w env \<Rightarrow> u32 \<Rightarrow> caam_units \<Rightarrow> (cptr \<Rightarrow> u32) \<Rightarrow> ('w \<Rightarrow> u32 \<Rightarrow> byte list) \<Rightarrow>
   ('w \<Rightarrow> (u32 \<Rightarrow> byte list) option) \<Rightarrow> bool" where
  "device_ok E base U bus seen job \<longleftrightarrow> dma_ok E \<and> units_ok U \<and> caam_live E base (bus (Job_dsc, 0)) \<and>
     crypto_device E base U bus seen job"

lemma device_okD:
  assumes "device_ok E base U bus seen job"
  shows "dma_ok E" "units_ok U" "caam_live E base (bus (Job_dsc, 0))" "crypto_device E base U bus seen job"
  using assms by (simp_all add: device_ok_def)

lemma aes_dev:
  fixes s :: "('w, 'z) caam_state_scheme"
  assumes dev: "device_ok E base U bus seen job" and len: "len \<le> 0xFFFF" "len mod 16 = 0"
    and pre: "job_pre base s [(key, 16), (inp, unat len), (out, unat len)]" and ap: "apart bus [key, inp, out]"
  shows "\<exists>s'. caam_aes_op E key 16 inp out len enc s = Inr (CAAM_SUCCESS, s') \<and>
    job_done out (aes_unit U enc (bytes_at s key 16) (bytes_at s inp (unat len))) (unat len) s s'"
proof -
  note d = device_okD [OF dev]
  have "in_obj s inp (unat len)" using pre by (simp add: job_pre_def)
  then show ?thesis
    using job_computes [where k = "unat len" and n = "unat len", OF wp_caam_aes_op [OF d(1)] d(4) aes_submitted [OF d(3,4) len pre ap]] pre ap
    by (simp add: apart_def job_pre_def caam_up_def units_len [OF d(2)])
qed

lemma gen_dev:
  fixes s :: "('w, 'z) caam_state_scheme"
  assumes dev: "device_ok E base U bus seen job" and len: "len + CAAM_KB_HEADER_LEN < 0xFFFF" "len \<le> 0xFFFF"
    and pre: "job_pre base s [(kmod, 16), (plain, unat len), (blob, unat (len + CAAM_KB_HEADER_LEN))]"
    and ap: "apart bus [kmod, plain, blob]"
  shows "\<exists>s'. caam_gen_blob E kmod 16 plain blob len s = Inr (CAAM_SUCCESS, s') \<and>
    job_done blob (seal_unit U (bytes_at s kmod 16) (bytes_at s plain (unat len))) (unat (len + CAAM_KB_HEADER_LEN)) s s'"
proof -
  note d = device_okD [OF dev]
  have "in_obj s plain (unat len)" using pre by (simp add: job_pre_def)
  then show ?thesis
    using job_computes [where k = "unat len + 48" and n = "unat (len + CAAM_KB_HEADER_LEN)",
        OF wp_caam_gen_blob [OF d(1)] d(4) gen_submitted [OF d(3,4) len pre ap]] pre ap blob_len [OF len(2)]
    by (simp add: apart_def job_pre_def caam_up_def units_len [OF d(2)])
qed

lemma decap_dev:
  fixes s :: "('w, 'z) caam_state_scheme"
  assumes dev: "device_ok E base U bus seen job" and len: "len + CAAM_KB_HEADER_LEN < 0xFFFF" "len \<le> 0xFFFF"
    and pre: "job_pre base s [(kmod, 16), (blob, unat (len + CAAM_KB_HEADER_LEN)), (plain, unat len)]"
    and ap: "apart bus [kmod, blob, plain]"
  shows "\<exists>s'. caam_decap_blob E kmod 16 plain blob len s = Inr (CAAM_SUCCESS, s') \<and>
    job_done plain (unseal_unit U (bytes_at s kmod 16) (bytes_at s blob (unat (len + CAAM_KB_HEADER_LEN)))) (unat len) s s'"
proof -
  note d = device_okD [OF dev]
  have "in_obj s blob (unat len + 48)" using pre blob_len [OF len(2)] by (simp add: job_pre_def)
  then show ?thesis
    using job_computes [where k = "unat len" and n = "unat len",
        OF wp_caam_decap_blob [OF d(1)] d(4) decap_submitted [OF d(3,4) len pre ap]] pre ap blob_len [OF len(2)]
    by (simp add: apart_def job_pre_def caam_up_def units_len [OF d(2)])
qed

lemma hash_dev:
  fixes s :: "('w, 'z) caam_state_scheme"
  assumes dev: "device_ok E base U bus seen job" and len: "len \<le> 0xFFFF" "20 \<le> unat len"
    and pre: "job_pre base s [(inp, unat len), (out, unat len)]" and ap: "apart bus [inp, out]"
  shows "\<exists>s'. caam_hash E inp out len s = Inr (CAAM_SUCCESS, s') \<and>
    job_done out (sha1_unit U (bytes_at s inp (unat len))) (unat len) s s'"
proof -
  note d = device_okD [OF dev]
  show ?thesis
    using job_computes [where k = 20 and n = "unat len",
        OF wp_caam_hash [OF d(1)] d(4) hash_submitted [OF d(3,4) len(1) pre ap]] pre ap len(2)
    by (simp add: apart_def job_pre_def caam_up_def units_len [OF d(2)])
qed

lemma kdfv1_dev:
  fixes s :: "('w, 'z) caam_state_scheme"
  assumes dev: "device_ok E base U bus seen job" and pre: "job_pre base s [(out, 32)]" and ap: "apart bus [out]"
  shows "\<exists>s'. caam_gen_kdfv1_root_key E out 32 s = Inr (CAAM_SUCCESS, s') \<and>
    job_done out (take 32 (mkvb_unit U kdfv1_modifier)) 32 s s'"
proof -
  note d = device_okD [OF dev]
  show ?thesis
    using job_computes [where k = 32 and n = "unat (32 :: u32)",
        OF wp_caam_gen_kdfv1_root_key [OF d(1)] d(4) kdfv1_submitted [OF d(3,4) pre ap]] pre ap
    by (simp add: apart_def job_pre_def caam_up_def units_len [OF d(2)])
qed

end
