(* ===== verification/Key_Device.thy ===== *)
theory Key_Device
  imports Hwkey_Spec Caam_Device
begin

text \<open>
  The key service over a device that computes: the root key is the verification blob of the key
  modifier in the descriptor, the RPMB key is what the blob of the key box unseals to, and both
  stay what they are while the application runs.
\<close>

section \<open>The jobs of the key provider\<close>

lemma root_key_job:
  fixes t :: "('w, 'z) caam_state_scheme"
  assumes dev: "device_ok E base U bus seen job" and ap: "apart bus [(Kdfv1_key, 0)]"
    and pre: "job_pre base t [((Kdfv1_key, 0), 32)]" and len: "length (mem t Kdfv1_key) = 32"
  shows "rets (caam_gen_kdfv1_root_key E (Kdfv1_key, 0) 32)
    (\<lambda>r u. r = CAAM_SUCCESS \<and> mem u Kdfv1_key = take 32 (mkvb_unit U kdfv1_modifier)) t"
proof -
  obtain u where "caam_gen_kdfv1_root_key E (Kdfv1_key, 0) 32 t = Inr (CAAM_SUCCESS, u)"
    "job_done (Kdfv1_key, 0) (take 32 (mkvb_unit U kdfv1_modifier)) 32 t u"
    using kdfv1_dev [OF dev pre ap] by blast
  then show ?thesis
    using len units_len(5) [OF device_okD(2) [OF dev], of kdfv1_modifier] by (auto simp: rets_def job_done_def put_mem_def overwrite_def)
qed

lemma rpmb_key_job:
  fixes u :: "('w, 'z) hwkey_state_scheme"
  assumes dev: "device_ok E (caam_base u) U bus seen job" and ap: "apart bus [(Skeymod, 0), (Rpmb_keyblob, 0), (Key_data, 0)]"
    and rdy: "key_ready u"
  shows "rets (caam_decap_blob E (Skeymod, 0) 16 (Key_data, 0) (Rpmb_keyblob, 0) 32)
    (\<lambda>r t. r = CAAM_SUCCESS \<and> key_job (\<lambda>_. {unseal_unit U (mem u Skeymod) (mem u Rpmb_keyblob)}) u t) u"
proof -
  have len: "length (mem u Skeymod) = 16" "length (mem u Rpmb_keyblob) = 80" using rdy by (simp_all add: key_ready_def key_bufs_def)
  have n: "unat (32 + CAAM_KB_HEADER_LEN) = 80" "unat (32 :: u32) = 32" by (simp_all add: CAAM_KB_HEADER_LEN_def)
  have pre: "job_pre (caam_base u) u [((Skeymod, 0), 16), ((Rpmb_keyblob, 0), unat (32 + CAAM_KB_HEADER_LEN)), ((Key_data, 0), unat (32 :: u32))]"
    unfolding n using rdy len by (simp add: job_pre_def caam_up_def in_obj_def key_ready_def key_bufs_def HWKEY_MAX_PAYLOAD_SIZE_def)
  have "bytes_at u (Skeymod, 0) 16 = mem u Skeymod" "bytes_at u (Rpmb_keyblob, 0) (unat (32 + CAAM_KB_HEADER_LEN)) = mem u Rpmb_keyblob"
    unfolding n using len by (simp_all add: bytes_at_def)
  with decap_dev [OF dev _ _ pre ap] obtain t
    where t: "caam_decap_blob E (Skeymod, 0) 16 (Key_data, 0) (Rpmb_keyblob, 0) 32 u = Inr (CAAM_SUCCESS, t)"
      "job_done (Key_data, 0) (unseal_unit U (mem u Skeymod) (mem u Rpmb_keyblob)) 32 u t"
    by (auto simp: CAAM_KB_HEADER_LEN_def)
  have "length (unseal_unit U (mem u Skeymod) (mem u Rpmb_keyblob)) = 32" using len units_len(4) [OF device_okD(2) [OF dev]] by simp
  with t show ?thesis by (auto simp: rets_def key_job_def job_done_def)
qed

section \<open>From the key box to the reply\<close>

lemma main_init_secrets:
  fixes s :: "('w, 'z) hwkey_state_scheme"
  assumes env: "env_ok ck E" and boot: "boot_state ck s" and live: "boot_live E base pa"
    and magic: "strncmp_eq (kbox_field s 0 4) (clit KEYPACK_MAGIC) 4"
    and dev: "device_ok E base U bus seen job" "apart bus [(Kdfv1_key, 0)]"
  shows "\<exists>s'. main_init E s = Inr (0, s') \<and> caam_base s' = base \<and> key_slots s' = Some (keys E) \<and> key_slot_cnt s' = 1 \<and>
    secrets_from s s' \<and> mem s' Kdfv1_key = take 32 (mkvb_unit U kdfv1_modifier)"
proof -
  have job: "rets (caam_gen_kdfv1_root_key E (Kdfv1_key, 0) 32)
      (\<lambda>r u. r = CAAM_SUCCESS \<and> mem u Kdfv1_key = take 32 (mkvb_unit U kdfv1_modifier)) t"
    if "job_pre base t [((Kdfv1_key, 0), 32)]" "length (mem t Kdfv1_key) = 32" for t :: "('w, 'z) hwkey_state_scheme"
    by (rule root_key_job [OF dev that])
  have "rets (main_init E) (\<lambda>rc s'. rc = 0 \<and> caam_base s' = base \<and> key_slot_cnt s' = 1 \<and>
      secrets_from s s' \<and> mem s' Kdfv1_key = take 32 (mkvb_unit U kdfv1_modifier)) s"
    by (rule main_init_rets_key [OF env boot live magic]) (rule job)
  from rets_wp [OF this wp_main_init [OF env boot]] show ?thesis by (auto simp: rets_def)
qed

text \<open>In every reachable state the secrets are those of the key box and of the device.\<close>

lemma reach_secrets:
  fixes s :: "('w, 'z) hwkey_state_scheme"
  assumes env: "env_ok ck E" and boot: "boot_state ck s0" and live: "boot_live E base pa"
    and magic: "strncmp_eq (kbox_field s0 0 4) (clit KEYPACK_MAGIC) 4"
    and dev: "device_ok E base U bus seen job" "apart bus [(Kdfv1_key, 0)]" and reach: "reach E s0 s"
  shows "caam_base s = base" and "key_slots s = Some (keys E)" and "key_slot_cnt s = 1"
    and "secrets_from s0 s" and "mem s Skeymod = skeymod" and "mem s Kdfv1_key = take 32 (mkvb_unit U kdfv1_modifier)"
    and "key_ready s"
proof -
  obtain s1 where s1: "main_init E s0 = Inr (0, s1)" "caam_base s1 = base" "key_slots s1 = Some (keys E)" "key_slot_cnt s1 = 1"
    "secrets_from s0 s1" "mem s1 Kdfv1_key = take 32 (mkvb_unit U kdfv1_modifier)"
    using main_init_secrets [OF env boot live magic dev] by blast
  have k: "keys_kept s1 s" by (rule reach_kept [OF env boot s1(1) reach])
  show "caam_base s = base" "key_slots s = Some (keys E)" "key_slot_cnt s = 1" "mem s Kdfv1_key = take 32 (mkvb_unit U kdfv1_modifier)"
    using k s1 by (simp_all add: keys_kept_def)
  show "secrets_from s0 s" using k s1(5) by (simp add: keys_kept_def secrets_from_def)
  then show "mem s Skeymod = skeymod" using boot by (simp add: secrets_from_def boot_state_def)
  show "key_ready s" using reach_inv [OF env boot reach] by (simp add: app_inv_def hwkey_inv_def)
qed

lemma reach_rpmb_reply:
  fixes s :: "('w, 'z) hwkey_state_scheme"
  assumes env: "env_ok ck E" and boot: "boot_state ck s0" and live: "boot_live E base pa"
    and magic: "strncmp_eq (kbox_field s0 0 4) (clit KEYPACK_MAGIC) 4" and blob: "of_le32 (kbox_field s0 4 4) = RPMBKEY_LEN"
    and dev: "device_ok E base U bus seen job" "apart bus [(Kdfv1_key, 0)]"
      "apart bus [(Skeymod, 0), (Rpmb_keyblob, 0), (Key_data, 0)]" and reach: "reach E s0 s" and t: "t = s\<lparr>world := w0\<rparr>"
    and req: "key_ctxs s p = Some c" "ctx_uuid c = SECURE_STORAGE_SERVER_APP_UUID E"
      "incoming E (key_chan c) w0 hb name w'" "length name \<le> HWKEY_MAX_PAYLOAD_SIZE"
      "cstr (name @ [0]) = cstr (clit RPMB_SS_AUTH_KEY_ID)" "cmd (hwkey_msg_of E hb) = HWKEY_GET_KEYSLOT E"
  shows "rets (hwkey_chan_handle_msg E (call_handler E) (derive_key_v1 E) p)
    (\<lambda>rc s'. all_zero (mem s' Key_data) \<and> (\<exists>w. k_send_msg E (key_chan c)
      [response E (hwkey_msg_of E hb) (HWKEY_NO_ERROR E), unseal_unit U skeymod (kbox_field s0 8 80)] w = (rc, world s'))) t"
proof -
  note k = reach_secrets [OF env boot live magic dev(1,2) reach]
  have len: "rpmb_keyblob_len t = RPMBKEY_LEN" and b: "mem t Rpmb_keyblob = kbox_field s0 8 80"
    using k(4) blob by (simp_all add: secrets_from_def t)
  have kt: "caam_base t = base" "key_slots t = Some (keys E)" "key_slot_cnt t = 1" "mem t Skeymod = skeymod" "key_ready t"
    and rt: "key_ctxs t p = Some c" "incoming E (key_chan c) (world t) hb name w'"
    using k(1-3,5,7) req(1,3) by (simp_all add: t key_ready_def key_bufs_def)
  let ?K = "\<lambda>_ :: 'w. {unseal_unit U skeymod (kbox_field s0 8 80)}"
  have job: "rets (caam_decap_blob E (Skeymod, 0) 16 (Key_data, 0) (Rpmb_keyblob, 0) 32)
      (\<lambda>r t. r = CAAM_SUCCESS \<and> key_job ?K u t) u"
    if u: "key_ready u" "caam_base u = caam_base t" "\<forall>b. b \<noteq> Req_data \<longrightarrow> mem u b = mem t b" for u :: "('w, 'z) hwkey_state_scheme"
    using rpmb_key_job [of E u U bus seen job] dev u kt(1,4) b by simp
  have "rets (hwkey_chan_handle_msg E (call_handler E) (derive_key_v1 E) p)
    (\<lambda>rc s'. all_zero (mem s' Key_data) \<and> (\<exists>w. \<exists>k \<in> ?K w. k_send_msg E (key_chan c)
      [response E (hwkey_msg_of E hb) (HWKEY_NO_ERROR E), k] w = (rc, world s'))) t"
    by (rule rpmb_request_rets [OF env_okD(3) [OF env] kt(5) len kt(2,3) rt(1) req(2) rt(2) req(4-6)]) (rule job)
  then show ?thesis by simp
qed

text \<open>
  A turn of the loop with a message for a channel of the key service: the message is handled in
  the context of that channel, which is closed when the reply cannot be sent.
\<close>

lemma key_msg_turn:
  fixes s :: "('w, 'z) hwkey_state_scheme"
  assumes env: "env_ok ck E" and inv: "app_inv ck s" and p: "key_ctxs s p = Some c"
    and ev: "k_wait_any E (world s) = ((0, ev), w0)" "ev_event ev = {IPC_HANDLE_POLL_MSG}"
      "ev_cookie ev = Some (Hwkey_chan_cookie p)"
    and msg: "hwkey_chan_handle_msg E (call_handler E) (derive_key_v1 E) p (s\<lparr>world := w0\<rparr>) = Inr (rc, t)"
  shows "loop_turn E s = (case (if rc < 0 then hwkey_ctx_close E p else mret ()) t of
    Inl e \<Rightarrow> Inl e | Inr (_, u) \<Rightarrow> Inr (None, u))"
proof -
  have k: "hwkey_inv ck s" using inv by (simp add: app_inv_def)
  then have c: "p \<noteq> 0" "key_evt_handler c = \<lparr>proc = Some Hwkey_chan_handler, priv = p\<rparr>"
    using p by (auto simp: hwkey_inv_def key_ctx_ok_def)
  have "ck (world s) (ev_handle ev) = Some (Hwkey_chan_cookie p)"
    using cookies_okD(7) [OF env_okD(6) [OF env] ev(1)] ev(3) by simp
  then have h: "ev_handle ev = key_chan c" using hwkey_cookieD [OF k] p by fastforce
  show ?thesis
    using ev p c h msg
    by (auto simp: loop_turn_def prog_simps sys_def dispatch_event_def hwkey_chan_handler_def tipc_handle_chan_errors_def
        split: sum.splits)
qed

text \<open>The request of the storage service, from the event to the reply.\<close>

lemma rpmb_turn:
  fixes s :: "('w, 'z) hwkey_state_scheme"
  assumes env: "env_ok ck E" and boot: "boot_state ck s0" and live: "boot_live E base pa"
    and magic: "strncmp_eq (kbox_field s0 0 4) (clit KEYPACK_MAGIC) 4" and blob: "of_le32 (kbox_field s0 4 4) = RPMBKEY_LEN"
    and dev: "device_ok E base U bus seen job" "apart bus [(Kdfv1_key, 0)]"
      "apart bus [(Skeymod, 0), (Rpmb_keyblob, 0), (Key_data, 0)]" and reach: "reach E s0 s"
    and ev: "k_wait_any E (world s) = ((0, ev), w0)" "ev_event ev = {IPC_HANDLE_POLL_MSG}"
      "ev_cookie ev = Some (Hwkey_chan_cookie p)"
    and req: "key_ctxs s p = Some c" "ctx_uuid c = SECURE_STORAGE_SERVER_APP_UUID E"
      "incoming E (key_chan c) w0 hb name w'" "length name \<le> HWKEY_MAX_PAYLOAD_SIZE"
      "cstr (name @ [0]) = cstr (clit RPMB_SS_AUTH_KEY_ID)" "cmd (hwkey_msg_of E hb) = HWKEY_GET_KEYSLOT E"
  shows "\<exists>s' rc w1 w2. loop_turn E s = Inr (None, s') \<and> reach E s0 s' \<and> all_zero (mem s' Key_data) \<and>
    k_send_msg E (key_chan c) [response E (hwkey_msg_of E hb) (HWKEY_NO_ERROR E), unseal_unit U skeymod (kbox_field s0 8 80)] w1 =
      (rc, w2) \<and> (0 \<le> rc \<longrightarrow> world s' = w2)"
proof -
  note inv = reach_inv [OF env boot reach]
  obtain rc t w1 where t: "hwkey_chan_handle_msg E (call_handler E) (derive_key_v1 E) p (s\<lparr>world := w0\<rparr>) = Inr (rc, t)"
    "k_send_msg E (key_chan c) [response E (hwkey_msg_of E hb) (HWKEY_NO_ERROR E), unseal_unit U skeymod (kbox_field s0 8 80)] w1 =
      (rc, world t)"
    using reach_rpmb_reply [OF env boot live magic blob dev reach refl req] by (auto simp: rets_def)
  have l: "caam_live E (caam_base s) (bus (Job_dsc, 0))"
    using reach_secrets(1) [OF env boot live magic dev(1,2) reach] device_okD(3) [OF dev(1)] by simp
  have "rets (loop_turn E) (\<lambda>_ _. True) s"
    by (rule rets_mono [OF loop_turn_rets [OF env inv l]]) (use ev in auto)
  with key_msg_turn [OF env inv req(1) ev t(1)] obtain s' where s': "loop_turn E s = Inr (None, s')"
    "\<not> rc < 0 \<Longrightarrow> s' = t" by (auto simp: rets_def prog_simps split: sum.splits if_splits)
  have r: "reach E s0 s'" using reach s'(1) by (rule reach.turn)
  have "all_zero (mem s' Key_data)"
    using reach_inv [OF env boot r] by (simp add: app_inv_def hwkey_inv_def key_ready_def key_bufs_def)
  with r s' t(2) show ?thesis by fastforce
qed

end
