(* ===== verification/Test_Device.thy ===== *)
theory Test_Device
  imports Caam_Device Caam_Test
begin

text \<open>
  The driver's self tests over a device that computes: every comparison of a result with what is
  expected of it succeeds. Only the first test, which compares two random numbers, is left open.
\<close>

section \<open>The calls of the tests, with what they leave in the local buffers\<close>

text \<open>Decryption undoes encryption, and unsealing undoes sealing.\<close>

definition units_inverse :: "caam_units \<Rightarrow> bool" where
  "units_inverse U \<longleftrightarrow>
     (\<forall>k x. length k = 16 \<longrightarrow> length x mod 16 = 0 \<longrightarrow> aes_unit U False k (aes_unit U True k x) = x) \<and>
     (\<forall>k x. unseal_unit U k (seal_unit U k x) = x)"

text \<open>The buffers one test gives the device have bus addresses of their own.\<close>

definition test_layout :: "(cptr \<Rightarrow> u32) \<Rightarrow> bool" where
  "test_layout bus \<longleftrightarrow> (\<forall>nms \<in> {[''keymd'', ''plain'', ''blob''], [''key'', ''buf1'', ''buf2'', ''buf3''],
     [''in'', ''hash1'', ''hash2''], [''out1'', ''out2'']}. apart bus (map (\<lambda>nm. (Local nm, 0)) nms))"

text \<open>A step of a test: the driver is up, and one local buffer has got new contents.\<close>

definition local_set :: "u32 \<Rightarrow> string \<Rightarrow> byte list \<Rightarrow> ('w, 'z) caam_state_scheme \<Rightarrow> ('w, 'z) caam_state_scheme \<Rightarrow> bool" where
  "local_set base nm bs s s' \<longleftrightarrow> caam_up base s' \<and> dma_windows s' = [] \<and> mem s' = (mem s)(Local nm := bs)"

lemma local_setD:
  assumes "local_set base nm bs s s'"
  shows "caam_up base s'" "dma_windows s' = []" "mem s' = (mem s)(Local nm := bs)"
  using assms by (simp_all add: local_set_def)

lemma local_done:
  assumes "caam_up base s" and "job_done (Local nm, 0) bs n s s'" and "n \<le> length (mem s (Local nm))"
  shows "\<exists>cs. length cs = length (mem s (Local nm)) - length bs \<and> local_set base nm (bs @ cs) s s'"
proof -
  obtain cs where cs: "length (bs @ cs) = n" "mem s' = mem (put_mem (Local nm, 0) (bs @ cs) s)"
    using assms(2) by (auto simp: job_done_def)
  then have "local_set base nm (bs @ cs @ drop n (mem s (Local nm))) s s'"
    using assms by (auto simp: local_set_def job_done_def drv_frame_def caam_up_def put_mem_def overwrite_def)
  with cs(1) assms(3) show ?thesis by (intro exI [of _ "cs @ drop n (mem s (Local nm))"]) simp
qed

lemma dev_local_buf:
  assumes "caam_up base s" "dma_windows s = []" and "\<And>bs s'. length bs = n \<Longrightarrow> local_set base nm bs s s' \<Longrightarrow> Q () s'"
  shows "rets (local_buf E nm n) Q s"
  using assms(1,2) by (auto simp: local_buf_def local_set_def caam_up_def caam_ready_def intro!: assms(3))

lemma dev_write:
  assumes "caam_up base s" "dma_windows s = []" and "length bs = length (mem s (Local nm))"
    and "\<And>s'. local_set base nm bs s s' \<Longrightarrow> Q () s'"
  shows "rets (mwrite (Local nm, 0) bs) Q s"
  using assms(1-3) by (auto simp: in_obj_def local_set_def put_mem_def overwrite_def caam_up_def caam_ready_def intro!: assms(4))

lemma dev_memset:
  assumes "caam_up base s" "dma_windows s = []" and "length (mem s (Local nm)) = n"
    and "\<And>s'. local_set base nm (replicate n v) s s' \<Longrightarrow> Q () s'"
  shows "rets (memset (Local nm, 0) v n) Q s"
  unfolding memset_def using assms by (intro dev_write) auto

lemma dev_memcmp:
  assumes "n \<le> length (mem s (Local a))" "n \<le> length (mem s (Local b))"
    and "Q (take n (mem s (Local a)) = take n (mem s (Local b))) s"
  shows "rets (memcmp (Local a, 0) (Local b, 0) n) Q s"
  using assms by (simp add: memcmp_def memcmp_eq_def in_obj_def)

text \<open>The jobs, under the contract of the device.\<close>

lemma bytes_at_local: "bytes_at s (Local nm, 0) n = take n (mem s (Local nm))"
  by (simp add: bytes_at_def)

lemma dev_hwrng:
  assumes dev: "device_ok E base U bus seen job" and up: "caam_up base s" "dma_windows s = []"
    and len: "length (mem s (Local nm)) = unat len"
    and Q: "\<And>r bs s'. length bs = unat len \<Longrightarrow> local_set base nm bs s s' \<Longrightarrow> Q r s'"
  shows "rets (caam_hwrng E (Local nm, 0) len) Q s"
proof (rule rets_of_wp)
  have obj: "in_obj s (Local nm, 0) (unat len)" using len by (simp add: in_obj_def)
  then show "rets (caam_hwrng E (Local nm, 0) len) (\<lambda>_ _. True) s"
    using up by (intro rets_mono [OF hwrng_rets [OF device_okD(3) [OF dev]]]) (simp_all add: job_pre_def)
  show "wp (caam_hwrng E (Local nm, 0) len) Q s"
  proof (rule wp_caam_hwrng [OF device_okD(1) [OF dev] _ up(2) obj])
    fix r s' assume s': "out_frame (Local nm, 0) (unat len) s s'"
    then obtain bs where "length bs = unat len" "mem s' = mem (put_mem (Local nm, 0) bs s)" by (auto simp: out_frame_def)
    with s' len up show "Q r s'"
      by (intro Q [of bs]) (auto simp: local_set_def out_frame_def drv_frame_def caam_up_def put_mem_def overwrite_def)
  qed (use up in \<open>simp add: caam_up_def\<close>)
qed

lemma dev_aes:
  fixes s :: "('w, 'z) caam_state_scheme"
  assumes dev: "device_ok E base U bus seen job" and up: "caam_up base s" "dma_windows s = []"
    and len: "length (mem s (Local ky)) = 16" "length (mem s (Local i)) = unat len" "length (mem s (Local ou)) = unat len"
      "len \<le> 0xFFFF" "len mod 16 = 0" and ap: "apart bus [(Local ky, 0), (Local i, 0), (Local ou, 0)]"
    and Q: "\<And>s'. local_set base ou (aes_unit U enc (mem s (Local ky)) (mem s (Local i))) s s' \<Longrightarrow> Q CAAM_SUCCESS s'"
  shows "rets (caam_aes_op E (Local ky, 0) 16 (Local i, 0) (Local ou, 0) len enc) Q s"
proof -
  have "job_pre base s [((Local ky, 0), 16), ((Local i, 0), unat len), ((Local ou, 0), unat len)]"
    using up len by (simp add: job_pre_def in_obj_def)
  from aes_dev [OF dev len(4,5) this ap, of enc]
  obtain s' where s': "caam_aes_op E (Local ky, 0) 16 (Local i, 0) (Local ou, 0) len enc s = Inr (CAAM_SUCCESS, s')"
    "job_done (Local ou, 0) (aes_unit U enc (mem s (Local ky)) (mem s (Local i))) (unat len) s s'"
    using len(1,2) by (auto simp: bytes_at_local)
  from local_done [OF up(1) s'(2)] s'(1) len Q show ?thesis
    by (auto simp: rets_def units_len [OF device_okD(2) [OF dev]])
qed

lemma dev_gen_blob:
  fixes s :: "('w, 'z) caam_state_scheme"
  assumes dev: "device_ok E base U bus seen job" and up: "caam_up base s" "dma_windows s = []"
    and len: "length (mem s (Local km)) = 16" "length (mem s (Local pl)) = unat len" "unat len + 48 \<le> length (mem s (Local bl))"
      "len + CAAM_KB_HEADER_LEN < 0xFFFF" "len \<le> 0xFFFF" and ap: "apart bus [(Local km, 0), (Local pl, 0), (Local bl, 0)]"
    and Q: "\<And>s' cs. length cs = length (mem s (Local bl)) - (unat len + 48) \<Longrightarrow>
      local_set base bl (seal_unit U (mem s (Local km)) (mem s (Local pl)) @ cs) s s' \<Longrightarrow> Q CAAM_SUCCESS s'"
  shows "rets (caam_gen_blob E (Local km, 0) 16 (Local pl, 0) (Local bl, 0) len) Q s"
proof -
  have "job_pre base s [((Local km, 0), 16), ((Local pl, 0), unat len), ((Local bl, 0), unat (len + CAAM_KB_HEADER_LEN))]"
    using up len by (simp add: job_pre_def in_obj_def blob_len)
  from gen_dev [OF dev len(4,5) this ap]
  obtain s' where s': "caam_gen_blob E (Local km, 0) 16 (Local pl, 0) (Local bl, 0) len s = Inr (CAAM_SUCCESS, s')"
    "job_done (Local bl, 0) (seal_unit U (mem s (Local km)) (mem s (Local pl))) (unat len + 48) s s'"
    using len(1,2) by (auto simp: bytes_at_local blob_len [OF len(5)])
  from local_done [OF up(1) s'(2)] s'(1) len(2,3) Q show ?thesis
    by (auto simp: rets_def units_len [OF device_okD(2) [OF dev]])
qed

lemma dev_decap_blob:
  fixes s :: "('w, 'z) caam_state_scheme"
  assumes dev: "device_ok E base U bus seen job" and up: "caam_up base s" "dma_windows s = []"
    and len: "length (mem s (Local km)) = 16" "length (mem s (Local pl)) = unat len" "unat len + 48 \<le> length (mem s (Local bl))"
      "len + CAAM_KB_HEADER_LEN < 0xFFFF" "len \<le> 0xFFFF" and ap: "apart bus [(Local km, 0), (Local bl, 0), (Local pl, 0)]"
    and Q: "\<And>s'. local_set base pl (unseal_unit U (mem s (Local km)) (take (unat len + 48) (mem s (Local bl)))) s s' \<Longrightarrow>
      Q CAAM_SUCCESS s'"
  shows "rets (caam_decap_blob E (Local km, 0) 16 (Local pl, 0) (Local bl, 0) len) Q s"
proof -
  have "job_pre base s [((Local km, 0), 16), ((Local bl, 0), unat (len + CAAM_KB_HEADER_LEN)), ((Local pl, 0), unat len)]"
    using up len by (simp add: job_pre_def in_obj_def blob_len)
  from decap_dev [OF dev len(4,5) this ap]
  obtain s' where s': "caam_decap_blob E (Local km, 0) 16 (Local pl, 0) (Local bl, 0) len s = Inr (CAAM_SUCCESS, s')"
    "job_done (Local pl, 0) (unseal_unit U (mem s (Local km)) (take (unat len + 48) (mem s (Local bl)))) (unat len) s s'"
    using len(1) by (auto simp: bytes_at_local blob_len [OF len(5)])
  from local_done [OF up(1) s'(2)] s'(1) len(2,3) Q show ?thesis
    by (auto simp: rets_def units_len [OF device_okD(2) [OF dev]])
qed

lemma dev_hash:
  fixes s :: "('w, 'z) caam_state_scheme"
  assumes dev: "device_ok E base U bus seen job" and up: "caam_up base s" "dma_windows s = []"
    and len: "length (mem s (Local i)) = unat len" "length (mem s (Local ou)) = unat len" "len \<le> 0xFFFF" "20 \<le> unat len"
    and ap: "apart bus [(Local i, 0), (Local ou, 0)]"
    and Q: "\<And>s' cs. length cs = unat len - 20 \<Longrightarrow>
      local_set base ou (sha1_unit U (mem s (Local i)) @ cs) s s' \<Longrightarrow> Q CAAM_SUCCESS s'"
  shows "rets (caam_hash E (Local i, 0) (Local ou, 0) len) Q s"
proof -
  have "job_pre base s [((Local i, 0), unat len), ((Local ou, 0), unat len)]"
    using up len by (simp add: job_pre_def in_obj_def)
  from hash_dev [OF dev len(3,4) this ap]
  obtain s' where s': "caam_hash E (Local i, 0) (Local ou, 0) len s = Inr (CAAM_SUCCESS, s')"
    "job_done (Local ou, 0) (sha1_unit U (mem s (Local i))) (unat len) s s'"
    using len(1) by (auto simp: bytes_at_local)
  from local_done [OF up(1) s'(2)] s'(1) len Q show ?thesis
    by (auto simp: rets_def units_len [OF device_okD(2) [OF dev]])
qed

lemma dev_kdf:
  fixes s :: "('w, 'z) caam_state_scheme"
  assumes dev: "device_ok E base U bus seen job" and up: "caam_up base s" "dma_windows s = []"
    and len: "length (mem s (Local ou)) = 32" and ap: "apart bus [(Local ou, 0)]"
    and Q: "\<And>s'. local_set base ou (take 32 (mkvb_unit U kdfv1_modifier)) s s' \<Longrightarrow> Q CAAM_SUCCESS s'"
  shows "rets (caam_gen_kdfv1_root_key E (Local ou, 0) 32) Q s"
proof -
  have "job_pre base s [((Local ou, 0), 32)]" using up len by (simp add: job_pre_def in_obj_def)
  from kdfv1_dev [OF dev this ap]
  obtain s' where s': "caam_gen_kdfv1_root_key E (Local ou, 0) 32 s = Inr (CAAM_SUCCESS, s')"
    "job_done (Local ou, 0) (take 32 (mkvb_unit U kdfv1_modifier)) 32 s s'" by blast
  from local_done [OF up(1) s'(2)] s'(1) len Q show ?thesis
    by (auto simp: rets_def units_len [OF device_okD(2) [OF dev]])
qed

section \<open>The verdicts\<close>

lemma test_apart:
  assumes "test_layout bus"
  shows "apart bus [(Local ''keymd'', 0), (Local ''plain'', 0), (Local ''blob'', 0)]"
    "apart bus [(Local ''keymd'', 0), (Local ''blob'', 0), (Local ''plain'', 0)]"
    "apart bus [(Local ''key'', 0), (Local ''buf1'', 0), (Local ''buf2'', 0)]"
    "apart bus [(Local ''key'', 0), (Local ''buf1'', 0), (Local ''buf3'', 0)]"
    "apart bus [(Local ''key'', 0), (Local ''buf3'', 0), (Local ''buf2'', 0)]"
    "apart bus [(Local ''in'', 0), (Local ''hash1'', 0)]" "apart bus [(Local ''in'', 0), (Local ''hash2'', 0)]"
    "apart bus [(Local ''out1'', 0)]" "apart bus [(Local ''out2'', 0)]"
  using assms by (auto simp: test_layout_def apart_def)

lemma unitsD:
  assumes "units_inverse U"
  shows "length k = 16 \<Longrightarrow> length x mod 16 = 0 \<Longrightarrow> aes_unit U False k (aes_unit U True k x) = x"
    and "unseal_unit U k (seal_unit U k x) = x"
  using assms by (simp_all add: units_inverse_def)

lemmas dev_test_rules = dev_local_buf dev_write dev_memset dev_memcmp
lemmas dev_job_rules = dev_hwrng dev_aes dev_gen_blob dev_decap_blob dev_hash dev_kdf
lemmas test_simps = local_setD(3) pattern_def CAAM_KB_HEADER_LEN_def

lemma hwrng_test_dev:
  assumes dev: "device_ok E base U bus seen job" and lay: "test_layout bus" and inv: "units_inverse U"
    and up: "caam_up base s" "dma_windows s = []"
  shows "rets (caam_hwrng_test E) (\<lambda>vs t. (\<exists>b. vs = [b]) \<and> caam_up base t \<and> dma_windows t = []) s"
  unfolding caam_hwrng_test_def rets_basic
  using up units_len [OF device_okD(2) [OF dev]] unitsD [OF inv]
  by - ((rule dev_test_rules dev_job_rules [OF dev] conjI test_apart [OF lay] | assumption | erule local_setD
      | (simp add: test_simps; fail))+)

lemma blob_test_dev:
  assumes dev: "device_ok E base U bus seen job" and lay: "test_layout bus" and inv: "units_inverse U"
    and up: "caam_up base s" "dma_windows s = []"
  shows "rets (caam_blob_test E) (\<lambda>vs t. (vs = [True]) \<and> caam_up base t \<and> dma_windows t = []) s"
  unfolding caam_blob_test_def rets_basic
  using up units_len [OF device_okD(2) [OF dev]] unitsD [OF inv]
  by - ((rule dev_test_rules dev_job_rules [OF dev] conjI test_apart [OF lay] | assumption | erule local_setD
      | (simp add: test_simps; fail))+)

lemma kdfv1_root_key_test_dev:
  assumes dev: "device_ok E base U bus seen job" and lay: "test_layout bus" and inv: "units_inverse U"
    and up: "caam_up base s" "dma_windows s = []"
  shows "rets (caam_kdfv1_root_key_test E) (\<lambda>vs t. (vs = [True]) \<and> caam_up base t \<and> dma_windows t = []) s"
  unfolding caam_kdfv1_root_key_test_def rets_basic
  using up units_len [OF device_okD(2) [OF dev]] unitsD [OF inv]
  by - ((rule dev_test_rules dev_job_rules [OF dev] conjI test_apart [OF lay] | assumption | erule local_setD
      | (simp add: test_simps; fail))+)

lemma aes_test_dev:
  assumes dev: "device_ok E base U bus seen job" and lay: "test_layout bus" and inv: "units_inverse U"
    and up: "caam_up base s" "dma_windows s = []"
  shows "rets (caam_aes_test E) (\<lambda>vs t. (vs = [True, True]) \<and> caam_up base t \<and> dma_windows t = []) s"
  unfolding caam_aes_test_def rets_basic
  using up units_len [OF device_okD(2) [OF dev]] unitsD [OF inv]
  by - ((rule dev_test_rules dev_job_rules [OF dev] conjI test_apart [OF lay] | assumption | erule local_setD
      | (simp add: test_simps; fail))+)

lemma hash_test_dev:
  assumes dev: "device_ok E base U bus seen job" and lay: "test_layout bus" and inv: "units_inverse U"
    and up: "caam_up base s" "dma_windows s = []"
  shows "rets (caam_hash_test E) (\<lambda>vs t. (vs = [True]) \<and> caam_up base t \<and> dma_windows t = []) s"
  unfolding caam_hash_test_def rets_basic
  using up units_len [OF device_okD(2) [OF dev]] unitsD [OF inv]
  by - ((rule dev_test_rules dev_job_rules [OF dev] conjI test_apart [OF lay] | assumption | erule local_setD
      | (simp add: test_simps; fail))+)

lemma caam_test_dev:
  assumes "device_ok E base U bus seen job" and "test_layout bus" and "units_inverse U"
    and up: "caam_up base s" "dma_windows s = []"
  shows "rets (caam_test E) (\<lambda>vs _. \<exists>b. vs = [b, True, True, True, True, True]) s"
  unfolding caam_test_def rets_basic
  apply (rule rets_mono [OF hwrng_test_dev [OF assms]], elim conjE)
  apply (rule rets_mono [OF blob_test_dev [OF assms(1-3)]], assumption+, elim conjE)
  apply (rule rets_mono [OF kdfv1_root_key_test_dev [OF assms(1-3)]], assumption+, elim conjE)
  apply (rule rets_mono [OF aes_test_dev [OF assms(1-3)]], assumption+, elim conjE)
  apply (rule rets_mono [OF hash_test_dev [OF assms(1-3)]], assumption+)
  apply auto
  done

end
