(* ===== verification/Demo_Device.thy ===== *)
theory Demo_Device
  imports Demo_Env Key_Device Test_Device
begin

text \<open>
  The environment of the witnesses over a device that computes: the kernel of \<open>demo_env\<close>, an
  accelerator that does what its descriptors ask for, with toy units in the place of its
  cryptography.
\<close>

section \<open>The units\<close>

definition xor_key :: "byte list \<Rightarrow> byte list \<Rightarrow> byte list" where
  "xor_key k x = map (\<lambda>i. (x ! i) XOR (k ! (i mod 16))) [0..<length x]"

lemma length_xor_key [simp]: "length (xor_key k x) = length x"
  by (simp add: xor_key_def)

lemma xor_key_twice [simp]: "xor_key k (xor_key k x) = x"
  by (rule nth_equalityI) (simp_all add: xor_key_def xor.assoc)

definition demo_units :: caam_units where
  "demo_units = \<lparr>aes_unit = (\<lambda>enc. xor_key), sha1_unit = (\<lambda>x. take 20 (x @ replicate 20 0)),
     seal_unit = (\<lambda>k x. replicate 48 0xB1 @ xor_key k x), unseal_unit = (\<lambda>k b. xor_key k (drop 48 b)),
     mkvb_unit = (\<lambda>k. take 48 (k @ replicate 48 7))\<rparr>"

lemma demo_units_ok: "units_ok demo_units" "units_inverse demo_units"
  by (simp_all add: units_ok_def units_inverse_def demo_units_def min_def)

section \<open>The device\<close>

text \<open>Bus addresses: every object has a place of its own.\<close>

fun demo_place :: "cobj \<Rightarrow> u32" where
  "demo_place Null = 0"
| "demo_place Rings = 0x100"
| "demo_place Job_dsc = 0x200"
| "demo_place Key_data = 0x1000"
| "demo_place Req_data = 0x2000"
| "demo_place Rng_data = 0x3000"
| "demo_place Kdfv1_key = 0x5000"
| "demo_place Skeymod = 0x6000"
| "demo_place Rpmb_keyblob = 0x7000"
| "demo_place Unittest_key32 = 0x8000"
| "demo_place Sram = 0x9000"
| "demo_place (Local nm) = 0x10000 + fold (\<lambda>c n. 31 * n + of_char c) nm 0"

definition demo_bus :: "cptr \<Rightarrow> u32" where
  "demo_bus p = demo_place (fst p) + of_nat (snd p)"

definition demo_ram :: "demo_world \<Rightarrow> cptr \<Rightarrow> nat \<Rightarrow> byte" where
  "demo_ram w p i =
     (if fst p = Rings then (le32 (demo_bus (Job_dsc, 0)) @ le32 0) ! (i mod 8)
      else case dw_job w of
        None \<Rightarrow> 0
      | Some m \<Rightarrow> (case map_of (job_results demo_units (demo_bus (Rings, 0)) m) (demo_bus p) of
          None \<Rightarrow> of_nat (Suc i)
        | Some bs \<Rightarrow> if i < length bs then bs ! i else 0))"

text \<open>The registers are at \<open>0x40000000\<close>; writing the job register starts the job.\<close>

definition demo_crypto :: "demo_world env" where
  "demo_crypto = demo_env\<lparr>
     k_prepare_dma := (\<lambda>p bs n fl w. ((1, \<lparr>paddr = ucast (demo_bus p), pm_size = n\<rparr>),
       w\<lparr>dw_seen := (dw_seen w)(demo_bus p := bs)\<rparr>)),
     k_writel := (\<lambda>v a w. if a = caam_reg_off CAAM_IRJAR0 + 0x40000000 then w\<lparr>dw_job := Some (dw_seen w)\<rparr> else w),
     dma_ram := demo_ram\<rparr>"

lemma ucast_up: "ucast (ucast (x :: u32) :: 64 word) = x"
  by (rule bit_word_eqI) (simp add: bit_simps)

lemma demo_crypto_device: "crypto_device demo_crypto 0x40000000 demo_units demo_bus dw_seen dw_job"
proof -
  have "map (demo_ram w p) [0..<length bs] = bs"
    if "dw_job w = Some m" "fst p \<noteq> Rings" "map_of (job_results demo_units (demo_bus (Rings, 0)) m) (demo_bus p) = Some bs"
    for w m p bs using that by (intro nth_equalityI) (simp_all add: demo_ram_def)
  then have ram: "\<forall>w m p bs. dw_job w = Some m \<longrightarrow> fst p \<noteq> Rings \<longrightarrow>
      map_of (job_results demo_units (demo_bus (Rings, 0)) m) (demo_bus p) = Some bs \<longrightarrow>
      map (dma_ram demo_crypto w p) [0..<length bs] = bs"
    by (simp add: demo_crypto_def)
  show ?thesis
    unfolding crypto_device_def
    by (intro conjI ram) (auto simp: demo_crypto_def demo_env_def ucast_up)
qed

lemma demo_crypto_live: "caam_live demo_crypto base (demo_bus (Job_dsc, 0))"
proof -
  have "map (demo_ram w (Rings, 4)) [0..<8] = le32 (demo_bus (Job_dsc, 0)) @ le32 0" for w
    by (simp add: demo_ram_def le32_def upt_rec)
  then show ?thesis by (auto simp: caam_live_def demo_crypto_def demo_env_def ucast_up intro!: exI [of _ 0])
qed

lemma demo_crypto_dma_ok: "dma_ok demo_crypto"
  by (auto simp: dma_ok_def segment_ok_def demo_crypto_def)

lemma demo_device_ok: "device_ok demo_crypto 0x40000000 demo_units demo_bus dw_seen dw_job"
  by (simp add: device_ok_def demo_crypto_dma_ok demo_units_ok demo_crypto_live demo_crypto_device)

lemma demo_apart:
  "apart demo_bus [(Skeymod, 0), (Req_data, 0), (Key_data, 0)]" "apart demo_bus [(Kdfv1_key, 0)]"
  "apart demo_bus [(Skeymod, 0), (Rpmb_keyblob, 0), (Key_data, 0)]"
  by (simp_all add: apart_def demo_bus_def)

lemma demo_test_layout: "test_layout demo_bus"
  by (simp add: test_layout_def apart_def demo_bus_def)

section \<open>A session\<close>

lemma demo_crypto_sel:
  "k_get_msg demo_crypto = k_get_msg demo_env" "k_read_msg demo_crypto = k_read_msg demo_env"
  "ERR_GENERIC demo_crypto = ERR_GENERIC demo_env" "ERR_NO_MEMORY demo_crypto = ERR_NO_MEMORY demo_env"
  "ERR_BAD_LEN demo_crypto = ERR_BAD_LEN demo_env" "ERR_NOT_ENOUGH_BUFFER demo_crypto = ERR_NOT_ENOUGH_BUFFER demo_env"
  "HWKEY_NO_ERROR demo_crypto = HWKEY_NO_ERROR demo_env" "HWKEY_ERR_NOT_FOUND demo_crypto = HWKEY_ERR_NOT_FOUND demo_env"
  "list_in_list demo_crypto = list_in_list demo_env" "list_add_tail demo_crypto = list_add_tail demo_env"
  "list_delete demo_crypto = list_delete demo_env" "k_set_cookie demo_crypto = k_set_cookie demo_env"
  "k_close demo_crypto = k_close demo_env" "k_port_create demo_crypto = k_port_create demo_env"
  "k_accept demo_crypto = k_accept demo_env" "k_put_msg demo_crypto = k_put_msg demo_env"
  "k_send_msg demo_crypto = k_send_msg demo_env" "k_wait_any demo_crypto = k_wait_any demo_env"
  by (simp_all add: demo_crypto_def)

lemma demo_crypto_env_ok: "env_ok dw_cookies demo_crypto"
proof -
  have "ipc_ok demo_crypto = ipc_ok demo_env" "err_ok demo_crypto = err_ok demo_env"
    "list_ok demo_crypto = list_ok demo_env" "cookies_ok ck demo_crypto = cookies_ok ck demo_env" for ck
    by (simp_all only: ipc_ok_def err_ok_def list_ok_def cookies_ok_def demo_crypto_sel)
  moreover have "quiet dw_cookies demo_crypto" by (simp add: quiet_def demo_crypto_def demo_env_def)
  ultimately show ?thesis
    by (simp add: env_ok_def demo_crypto_dma_ok demo_ipc_ok demo_err_ok demo_list_ok demo_cookies_ok)
qed

lemma demo_crypto_boot_live: "boot_live demo_crypto 0x40000000 (demo_bus (Job_dsc, 0))"
  unfolding boot_live_def using demo_crypto_live
  by (simp add: demo_crypto_def demo_env_def MAP_FAILED_def RDSTA_IF0_def rng_live_def)

text \<open>The program as it is loaded, with a client that connects and asks for the RPMB key.\<close>

definition demo_session :: "demo_world hwkey_state" where
  "demo_session = demo_boot\<lparr>world := demo_world0\<lparr>dw_events := [(1, {IPC_HANDLE_POLL_READY}), (11, {IPC_HANDLE_POLL_MSG})],
     dw_inbox := (\<lambda>_. [])(11 := [(le32 0 @ le32 0 @ le32 0) @ demo_rpmb_id])\<rparr>\<rparr>"

lemma demo_session_boot: "boot_state dw_cookies demo_session"
  using demo_boot_state by (simp add: boot_state_def demo_session_def key_bufs_def demo_world0_def skeymod_def)

lemma demo_session_kbox:
  "strncmp_eq (kbox_field demo_session 0 4) (clit KEYPACK_MAGIC) 4" "of_le32 (kbox_field demo_session 4 4) = RPMBKEY_LEN"
  "kbox_field demo_session 8 80 = replicate 80 5"
proof -
  show "strncmp_eq (kbox_field demo_session 0 4) (clit KEYPACK_MAGIC) 4"
    using demo_magic by (simp add: kbox_field_def demo_session_def)
  show "of_le32 (kbox_field demo_session 4 4) = RPMBKEY_LEN" "kbox_field demo_session 8 80 = replicate 80 5"
    by (simp_all add: kbox_field_def demo_session_def demo_boot_def demo_kbox_def clit_def kbox_layout le32_def of_le32_def)
qed

lemma demo_session_init:
  "\<exists>s1. main_init demo_crypto demo_session = Inr (0, s1) \<and> app_inv dw_cookies s1 \<and>
    dw_events (world s1) = [(1, {IPC_HANDLE_POLL_READY}), (11, {IPC_HANDLE_POLL_MSG})] \<and> dw_inbox (world s1) = dw_inbox (world demo_session) \<and>
    dw_cookies (world s1) 1 = Some Hwkey_port_cookie"
proof -
  obtain s1 where s1: "main_init demo_crypto demo_session = Inr (0, s1)"
    using main_init_secrets [OF demo_crypto_env_ok demo_session_boot demo_crypto_boot_live demo_session_kbox(1)
        demo_device_ok demo_apart(2)] by blast
  have "keeps (\<lambda>w. (dw_events w, dw_inbox w)) (main_init demo_crypto)"
    by (rule init_keeps) (simp_all add: quiet_def demo_crypto_def demo_env_def)
  then have "dw_events (world s1) = dw_events (world demo_session)" "dw_inbox (world s1) = dw_inbox (world demo_session)"
    using s1 unfolding keeps_def by blast+
  moreover have "dw_cookies (world s1) 1 = Some Hwkey_port_cookie"
    using s1 unfolding main_init_def hwkey_init_srv_provider_def hwkey_start_service_def
    by (auto simp: prog_simps sys_def demo_crypto_def demo_env_def split: sum.splits if_splits)
  moreover have "app_inv dw_cookies s1"
    using wpD [OF wp_main_init [OF demo_crypto_env_ok demo_session_boot] s1] by blast
  ultimately show ?thesis using s1 by (auto simp: demo_session_def)
qed

lemma demo_session_reach:
  "\<exists>s2 p. reach demo_crypto demo_session s2 \<and> key_ctxs s2 p = Some (new_key_ctx p 11 (replicate 16 1)) \<and>
    dw_inbox (world s2) = dw_inbox (world demo_session) \<and> dw_events (world s2) = [(11, {IPC_HANDLE_POLL_MSG})] \<and>
    dw_cookies (world s2) 11 = Some (Hwkey_chan_cookie p)"
proof -
  obtain s1 where s1: "main_init demo_crypto demo_session = Inr (0, s1)" "app_inv dw_cookies s1"
    "dw_events (world s1) = [(1, {IPC_HANDLE_POLL_READY}), (11, {IPC_HANDLE_POLL_MSG})]"
    "dw_inbox (world s1) = dw_inbox (world demo_session)"
    "dw_cookies (world s1) 1 = Some Hwkey_port_cookie" using demo_session_init by blast
  let ?p = "heap_next s1"
  have "?p \<noteq> 0" using s1(2) by (simp add: app_inv_def hwkey_inv_def)
  then have "\<exists>s2. loop_turn demo_crypto s1 = Inr (None, s2) \<and>
      key_ctxs s2 ?p = Some (new_key_ctx ?p 11 (replicate 16 1)) \<and> dw_inbox (world s2) = dw_inbox (world s1) \<and>
      dw_events (world s2) = [(11, {IPC_HANDLE_POLL_MSG})] \<and> dw_cookies (world s2) 11 = Some (Hwkey_chan_cookie ?p)"
    using s1(3-5)
    by (simp add: loop_turn_def prog_simps sys_def demo_crypto_def demo_env_def demo_wait_any_def dispatch_event_def
        hwkey_port_handler_def tipc_handle_port_errors_def calloc_def)
  then obtain s2 where s2: "loop_turn demo_crypto s1 = Inr (None, s2)"
    "key_ctxs s2 ?p = Some (new_key_ctx ?p 11 (replicate 16 1))"
    "dw_inbox (world s2) = dw_inbox (world demo_session)" "dw_events (world s2) = [(11, {IPC_HANDLE_POLL_MSG})]"
    "dw_cookies (world s2) 11 = Some (Hwkey_chan_cookie ?p)" using s1(4) by auto
  have "reach demo_crypto demo_session s2" using s1(1) s2(1) by (blast intro: reach.intros)
  with s2 show ?thesis by blast
qed

end
