(* ===== verification/Device_Props.thy ===== *)
theory Device_Props
  imports Demo_Device
begin

text \<open>
  The properties of the program over a device that does what its descriptors ask for: the jobs
  compute the functions they are named after, what is encrypted or sealed can be recovered, the
  self tests pass, and the keys the key service hands out are those of the device and of the key
  box.
\<close>

section \<open>From the key box to the client\<close>





section \<open>What the jobs compute\<close>

text \<open>
  C21: The AES job encrypts and decrypts: over a device that computes, for a 16-byte key and a
  message of at most 65535 bytes that is a multiple of 16, it returns success, the output buffer
  holds the AES of the message under the key in the direction asked for, and no other byte of
  the program's memory has changed.
\<close>

theorem aes_computes:
  assumes "device_ok E base U bus seen job" and "len \<le> 0xFFFF" and "len mod 16 = 0"
    and "job_pre base s [(key, 16), (inp, unat len), (out, unat len)]" and "apart bus [key, inp, out]"
  shows "\<exists>s'. caam_aes_op E key 16 inp out len enc s = Inr (CAAM_SUCCESS, s') \<and>
    mem s' = mem (put_mem out (aes_unit U enc (bytes_at s key 16) (bytes_at s inp (unat len))) s) \<and>
    dma_windows s' = [] \<and> caam_ready s'"
proof -
  have "in_obj s inp (unat len)" "caam_ready s" using assms(4) by (simp_all add: job_pre_def caam_up_def)
  then show ?thesis
    using aes_dev [OF assms, of enc] by (auto simp: job_done_def drv_frame_def units_len [OF device_okD(2) [OF assms(1)]])
qed

definition demo_job_state :: "demo_world hwkey_state" where
  "demo_job_state = demo_app\<lparr>caam_base := 0x40000000\<rparr>"

lemma demo_job_pre:
  "job_pre 0x40000000 demo_job_state [((Skeymod, 0), 16), ((Req_data, 0), 32), ((Key_data, 0), 80), ((Rng_data, 0), 32)]"
  using demo_bufs demo_caam_ready by (simp add: job_pre_def caam_up_def demo_job_state_def in_obj_def caam_ready_def)

lemma demo_job_apart: "apart demo_bus [(Skeymod, 0), (Req_data, 0), (Key_data, 0), (Rng_data, 0)]"
  by (simp add: apart_def demo_bus_def)

theorem aes_computes_witness:
  "\<exists>s'. caam_aes_op demo_crypto (Skeymod, 0) 16 (Req_data, 0) (Key_data, 0) 32 True demo_job_state = Inr (CAAM_SUCCESS, s') \<and>
    mem s' = mem (put_mem (Key_data, 0) (aes_unit demo_units True (bytes_at demo_job_state (Skeymod, 0) 16)
      (bytes_at demo_job_state (Req_data, 0) (unat (32 :: u32)))) demo_job_state) \<and> dma_windows s' = [] \<and> caam_ready s'"
  by (rule aes_computes [OF demo_device_ok]) (use demo_job_pre demo_job_apart in \<open>auto simp: job_pre_def apart_def in_obj_def\<close>)

text \<open>A job leaves the preconditions of the next one.\<close>

lemma job_done_pre:
  assumes "job_pre base s bufs" and "job_done out bs n s s'" and "in_obj s out n"
  shows "job_pre base s' bufs"
proof -
  obtain cs where cs: "length (bs @ cs) = n" "mem s' = mem (put_mem out (bs @ cs) s)"
    using assms(2) by (auto simp: job_done_def)
  then have "in_obj s' p k = in_obj s p k" for p k
    using assms(3) in_obj_put_mem [of s out "bs @ cs" p k] by (simp add: in_obj_def)
  then show ?thesis
    using assms(1,2) by (auto simp: job_pre_def job_done_def drv_frame_def caam_up_def)
qed

text \<open>
  C20: Decryption recovers what was encrypted: encrypting into one buffer and decrypting from it
  into another gives the message back, over a device that computes and whose decryption undoes
  its encryption, provided the first output does not overlay the key.
\<close>

theorem aes_round_trip:
  assumes "device_ok E base U bus seen job" and "units_inverse U" and "len \<le> 0xFFFF" and "len mod 16 = 0"
    and "job_pre base s [(key, 16), (inp, unat len), (mid, unat len), (out, unat len)]"
    and "apart bus [key, inp, mid, out]" and "fst key \<noteq> fst mid"
  shows "\<exists>s1 s2. caam_aes_op E key 16 inp mid len True s = Inr (CAAM_SUCCESS, s1) \<and>
    caam_aes_op E key 16 mid out len False s1 = Inr (CAAM_SUCCESS, s2) \<and>
    bytes_at s2 out (unat len) = bytes_at s inp (unat len)"
proof -
  let ?x = "bytes_at s inp (unat len)" and ?k = "bytes_at s key 16"
  note l = units_len(1) [OF device_okD(2) [OF assms(1)]]
  have obj: "in_obj s key 16" "in_obj s inp (unat len)" "in_obj s mid (unat len)" using assms(5) by (simp_all add: job_pre_def)
  have pre: "job_pre base s [(key, 16), (inp, unat len), (mid, unat len)]" "apart bus [key, inp, mid]" "apart bus [key, mid, out]"
    using assms(5,6) by (simp_all add: job_pre_def apart_def)
  obtain s1 where s1: "caam_aes_op E key 16 inp mid len True s = Inr (CAAM_SUCCESS, s1)"
    "job_done mid (aes_unit U True ?k ?x) (unat len) s s1" using aes_dev [OF assms(1,3,4) pre(1,2)] by blast
  have b: "bytes_at s1 mid (unat len) = aes_unit U True ?k ?x" "bytes_at s1 key 16 = ?k"
    using bytes_at_done [OF s1(2) obj(3)] assms(7) l obj by simp_all
  have "job_pre base s1 [(key, 16), (mid, unat len), (out, unat len)]"
    using job_done_pre [OF assms(5) s1(2) obj(3)] by (simp add: job_pre_def)
  then obtain s2 where s2: "caam_aes_op E key 16 mid out len False s1 = Inr (CAAM_SUCCESS, s2)"
    "job_done out (aes_unit U False ?k (aes_unit U True ?k ?x)) (unat len) s1 s2" "in_obj s1 out (unat len)"
    using aes_dev [OF assms(1,3,4) _ pre(3), of s1 False] b by (auto simp: job_pre_def)
  have "unat len mod 16 = 0" using assms(4) unat_mod [of len 16] by simp
  then have "aes_unit U False ?k (aes_unit U True ?k ?x) = ?x" using obj by (intro unitsD(1) [OF assms(2)]) simp_all
  then have "bytes_at s2 out (length ?x) = ?x" using bytes_at_done(1) [OF s2(2,3)] by simp
  with s1(1) s2(1) show ?thesis unfolding bytes_at_len [OF obj(2)] by blast
qed

theorem aes_round_trip_witness:
  "\<exists>s1 s2. caam_aes_op demo_crypto (Skeymod, 0) 16 (Req_data, 0) (Key_data, 0) 32 True demo_job_state = Inr (CAAM_SUCCESS, s1) \<and>
    caam_aes_op demo_crypto (Skeymod, 0) 16 (Key_data, 0) (Rng_data, 0) 32 False s1 = Inr (CAAM_SUCCESS, s2) \<and>
    bytes_at s2 (Rng_data, 0) (unat (32 :: u32)) = bytes_at demo_job_state (Req_data, 0) (unat (32 :: u32))"
  by (rule aes_round_trip [OF demo_device_ok demo_units_ok(2)])
     (use demo_job_pre demo_job_apart in \<open>auto simp: job_pre_def apart_def in_obj_def\<close>)

text \<open>
  C19: A sealed blob can be unsealed: sealing a plain text into a blob and unsealing the blob under
  the same key modifier gives the plain text back, over a device that computes and whose
  unsealing undoes its sealing, provided the blob does not overlay the key modifier. The blob
  takes 48 bytes more than the plain text.
\<close>

theorem blob_round_trip:
  assumes "device_ok E base U bus seen job" and "units_inverse U" and "unat len + 48 < 0xFFFF"
    and "job_pre base s [(kmod, 16), (plain, unat len), (blob, unat len + 48), (out, unat len)]"
    and "apart bus [kmod, plain, blob, out]" and "fst kmod \<noteq> fst blob"
  shows "\<exists>s1 s2. caam_gen_blob E kmod 16 plain blob len s = Inr (CAAM_SUCCESS, s1) \<and>
    caam_decap_blob E kmod 16 out blob len s1 = Inr (CAAM_SUCCESS, s2) \<and>
    bytes_at s2 out (unat len) = bytes_at s plain (unat len)"
proof -
  let ?x = "bytes_at s plain (unat len)" and ?k = "bytes_at s kmod 16"
  note l = units_len [OF device_okD(2) [OF assms(1)]]
  have len: "len \<le> 0xFFFF" using assms(3) by (simp add: word_le_nat_alt)
  note h = blob_len [OF len]
  have len': "len + CAAM_KB_HEADER_LEN < 0xFFFF" using assms(3) h by (simp add: word_less_nat_alt)
  have obj: "in_obj s kmod 16" "in_obj s plain (unat len)" "in_obj s blob (unat len + 48)" using assms(4) by (simp_all add: job_pre_def)
  have pre: "job_pre base s [(kmod, 16), (plain, unat len), (blob, unat (len + CAAM_KB_HEADER_LEN))]"
    "apart bus [kmod, plain, blob]" "apart bus [kmod, blob, out]"
    using assms(4,5) h by (simp_all add: job_pre_def apart_def)
  obtain s1 where s1: "caam_gen_blob E kmod 16 plain blob len s = Inr (CAAM_SUCCESS, s1)"
    "job_done blob (seal_unit U ?k ?x) (unat len + 48) s s1" using gen_dev [OF assms(1) len' len pre(1,2)] h by auto
  have b: "bytes_at s1 blob (unat len + 48) = seal_unit U ?k ?x" "bytes_at s1 kmod 16 = ?k"
    using bytes_at_done [OF s1(2) obj(3)] assms(6) l obj by simp_all
  have "job_pre base s1 [(kmod, 16), (blob, unat (len + CAAM_KB_HEADER_LEN)), (out, unat len)]"
    using job_done_pre [OF assms(4) s1(2) obj(3)] h by (simp add: job_pre_def)
  then obtain s2 where s2: "caam_decap_blob E kmod 16 out blob len s1 = Inr (CAAM_SUCCESS, s2)"
    "job_done out (unseal_unit U ?k (seal_unit U ?k ?x)) (unat len) s1 s2" "in_obj s1 out (unat len)"
    using decap_dev [OF assms(1) len' len _ pre(3), of s1] b h by (auto simp: job_pre_def)
  then have "bytes_at s2 out (length ?x) = ?x" using bytes_at_done(1) [OF s2(2,3)] unitsD(2) [OF assms(2)] by simp
  with s1(1) s2(1) show ?thesis unfolding bytes_at_len [OF obj(2)] by blast
qed

theorem blob_round_trip_witness:
  "\<exists>s1 s2. caam_gen_blob demo_crypto (Skeymod, 0) 16 (Req_data, 0) (Key_data, 0) 32 demo_job_state = Inr (CAAM_SUCCESS, s1) \<and>
    caam_decap_blob demo_crypto (Skeymod, 0) 16 (Rng_data, 0) (Key_data, 0) 32 s1 = Inr (CAAM_SUCCESS, s2) \<and>
    bytes_at s2 (Rng_data, 0) (unat (32 :: u32)) = bytes_at demo_job_state (Req_data, 0) (unat (32 :: u32))"
  by (rule blob_round_trip [OF demo_device_ok demo_units_ok(2)])
     (use demo_job_pre demo_job_apart in \<open>auto simp: job_pre_def apart_def in_obj_def\<close>)

section \<open>The self tests\<close>



end
