(* ===== verification/Tipc_Props.thy ===== *)
theory Tipc_Props
  imports Demo_Env
begin

text \<open>The properties of the IPC helpers of main.c.\<close>

section \<open>Receiving\<close>

text \<open>
  C31: Receiving a header and a payload always returns. With a negative result nothing of the
  program has changed; otherwise the whole header has arrived, the payload fits the buffer
  offered, only that many bytes at its start have changed, and the result is the number of bytes
  received.
\<close>

theorem recv_two_segments_bounds:
  assumes ok: "ipc_ok E" and err: "err_ok E" and obj: "in_obj s p n"
  shows "\<exists>rc hdr s'. tipc_recv_two_segments E chan h p n s = Inr ((rc, hdr), s') \<and>
    (rc < 0 \<and> (\<exists>w. s' = s\<lparr>world := w\<rparr>) \<or>
     (\<exists>bs w. length hdr = h \<and> length bs \<le> n \<and> rc = int (h + length bs) \<and> s' = (put_mem p bs s)\<lparr>world := w\<rparr>))"
proof -
  have "rets (tipc_recv_two_segments E chan h p n) (\<lambda>_ _. True) s" by (rule rets_recv_two [OF ok obj])
  moreover have "wp (tipc_recv_two_segments E chan h p n) (\<lambda>(rc, hdr) s'. rc < 0 \<and> (\<exists>w. s' = s\<lparr>world := w\<rparr>) \<or>
     (\<exists>bs w. length hdr = h \<and> length bs \<le> n \<and> rc = int (h + length bs) \<and> s' = (put_mem p bs s)\<lparr>world := w\<rparr>)) s"
    by (rule wp_recv_two [OF ok err obj]) auto
  ultimately show ?thesis by (auto simp: rets_def wp_def)
qed

theorem recv_two_segments_bounds_witness:
  "\<exists>rc hdr s'. tipc_recv_two_segments demo_env 11 12 (Key_data, 0) 32 demo_app = Inr ((rc, hdr), s') \<and>
    (rc < 0 \<and> (\<exists>w. s' = demo_app\<lparr>world := w\<rparr>) \<or>
     (\<exists>bs w. length hdr = 12 \<and> length bs \<le> 32 \<and> rc = int (12 + length bs) \<and> s' = (put_mem (Key_data, 0) bs demo_app)\<lparr>world := w\<rparr>))"
  by (rule recv_two_segments_bounds [OF demo_ipc_ok demo_err_ok demo_bufs(3)])

text \<open>
  C32: A message of an unexpected size is refused and removed from the queue: a single buffer
  takes only messages of exactly its length, and a header with a payload no message shorter
  than the header; the caller gets ERR_BAD_LEN and nothing of the message is read.
\<close>

theorem recv_bad_length:
  assumes "k_get_msg E chan (world s) = ((0, mi), w)" and "msg_len mi \<noteq> len" and "msg_len mi < hdr_len"
  shows "tipc_recv_single_buf E chan len s = Inr ((ERR_BAD_LEN E, []), s\<lparr>world := k_put_msg E chan (msg_id mi) w\<rparr>) \<and>
    tipc_recv_two_segments E chan hdr_len p n s = Inr ((ERR_BAD_LEN E, []), s\<lparr>world := k_put_msg E chan (msg_id mi) w\<rparr>)"
  using assms by (simp add: tipc_recv_single_buf_def tipc_recv_two_segments_def prog_simps sys_def sys_do_def)

definition demo_short :: "demo_world hwkey_state" where
  "demo_short = demo_app\<lparr>world := (world demo_app)\<lparr>dw_inbox := (\<lambda>_. [])(11 := [[1, 2]])\<rparr>\<rparr>"

theorem recv_bad_length_witness:
  "tipc_recv_single_buf demo_env 11 4 demo_short = Inr ((- 3, []), demo_app\<lparr>world := (world demo_app)\<lparr>dw_inbox := (\<lambda>_. [])\<rparr>\<rparr>) \<and>
   tipc_recv_two_segments demo_env 11 12 (Key_data, 0) 32 demo_short =
     Inr ((- 3, []), demo_app\<lparr>world := (world demo_app)\<lparr>dw_inbox := (\<lambda>_. [])\<rparr>\<rparr>)"
proof -
  have "k_get_msg demo_env 11 (world demo_short) = ((0, \<lparr>msg_len = 2, msg_id = 1\<rparr>), world demo_short)"
    by (simp add: demo_env_def demo_get_msg_def demo_short_def)
  from recv_bad_length [OF this, of 4 12 "(Key_data, 0)" 32] show ?thesis
    by (simp add: demo_env_def demo_short_def fun_upd_idem)
qed

section \<open>The hex dump\<close>




end
