(* ===== verification/Platform.thy ===== *)
theory Platform
  imports Soc_Config
begin

text \<open>
  The kernel side of the repository (platform/imx): the boot-time memory mappings and the
  RAM arena (platform.c), the debug UART (drivers/imx_uart.c, debug.c), the TrustZone
  address space controller (tzasc.c, tzasc.h, tzasc_regions.h) and the start of the second
  core (secondary_init.c). The LK kernel functions these call, the hardware behind the
  registers and the linker's constants are the fields of \<open>plat_env\<close>.
\<close>

section \<open>Environment and state\<close>

datatype arch_timer = CNTV | CNTPS | CNTP

datatype mmu_flag = MMU_INITIAL_MAPPING_FLAG_DYNAMIC | MMU_INITIAL_MAPPING_FLAG_DEVICE

record mmu_initial_mapping =
  map_phys :: u32
  map_virt :: u32
  map_size :: u32
  map_flags :: "mmu_flag set"
  map_name :: "byte list option"

datatype arena_flag = PMM_ARENA_FLAG_KMAP

record pmm_arena =
  arena_name :: "byte list"
  arena_base :: u32
  arena_size :: u32
  arena_flags :: "arena_flag set"

record 'w plat_env =
  p_mach :: mach
  p_board :: board
  with_tzasc :: bool
  TIMER_ARM_GENERIC_SELECTED :: arch_timer
  KERNEL_BASE :: u32
  KERNEL_LOAD_OFFSET :: u32
  p_read :: "u32 \<Rightarrow> 'w \<Rightarrow> u32 \<times> 'w"
  p_write :: "u32 \<Rightarrow> u32 \<Rightarrow> 'w \<Rightarrow> 'w"
  p_fuel :: nat
  pmm_add_arena :: "pmm_arena \<Rightarrow> 'w \<Rightarrow> 'w"
  vmm_alloc_physical :: "string \<Rightarrow> u32 \<Rightarrow> u32 \<Rightarrow> u32 \<Rightarrow> 'w \<Rightarrow> int \<times> 'w"
  arm_gic_init :: "'w \<Rightarrow> 'w"
  arm_generic_timer_init :: "nat \<Rightarrow> 'w \<Rightarrow> 'w"
  virt_timer_init :: "'w \<Rightarrow> 'w"
  thread_sleep :: "nat \<Rightarrow> 'w \<Rightarrow> 'w"
  platform_secondary_entry_pa :: u32

record 'w plat_state =
  pworld :: 'w
  mmu_mappings :: "mmu_initial_mapping list"
  ram_arena :: pmm_arena

definition READ32 :: "'w plat_env \<Rightarrow> u32 \<Rightarrow> ('w plat_state, u32) prog" where
  "READ32 P a = (\<lambda>s. case p_read P a (pworld s) of (v, w) \<Rightarrow> Inr (v, s\<lparr>pworld := w\<rparr>))"

definition pdo :: "('w \<Rightarrow> 'w) \<Rightarrow> ('w plat_state, unit) prog" where
  "pdo f = mmod (\<lambda>s. s\<lparr>pworld := f (pworld s)\<rparr>)"

definition WRITE32 :: "'w plat_env \<Rightarrow> u32 \<Rightarrow> u32 \<Rightarrow> ('w plat_state, unit) prog" where
  "WRITE32 P v a = pdo (p_write P v a)"

section \<open>The debug UART\<close>

datatype uart_reg = URXD | UTXD | UCR1 | UCR2 | UCR3 | UCR4 | UFCR | USR1 | USR2 | UESC | UTIM
  | UBIR | UBMR | UBRC | UTS

fun uart_off :: "uart_reg \<Rightarrow> u32" where
  "uart_off URXD = 0x0"
| "uart_off UTXD = 0x40"
| "uart_off UCR1 = 0x80"
| "uart_off UCR2 = 0x84"
| "uart_off UCR3 = 0x88"
| "uart_off UCR4 = 0x8c"
| "uart_off UFCR = 0x90"
| "uart_off USR1 = 0x94"
| "uart_off USR2 = 0x98"
| "uart_off UESC = 0x9c"
| "uart_off UTIM = 0xa0"
| "uart_off UBIR = 0xa4"
| "uart_off UBMR = 0xa8"
| "uart_off UBRC = 0xac"
| "uart_off UTS = 0xb4"

definition URXD_RX_DATA :: u32 where "URXD_RX_DATA = 0xFF"
definition UTS_TXEMPTY :: u32 where "UTS_TXEMPTY = push_bit 6 1"
definition UTS_RXEMPTY :: u32 where "UTS_RXEMPTY = push_bit 5 1"

definition UART_BASE :: "'w plat_env \<Rightarrow> u32" where
  "UART_BASE P = SOC_REGS_VIRT (soc (p_mach P)) + (CONFIG_CONSOLE_TTY_BASE (p_board P) - SOC_REGS_PHY (soc (p_mach P)))"

text \<open>\<^verbatim>\<open>while (cond(READ32(a)));\<close>, with fuel.\<close>

fun spin :: "'w plat_env \<Rightarrow> nat \<Rightarrow> u32 \<Rightarrow> (u32 \<Rightarrow> bool) \<Rightarrow> ('w plat_state, unit) prog" where
  "spin P 0 a busy = mstop NoReturn"
| "spin P (Suc n) a busy = mbind (READ32 P a) (\<lambda>v. if busy v then spin P n a busy else mret ())"

definition uart_init :: "('w plat_state, unit) prog" where
  "uart_init = mret ()"

definition uart_flush_tx :: "'w plat_env \<Rightarrow> ('w plat_state, unit) prog" where
  "uart_flush_tx P = spin P (p_fuel P) (UART_BASE P + uart_off UTS) (\<lambda>v. v AND UTS_TXEMPTY = 0)"

definition uart_getc :: "'w plat_env \<Rightarrow> bool \<Rightarrow> ('w plat_state, int) prog" where
  "uart_getc P wait =
     (let rest = mbind (READ32 P (UART_BASE P + uart_off URXD)) (\<lambda>v. mret (uint (v AND URXD_RX_DATA))) in
      if wait then
        mthen (spin P (p_fuel P) (UART_BASE P + uart_off UTS) (\<lambda>v. v AND UTS_RXEMPTY \<noteq> 0)) rest
      else
        mbind (READ32 P (UART_BASE P + uart_off UTS)) (\<lambda>v.
        if v AND UTS_RXEMPTY = 0 then mret (- 1) else rest))"

text \<open>The recursive call of \<^verbatim>\<open>uart_putc\<close> sends a carriage return before a line feed.\<close>

function uart_putc :: "'w plat_env \<Rightarrow> byte \<Rightarrow> ('w plat_state, int) prog" where
  "uart_putc P c =
     mthen (if c = 10 then mthen (uart_putc P 13) (mret ()) else mret ())
     (mthen (WRITE32 P (ucast c) (UART_BASE P + uart_off UTXD))
     (mthen (spin P (p_fuel P) (UART_BASE P + uart_off UTS) (\<lambda>v. v AND UTS_TXEMPTY = 0))
     (mret 0)))"
  by pat_completeness auto
termination
  by (relation "measure (\<lambda>(_, c). if c = 10 then 1 else 0)") auto

declare uart_putc.simps [simp del]

definition platform_dputc :: "'w plat_env \<Rightarrow> byte \<Rightarrow> ('w plat_state, unit) prog" where
  "platform_dputc P c = mthen (uart_putc P c) (mret ())"

definition platform_dgetc :: "'w plat_env \<Rightarrow> bool \<Rightarrow> ('w plat_state, int) prog" where
  "platform_dgetc P wait = mthen (if wait then pdo (thread_sleep P 100) else mret ()) (mret (- 1))"

section \<open>The TrustZone address space controller\<close>

definition TZ_ACTION :: "mach \<Rightarrow> u32" where "TZ_ACTION m = TZ_BASE_VIRT (soc m) + 0x004"
definition TZ_INT_CLEAR :: "mach \<Rightarrow> u32" where "TZ_INT_CLEAR m = TZ_BASE_VIRT (soc m) + 0x014"
definition TZ_REGION_BASE :: "mach \<Rightarrow> u32" where "TZ_REGION_BASE m = TZ_BASE_VIRT (soc m) + 0x100"

definition TZ_GET_REGION_ADDR :: "mach \<Rightarrow> u32 \<Rightarrow> u32" where
  "TZ_GET_REGION_ADDR m n = TZ_REGION_BASE m + n * 0x10"

definition TZ_SP_NS_W :: u32 where "TZ_SP_NS_W = push_bit 0 0x1"
definition TZ_SP_NS_R :: u32 where "TZ_SP_NS_R = push_bit 1 0x1"
definition TZ_SP_S_W :: u32 where "TZ_SP_S_W = push_bit 2 0x1"
definition TZ_SP_S_R :: u32 where "TZ_SP_S_R = push_bit 3 0x1"
definition TZ_SP_SHIFT :: nat where "TZ_SP_SHIFT = 28"

definition TZ_ATTR_SP_S_WR_ONLR :: u32 where
  "TZ_ATTR_SP_S_WR_ONLR = 0x0 OR push_bit TZ_SP_SHIFT (TZ_SP_S_W OR TZ_SP_S_R)"

definition TZ_ATTR_SP_ALL :: u32 where
  "TZ_ATTR_SP_ALL = 0x0 OR push_bit TZ_SP_SHIFT (TZ_SP_S_W OR TZ_SP_S_R OR TZ_SP_NS_R OR TZ_SP_NS_W)"

definition TZ_REGION_SIZE_32M :: u32 where "TZ_REGION_SIZE_32M = 0x18"
definition TZ_REGION_SIZE_512M :: u32 where "TZ_REGION_SIZE_512M = 0x1C"
definition TZ_REGION_SIZE_4G :: u32 where "TZ_REGION_SIZE_4G = 0x1F"
definition TZ_REGION_SIZE_SHIFT :: nat where "TZ_REGION_SIZE_SHIFT = 1"

definition TZ_ATTR_REGION_SIZE :: "u32 \<Rightarrow> u32" where
  "TZ_ATTR_REGION_SIZE sz = 0x0 OR push_bit TZ_REGION_SIZE_SHIFT sz"

definition TZ_ATTR_DISABLE_REGION :: u32 where "TZ_ATTR_DISABLE_REGION = 0x0"
definition TZ_REGION_ENABLE :: u32 where "TZ_REGION_ENABLE = 0x1"

definition TZ_ATTR :: "u32 \<Rightarrow> u32 \<Rightarrow> u32 \<Rightarrow> u32 \<Rightarrow> u32" where
  "TZ_ATTR sp sub_dis sz en = 0x0 OR (sp OR sub_dis OR sz OR en)"

lemmas tz_defs = TZ_SP_NS_W_def TZ_SP_NS_R_def TZ_SP_S_W_def TZ_SP_S_R_def TZ_SP_SHIFT_def
  TZ_ATTR_SP_S_WR_ONLR_def TZ_ATTR_SP_ALL_def TZ_REGION_SIZE_32M_def TZ_REGION_SIZE_512M_def
  TZ_REGION_SIZE_4G_def TZ_REGION_SIZE_SHIFT_def TZ_ATTR_REGION_SIZE_def TZ_ATTR_DISABLE_REGION_def
  TZ_REGION_ENABLE_def TZ_ATTR_def

record tzasc_region =
  addr_l :: u32
  addr_h :: u32
  attr :: u32

text \<open>\<^verbatim>\<open>tzasc_regions\<close>: each SoC has its own header with the table.\<close>

definition imx6ul_tzasc_regions :: "tzasc_region list" where
  "imx6ul_tzasc_regions =
     [\<lparr>addr_l = 0, addr_h = 0,
       attr = TZ_ATTR TZ_ATTR_SP_ALL TZ_ATTR_DISABLE_REGION (TZ_ATTR_REGION_SIZE TZ_REGION_SIZE_4G) TZ_REGION_ENABLE\<rparr>,
      \<lparr>addr_l = 0x80000000, addr_h = 0,
       attr = TZ_ATTR TZ_ATTR_SP_ALL TZ_ATTR_DISABLE_REGION (TZ_ATTR_REGION_SIZE TZ_REGION_SIZE_512M) TZ_REGION_ENABLE\<rparr>,
      \<lparr>addr_l = MEMBASE, addr_h = 0x0,
       attr = TZ_ATTR TZ_ATTR_SP_S_WR_ONLR TZ_ATTR_DISABLE_REGION (TZ_ATTR_REGION_SIZE TZ_REGION_SIZE_32M) TZ_REGION_ENABLE\<rparr>]"

definition imx7d_tzasc_regions :: "tzasc_region list" where
  "imx7d_tzasc_regions =
     [\<lparr>addr_l = 0, addr_h = 0,
       attr = TZ_ATTR TZ_ATTR_SP_ALL TZ_ATTR_DISABLE_REGION (TZ_ATTR_REGION_SIZE TZ_REGION_SIZE_4G) TZ_REGION_ENABLE\<rparr>,
      \<lparr>addr_l = 0x80000000, addr_h = 0,
       attr = TZ_ATTR TZ_ATTR_SP_ALL TZ_ATTR_DISABLE_REGION (TZ_ATTR_REGION_SIZE TZ_REGION_SIZE_512M) TZ_REGION_ENABLE\<rparr>,
      \<lparr>addr_l = MEMBASE, addr_h = 0x0,
       attr = TZ_ATTR TZ_ATTR_SP_S_WR_ONLR TZ_ATTR_DISABLE_REGION (TZ_ATTR_REGION_SIZE TZ_REGION_SIZE_32M) TZ_REGION_ENABLE\<rparr>]"

fun tzasc_regions :: "mach \<Rightarrow> tzasc_region list" where
  "tzasc_regions MACH_IMX6 = imx6ul_tzasc_regions"
| "tzasc_regions MACH_IMX7 = imx7d_tzasc_regions"

lemma tzasc_table:
  "tzasc_regions m =
     [\<lparr>addr_l = 0, addr_h = 0, attr = 0xF000003F\<rparr>, \<lparr>addr_l = 0x80000000, addr_h = 0, attr = 0xF0000039\<rparr>,
      \<lparr>addr_l = MEMBASE, addr_h = 0, attr = 0xC0000031\<rparr>]"
  by (cases m) (simp_all add: imx6ul_tzasc_regions_def imx7d_tzasc_regions_def tz_defs)

fun tzasc_config :: "'w plat_env \<Rightarrow> u32 \<Rightarrow> tzasc_region list \<Rightarrow> ('w plat_state, unit) prog" where
  "tzasc_config P i [] = mret ()"
| "tzasc_config P i (r # rs) =
     mthen (WRITE32 P (addr_l r) (TZ_GET_REGION_ADDR (p_mach P) i))
     (mthen (WRITE32 P (addr_h r) (TZ_GET_REGION_ADDR (p_mach P) i + 0x4))
     (mthen (WRITE32 P (attr r) (TZ_GET_REGION_ADDR (p_mach P) i + 0x8))
     (tzasc_config P (i + 1) rs)))"

definition initial_tzasc :: "'w plat_env \<Rightarrow> tzasc_region list \<Rightarrow> ('w plat_state, unit) prog" where
  "initial_tzasc P rs =
     mthen (WRITE32 P 0x2 (TZ_ACTION (p_mach P)))
     (mthen (tzasc_config P 0 rs)
     (WRITE32 P 0 (TZ_INT_CLEAR (p_mach P))))"

section \<open>The platform\<close>

fun ARM_GENERIC_TIMER_INT :: "arch_timer \<Rightarrow> nat" where
  "ARM_GENERIC_TIMER_INT CNTV = 27"
| "ARM_GENERIC_TIMER_INT CNTPS = 29"
| "ARM_GENERIC_TIMER_INT CNTP = 30"

definition mmu_initial_mappings :: "'w plat_env \<Rightarrow> mmu_initial_mapping list" where
  "mmu_initial_mappings P =
     [\<lparr>map_phys = MEMBASE + KERNEL_LOAD_OFFSET P, map_virt = KERNEL_BASE P + KERNEL_LOAD_OFFSET P,
       map_size = MEMSIZE, map_flags = {MMU_INITIAL_MAPPING_FLAG_DYNAMIC}, map_name = Some (clit ''ram'')\<rparr>,
      \<lparr>map_phys = SOC_REGS_PHY (soc (p_mach P)), map_virt = SOC_REGS_VIRT (soc (p_mach P)),
       map_size = SOC_REGS_SIZE (soc (p_mach P)), map_flags = {MMU_INITIAL_MAPPING_FLAG_DEVICE},
       map_name = Some (clit ''soc'')\<rparr>,
      \<lparr>map_phys = 0, map_virt = 0, map_size = 0, map_flags = {}, map_name = None\<rparr>]"

definition ram_arena0 :: "'w plat_env \<Rightarrow> pmm_arena" where
  "ram_arena0 P = \<lparr>arena_name = clit ''ram'', arena_base = MEMBASE + KERNEL_LOAD_OFFSET P,
     arena_size = MEMSIZE, arena_flags = {PMM_ARENA_FLAG_KMAP}\<rparr>"

text \<open>The search for the dynamic mapping of the RAM; the comparison reads the name.\<close>

fun find_ram :: "mmu_initial_mapping list \<Rightarrow> ('w plat_state, unit) prog" where
  "find_ram [] = mret ()"
| "find_ram (m # ms) =
     (if MMU_INITIAL_MAPPING_FLAG_DYNAMIC \<notin> map_flags m then find_ram ms else
      mbind (mderef (\<lambda>s. case map_name m of None \<Rightarrow> None | Some nm \<Rightarrow> strcmp_eq nm (arena_name (ram_arena s)))) (\<lambda>same.
      if same then mmod (\<lambda>s. s\<lparr>ram_arena := (ram_arena s)\<lparr>arena_base := map_phys m, arena_size := map_size m,
                        arena_flags := {PMM_ARENA_FLAG_KMAP}\<rparr>\<rparr>)
      else find_ram ms))"

definition platform_init_mmu_mappings :: "'w plat_env \<Rightarrow> ('w plat_state, unit) prog" where
  "platform_init_mmu_mappings P =
     mbind (mget mmu_mappings) (\<lambda>ms.
     mthen (find_ram ms)
     (mbind (mget ram_arena) (\<lambda>a. pdo (pmm_add_arena P a))))"

definition generic_arm64_map_regs ::
  "'w plat_env \<Rightarrow> string \<Rightarrow> u32 \<Rightarrow> u32 \<Rightarrow> u32 \<Rightarrow> ('w plat_state, unit) prog" where
  "generic_arm64_map_regs P nm vaddr pa sz = pdo (\<lambda>w. snd (vmm_alloc_physical P nm sz vaddr pa w))"

definition platform_after_vm_init :: "'w plat_env \<Rightarrow> ('w plat_state, unit) prog" where
  "platform_after_vm_init P =
     mthen (generic_arm64_map_regs P ''gic'' (GIC_BASE_VIRT (soc (p_mach P))) (GIC_BASE_PHY (soc (p_mach P))) (GIC_REG_SIZE (soc (p_mach P))))
     (mthen (pdo (arm_gic_init P))
     (mthen (pdo (arm_generic_timer_init P (ARM_GENERIC_TIMER_INT (TIMER_ARM_GENERIC_SELECTED P))))
     (if with_tzasc P then initial_tzasc P (tzasc_regions (p_mach P)) else mret ())))"

definition platform_per_cpu_virt_timer_init :: "'w plat_env \<Rightarrow> ('w plat_state, unit) prog" where
  "platform_per_cpu_virt_timer_init P = pdo (virt_timer_init P)"

text \<open>\<^verbatim>\<open>imx7d_smp_init\<close> tells the boot ROM where the second core starts.\<close>

definition imx7d_smp_init :: "'w plat_env \<Rightarrow> ('w plat_state, unit) prog" where
  "imx7d_smp_init P = WRITE32 P (platform_secondary_entry_pa P) SRC_GPR3"

section \<open>Rules\<close>

lemma platform_runs [prog_simps]:
  "READ32 P a s = (case p_read P a (pworld s) of (v, w) \<Rightarrow> Inr (v, s\<lparr>pworld := w\<rparr>))"
  "pdo f s = Inr ((), s\<lparr>pworld := f (pworld s)\<rparr>)"
  "WRITE32 P v a s = Inr ((), s\<lparr>pworld := p_write P v a (pworld s)\<rparr>)"
  by (simp_all add: READ32_def pdo_def WRITE32_def prog_simps)

text \<open>The register writes of a sequence, in order.\<close>

fun writes :: "'w plat_env \<Rightarrow> (u32 \<times> u32) list \<Rightarrow> 'w \<Rightarrow> 'w" where
  "writes P [] w = w"
| "writes P ((a, v) # ws) w = writes P ws (p_write P v a w)"

lemma writes_append [simp]: "writes P (xs @ ys) w = writes P ys (writes P xs w)"
  by (induction xs arbitrary: w) auto

fun region_writes :: "mach \<Rightarrow> u32 \<Rightarrow> tzasc_region list \<Rightarrow> (u32 \<times> u32) list" where
  "region_writes m i [] = []"
| "region_writes m i (r # rs) =
     [(TZ_GET_REGION_ADDR m i, addr_l r), (TZ_GET_REGION_ADDR m i + 4, addr_h r),
      (TZ_GET_REGION_ADDR m i + 8, attr r)] @ region_writes m (i + 1) rs"

definition tzasc_writes :: "mach \<Rightarrow> tzasc_region list \<Rightarrow> (u32 \<times> u32) list" where
  "tzasc_writes m rs = (TZ_ACTION m, 2) # region_writes m 0 rs @ [(TZ_INT_CLEAR m, 0)]"

lemma tzasc_config_writes:
  "tzasc_config P i rs s = Inr ((), s\<lparr>pworld := writes P (region_writes (p_mach P) i rs) (pworld s)\<rparr>)"
  by (induction rs arbitrary: i s) (simp_all add: prog_simps)

lemma initial_tzasc_writes:
  "initial_tzasc P rs s = Inr ((), s\<lparr>pworld := writes P (tzasc_writes (p_mach P) rs) (pworld s)\<rparr>)"
  by (simp add: initial_tzasc_def prog_simps tzasc_config_writes tzasc_writes_def)

text \<open>
  How the controller decides (ARM TrustZone address space controller TZC-380): a region
  that is enabled covers the \<open>2 ^ (size + 1)\<close> bytes at its base, and of the regions that
  cover an address the one with the highest number gives the permissions.
\<close>

definition region_covers :: "tzasc_region \<Rightarrow> u32 \<Rightarrow> bool" where
  "region_covers r a \<longleftrightarrow> attr r AND 1 = 1 \<and>
     unat a div 2 ^ (unat (drop_bit 1 (attr r) AND 0x3f) + 1) =
     unat (addr_l r) div 2 ^ (unat (drop_bit 1 (attr r) AND 0x3f) + 1)"

fun tzasc_lookup :: "tzasc_region list \<Rightarrow> u32 \<Rightarrow> tzasc_region option" where
  "tzasc_lookup [] a = None"
| "tzasc_lookup (r # rs) a =
     (case tzasc_lookup rs a of Some x \<Rightarrow> Some x | None \<Rightarrow> if region_covers r a then Some r else None)"

definition tzasc_ns_access :: "tzasc_region list \<Rightarrow> u32 \<Rightarrow> bool" where
  "tzasc_ns_access rs a = (case tzasc_lookup rs a of None \<Rightarrow> False
     | Some r \<Rightarrow> drop_bit TZ_SP_SHIFT (attr r) AND (TZ_SP_NS_R OR TZ_SP_NS_W) \<noteq> 0)"

definition tzasc_s_access :: "tzasc_region list \<Rightarrow> u32 \<Rightarrow> bool" where
  "tzasc_s_access rs a = (case tzasc_lookup rs a of None \<Rightarrow> False
     | Some r \<Rightarrow> drop_bit TZ_SP_SHIFT (attr r) AND (TZ_SP_S_R OR TZ_SP_S_W) = TZ_SP_S_R OR TZ_SP_S_W)"

lemma tzasc_attrs:
  "map attr (tzasc_regions m) = [0xF000003F, 0xF0000039, 0xC0000031]"
  by (simp add: tzasc_table)

lemma tzasc_covers:
  "region_covers (tzasc_regions m ! 0) a" 
  "region_covers (tzasc_regions m ! 2) a \<longleftrightarrow> unat MEMBASE \<le> unat a \<and> unat a < unat MEMBASE + unat MEMSIZE"
proof -
  have b: "unat a < 2 ^ 32" using unsigned_less [of a] by simp
  then show "region_covers (tzasc_regions m ! 0) a"
    by (simp add: region_covers_def tzasc_table tz_defs)
  show "region_covers (tzasc_regions m ! 2) a \<longleftrightarrow> unat MEMBASE \<le> unat a \<and> unat a < unat MEMBASE + unat MEMSIZE"
    using b by (simp add: region_covers_def tzasc_table tz_defs MEMBASE_def MEMSIZE_def) arith
qed

end
