(* ===== verification/Platform_Props.thy ===== *)
theory Platform_Props
  imports Platform
begin

text \<open>
  The properties of the kernel side: the secure memory after the TrustZone controller has been
  set up, the address map, the RAM arena, and the debug UART.
\<close>

section \<open>The TrustZone controller\<close>

text \<open>
  The regions as the controller sees them: what its registers hold. The controller's register
  file is the observation \<open>regs\<close> of the world; writing a register sets it and no other.
\<close>

definition read_region :: "mach \<Rightarrow> (u32 \<Rightarrow> u32) \<Rightarrow> u32 \<Rightarrow> tzasc_region" where
  "read_region m rf i = \<lparr>addr_l = rf (TZ_GET_REGION_ADDR m i), addr_h = rf (TZ_GET_REGION_ADDR m i + 4),
     attr = rf (TZ_GET_REGION_ADDR m i + 8)\<rparr>"

definition register_file :: "'w plat_env \<Rightarrow> ('w \<Rightarrow> u32 \<Rightarrow> u32) \<Rightarrow> bool" where
  "register_file P regs \<longleftrightarrow> (\<forall>v a w. regs (p_write P v a w) = (regs w)(a := v))"

lemma regs_writes:
  assumes "register_file P regs"
  shows "regs (writes P ws w) = foldl (\<lambda>f (a, v). f(a := v)) (regs w) ws"
  using assms by (induction ws arbitrary: w) (auto simp: register_file_def)

lemma tzasc_read_back:
  assumes "register_file P regs"
  shows "map (read_region (p_mach P) (regs (writes P (tzasc_writes (p_mach P) (tzasc_regions (p_mach P))) w))) [0, 1, 2] = tzasc_regions (p_mach P)"
  unfolding regs_writes [OF assms]
  by (cases "p_mach P")
     (simp_all add: tzasc_writes_def tzasc_table read_region_def TZ_GET_REGION_ADDR_def TZ_REGION_BASE_def
       TZ_ACTION_def TZ_INT_CLEAR_def)

text \<open>The third region decides inside the secure memory, one of the first two outside.\<close>

lemma tzasc_decides:
  "tzasc_ns_access (tzasc_regions m) a \<longleftrightarrow> \<not> (unat MEMBASE \<le> unat a \<and> unat a < unat MEMBASE + unat MEMSIZE)"
  "tzasc_s_access (tzasc_regions m) a"
proof -
  obtain r0 r1 r2 where rs: "tzasc_regions m = [r0, r1, r2]" by (simp add: tzasc_table)
  have at: "attr r0 = 0xF000003F" "attr r1 = 0xF0000039" "attr r2 = 0xC0000031"
    using tzasc_attrs [of m] by (simp_all add: rs)
  have c: "region_covers r0 a" "region_covers r2 a \<longleftrightarrow> unat MEMBASE \<le> unat a \<and> unat a < unat MEMBASE + unat MEMSIZE"
    using tzasc_covers [of m a] by (simp_all add: rs)
  show "tzasc_ns_access (tzasc_regions m) a \<longleftrightarrow> \<not> (unat MEMBASE \<le> unat a \<and> unat a < unat MEMBASE + unat MEMSIZE)"
    "tzasc_s_access (tzasc_regions m) a"
    using c by (auto simp: tzasc_ns_access_def tzasc_s_access_def rs at tz_defs)
qed

text \<open>
  C24: After the platform initialisation with the controller built in, the regions in the
  controller's registers keep the normal world out of exactly the memory of the secure kernel,
  from MEMBASE for MEMSIZE bytes, and let the secure world access every address, on both SoCs.
\<close>

theorem tzasc_secures_kernel_memory:
  assumes "with_tzasc P" and "register_file P regs"
  shows "\<exists>s'. platform_after_vm_init P s = Inr ((), s') \<and>
    (let rs = map (read_region (p_mach P) (regs (pworld s'))) [0, 1, 2] in
     \<forall>a. tzasc_s_access rs a \<and>
       (tzasc_ns_access rs a \<longleftrightarrow> \<not> (unat MEMBASE \<le> unat a \<and> unat a < unat MEMBASE + unat MEMSIZE)))"
  using assms
  by (simp add: platform_after_vm_init_def prog_simps generic_arm64_map_regs_def initial_tzasc_writes Let_def
      tzasc_read_back [OF assms(2), simplified] tzasc_decides)

record demo_plat_world =
  pw_regs :: "u32 \<Rightarrow> u32"
  pw_tx :: "u32 list"
  pw_arenas :: "pmm_arena list"

definition demo_plat :: "demo_plat_world plat_env" where
  "demo_plat = \<lparr>p_mach = MACH_IMX7, p_board = Sdb7d, with_tzasc = True, TIMER_ARM_GENERIC_SELECTED = CNTV,
     KERNEL_BASE = 0x9e000000, KERNEL_LOAD_OFFSET = 0x8000,
     p_read = (\<lambda>a w. (0x60, w)),
     p_write = (\<lambda>v a w. w\<lparr>pw_regs := (pw_regs w)(a := v), pw_tx := pw_tx w @ (if a = 0x70860040 then [v] else [])\<rparr>),
     p_fuel = 5, pmm_add_arena = (\<lambda>a w. w\<lparr>pw_arenas := pw_arenas w @ [a]\<rparr>),
     vmm_alloc_physical = (\<lambda>nm sz va pa w. (0, w)), arm_gic_init = id, arm_generic_timer_init = (\<lambda>_. id),
     virt_timer_init = id, thread_sleep = (\<lambda>_. id), platform_secondary_entry_pa = 0x9e000040\<rparr>"

definition demo_plat_state :: "demo_plat_world plat_state" where
  "demo_plat_state = \<lparr>pworld = \<lparr>pw_regs = (\<lambda>_. 0), pw_tx = [], pw_arenas = []\<rparr>,
     mmu_mappings = mmu_initial_mappings demo_plat, ram_arena = ram_arena0 demo_plat\<rparr>"

theorem tzasc_secures_kernel_memory_witness:
  "\<exists>s'. platform_after_vm_init demo_plat demo_plat_state = Inr ((), s') \<and>
    (let rs = map (read_region (p_mach demo_plat) (pw_regs (pworld s'))) [0, 1, 2] in
     \<forall>a. tzasc_s_access rs a \<and>
       (tzasc_ns_access rs a \<longleftrightarrow> \<not> (unat MEMBASE \<le> unat a \<and> unat a < unat MEMBASE + unat MEMSIZE)))"
  by (rule tzasc_secures_kernel_memory) (simp_all add: demo_plat_def register_file_def)

text \<open>
  Setting the controller up writes each register once, every one of them aligned to a word
  and inside the controller's block, the regions between the action register and the clearing
  of the interrupt.
\<close>

lemma tzasc_writes_in_block:
  "initial_tzasc P (tzasc_regions (p_mach P)) s =
     Inr ((), s\<lparr>pworld := writes P (tzasc_writes (p_mach P) (tzasc_regions (p_mach P))) (pworld s)\<rparr>) \<and>
   distinct (map fst (tzasc_writes (p_mach P) (tzasc_regions (p_mach P)))) \<and> length (tzasc_writes (p_mach P) (tzasc_regions (p_mach P))) = 11 \<and>
   hd (tzasc_writes (p_mach P) (tzasc_regions (p_mach P))) = (TZ_ACTION (p_mach P), 2) \<and>
   last (tzasc_writes (p_mach P) (tzasc_regions (p_mach P))) = (TZ_INT_CLEAR (p_mach P), 0) \<and>
   list_all (\<lambda>(a, _). a mod 4 = 0 \<and> block_in a 4 (TZ_BASE_VIRT (soc (p_mach P))) (TZ_REG_SIZE (soc (p_mach P)))) (tzasc_writes (p_mach P) (tzasc_regions (p_mach P)))"
  by (cases "p_mach P")
     (simp_all add: initial_tzasc_writes tzasc_writes_def tzasc_table TZ_GET_REGION_ADDR_def TZ_REGION_BASE_def
       TZ_ACTION_def TZ_INT_CLEAR_def block_in_def)

section \<open>The address map\<close>


section \<open>The RAM arena\<close>



section \<open>The debug UART\<close>

text \<open>
  A UART whose transmitter empties: what has been sent is the observation \<open>tx\<close> of the world,
  writing the transmit register appends to it, reading changes nothing of it, and the status
  register shows the empty transmitter within the fuel of the wait.
\<close>

definition reads :: "'w plat_env \<Rightarrow> u32 \<Rightarrow> nat \<Rightarrow> 'w \<Rightarrow> 'w" where
  "reads P a k = ((\<lambda>w. snd (p_read P a w)) ^^ k)"

definition uart_sends :: "'w plat_env \<Rightarrow> ('w \<Rightarrow> u32 list) \<Rightarrow> bool" where
  "uart_sends P tx \<longleftrightarrow> (\<forall>v w. tx (p_write P v (UART_BASE P + uart_off UTXD) w) = tx w @ [v]) \<and>
     (\<forall>a w. tx (snd (p_read P a w)) = tx w) \<and>
     (\<forall>w. \<exists>k<p_fuel P. fst (p_read P (UART_BASE P + uart_off UTS) (reads P (UART_BASE P + uart_off UTS) k w)) AND UTS_TXEMPTY \<noteq> 0)"

lemma spin_returns:
  assumes "\<exists>k<n. \<not> busy (fst (p_read P a (reads P a k (pworld s))))"
    and tx: "\<And>w. tx (snd (p_read P a w)) = tx w"
  shows "\<exists>w. spin P n a busy s = Inr ((), s\<lparr>pworld := w\<rparr>) \<and> tx w = tx (pworld s)"
  using assms(1)
proof (induction n arbitrary: s)
  case (Suc n)
  obtain v w where r: "p_read P a (pworld s) = (v, w)" by fastforce
  then have w: "tx w = tx (pworld s)" "reads P a k w = reads P a (Suc k) (pworld s)" for k
    using tx [of "pworld s"] funpow_swap1 [of "\<lambda>w. snd (p_read P a w)" k "pworld s"] by (simp_all add: reads_def)
  show ?case
  proof (cases "busy v")
    case True
    then obtain k where "k < Suc n" "\<not> busy (fst (p_read P a (reads P a k (pworld s))))" "k \<noteq> 0"
      using Suc.prems r by (metis fst_conv funpow_0 reads_def)
    then have "\<exists>k<n. \<not> busy (fst (p_read P a (reads P a k w)))" using w(2) by (cases k) auto
    then show ?thesis using Suc.IH [of "s\<lparr>pworld := w\<rparr>"] True r w by (simp add: prog_simps)
  qed (use r w in \<open>auto simp: prog_simps\<close>)
qed simp

text \<open>
  C35: \<^verbatim>\<open>uart_putc\<close> returns 0 and sends its character, and a line feed as a carriage return
  followed by a line feed; it sends nothing else.
\<close>

theorem uart_putc_sends:
  assumes "uart_sends P tx"
  shows "\<exists>w. uart_putc P c s = Inr (0, s\<lparr>pworld := w\<rparr>) \<and> tx w = tx (pworld s) @ (if c = 10 then [13, 10] else [ucast c])"
proof -
  have one: "\<exists>w. mthen (WRITE32 P (ucast c) (UART_BASE P + uart_off UTXD))
     (mthen (spin P (p_fuel P) (UART_BASE P + uart_off UTS) (\<lambda>v. v AND UTS_TXEMPTY = 0)) (mret (0 :: int))) s =
     Inr (0, s\<lparr>pworld := w\<rparr>) \<and> tx w = tx (pworld s) @ [ucast c]" for c :: byte and s
  proof -
    let ?t = "s\<lparr>pworld := p_write P (ucast c) (UART_BASE P + uart_off UTXD) (pworld s)\<rparr>"
    have "\<exists>w. spin P (p_fuel P) (UART_BASE P + uart_off UTS) (\<lambda>v. v AND UTS_TXEMPTY = 0) ?t =
        Inr ((), ?t\<lparr>pworld := w\<rparr>) \<and> tx w = tx (pworld ?t)"
      using assms by (intro spin_returns) (simp_all add: uart_sends_def)
    then show ?thesis using assms by (auto simp: prog_simps uart_sends_def)
  qed
  have cr: "\<exists>w. uart_putc P 13 s = Inr (0, s\<lparr>pworld := w\<rparr>) \<and> tx w = tx (pworld s) @ [13]" for s
    using one [of 13 s] by (subst uart_putc.simps) (simp add: prog_simps)
  show ?thesis
  proof (cases "c = 10")
    case True
    obtain w where w: "uart_putc P 13 s = Inr (0, s\<lparr>pworld := w\<rparr>)" "tx w = tx (pworld s) @ [13]"
      using cr [of s] by blast
    with one [of 10 "s\<lparr>pworld := w\<rparr>"] True show ?thesis by (subst uart_putc.simps) (auto simp: prog_simps)
  next
    case False
    with one [of c s] show ?thesis by (subst uart_putc.simps) (simp add: prog_simps)
  qed
qed

theorem uart_putc_sends_witness:
  "\<exists>w. uart_putc demo_plat 10 demo_plat_state = Inr (0, demo_plat_state\<lparr>pworld := w\<rparr>) \<and>
     pw_tx w = pw_tx (pworld demo_plat_state) @ (if (10 :: byte) = 10 then [13, 10] else [ucast (10 :: byte)])"
  by (rule uart_putc_sends)
     (auto simp: uart_sends_def demo_plat_def UART_BASE_def UTS_TXEMPTY_def intro!: exI [of _ 0])

text \<open>
  C39: Without waiting, \<^verbatim>\<open>uart_getc\<close> answers -1 and leaves the data register alone exactly when
  the status shows that the receive FIFO is not empty, that is when a character could be read;
  with an empty FIFO it returns the low byte of the data register.
\<close>

theorem uart_getc_nowait:
  assumes "p_read P (UART_BASE P + uart_off UTS) (pworld s) = (v, w)" and "p_read P (UART_BASE P + uart_off URXD) w = (d, w')"
  shows "(bit v 5 \<longrightarrow> uart_getc P False s = Inr (uint d mod 256, s\<lparr>pworld := w'\<rparr>)) \<and>
    (\<not> bit v 5 \<longrightarrow> uart_getc P False s = Inr (- 1, s\<lparr>pworld := w\<rparr>))"
proof -
  have "v AND UTS_RXEMPTY = 0 \<longleftrightarrow> \<not> bit v 5"
    using and_exp_eq_0_iff_not_bit [of v 5] by (simp add: UTS_RXEMPTY_def push_bit_eq_mult)
  moreover have "d AND URXD_RX_DATA = take_bit 8 d" by (simp add: URXD_RX_DATA_def take_bit_eq_mask mask_numeral)
  then have "uint (d AND URXD_RX_DATA) = uint d mod 256" by (simp only: unsigned_take_bit_eq) (simp add: take_bit_eq_mod)
  ultimately show ?thesis using assms by (auto simp: uart_getc_def prog_simps)
qed

theorem uart_getc_nowait_witness:
  "uart_getc demo_plat False demo_plat_state = Inr (96, demo_plat_state\<lparr>pworld := pworld demo_plat_state\<rparr>)"
proof -
  have r: "p_read demo_plat a (pworld demo_plat_state) = (0x60, pworld demo_plat_state)" for a by (simp add: demo_plat_def)
  show ?thesis using uart_getc_nowait [OF r r] by simp
qed

end
