(* ===== verification/Spec2Isabelle.thy ===== *)
theory Spec2Isabelle
  imports Hwkey_Props Hwrng_Props Caam_Props Device_Props Tipc_Props Platform_Props
begin

text \<open>
  A model of the NXP i.MX port of Trusty, with proofs.

  \<^bold>\<open>The program.\<close> The repository holds the hwcrypto application (app/hwcrypto) and the kernel's
  platform code (platform/imx). The application serves two ports. The random number service
  (hwrng_srv.c) queues requests and answers them in messages of at most 4096 bytes; the key
  service (hwkey_srv.c) hands out key slots to the applications that own them and derives keys.
  Each calls a provider (hwrng_srv_provider.c, hwkey_srv_provider.c), and both providers use the
  driver of the cryptographic accelerator CAAM (caam.c, with the registers of
  fsl_caam_internal.h), which submits descriptors through a job ring and polls for their end.
  main.c brings the driver and the providers up and then dispatches events: the kernel returns
  with an event the cookie the program has attached to its handle, which is the address of a
  handler in a static object or in the context of a channel. The platform code maps memory and
  registers (platform.c), drives the debug UART (imx_uart.c, debug.c), programs the TrustZone
  address space controller (tzasc.c) and starts the second core (secondary_init.c).

  \<^bold>\<open>How it is modelled.\<close> A C function is a program in the sense of theory \<open>Prelude\<close>: a function
  from a state to a result with a new state, or to the way it stops (an abort, a failed
  assertion, a poll that has not ended, an undefined access). The state is one record, extended
  by each component: \<open>machine\<close> (theory \<open>Trusty_Env\<close>: the opaque world, the byte objects, the open
  DMA windows, the heap), \<open>caam_state\<close> (\<open>Caam\<close>: the bases, the rings, the job), \<open>hwrng_state\<close>
  (\<open>Hwrng_Srv\<close>: port, contexts, request list), \<open>hwkey_state\<close> (\<open>Hwkey_Srv\<close>: slots, contexts, the
  length of the RPMB blob). Channel contexts are maps from addresses; freeing one removes it, and
  following a pointer to a context that is not there is an undefined access. Sizes and lengths
  are 32-bit words, with the wrap-around of the C code. Everything that is not in the repository
  (system calls, the allocator, BoringSSL's HKDF, lk/list.h, the device behind the registers, the
  constants of the Trusty headers) is a field of the record \<open>env\<close>, and what the program relies on
  is stated as the named predicates \<open>dma_ok\<close>, \<open>ipc_ok\<close>, \<open>err_ok\<close>, \<open>list_ok\<close>, \<open>quiet\<close>,
  \<open>cookies_ok\<close>, bundled as \<open>env_ok\<close>; \<open>sent_log\<close> says that an observation of the world is the list of
  the messages sent. The device may write the ranges prepared for it and
  nothing else, at any value; that it stays inside them is a fact about the descriptors it is
  given, which \<open>descriptor_lengths\<close> compares with the prepared ranges. That the device computes what
  a descriptor asks for is a hypothesis of its own, \<open>device_ok\<close> of theory \<open>Caam_Device\<close>: an interpreter
  of the words the driver writes, over cryptographic units that are parameters, says what a job
  results in, and the contract says that the memory holds these results once the job is done.

  \<^bold>\<open>The theories.\<close>
  \<^item> \<open>Prelude\<close>: programs, weakest preconditions, byte buffers, C strings. \<open>Trusty_Env\<close>: the
    environment, memory and DMA operations, the hypotheses. \<open>Soc_Config\<close>: imx-regs.h of the two
    SoCs, one record each, and the board settings.
  \<^item> \<open>Caam\<close>: registers, rings, \<^verbatim>\<open>run_job\<close>; \<open>Caam_Jobs\<close>: the blob, AES, random number, SHA-1 and
    root key jobs; \<open>Caam_Test\<close>: the self tests; \<open>Caam_Init\<close>: \<^verbatim>\<open>caam_open\<close>, \<^verbatim>\<open>init_caam_env\<close>;
    \<open>Caam_Live\<close>: when the jobs return; \<open>Caam_Device\<close>: what they compute, from the descriptors to the
    bytes in memory; \<open>Test_Device\<close>: the verdicts of the self tests.
  \<^item> \<open>Tipc\<close>: the IPC helpers of main.c. \<open>Hwrng_Srv\<close>, \<open>Hwrng_Provider\<close>, \<open>Hwkey_Srv\<close>,
    \<open>Hwkey_Provider\<close>: the services and their providers. A service sees its provider through a
    locale (\<open>rng_device\<close>, \<open>key_provider\<close>) in which its handlers are verified; the providers'
    theories interpret them on the CAAM code. \<open>Hwrng_Sends\<close>: the messages a pass over the pending
    requests sends, for a provider that sends none itself (\<open>rng_source\<close>).
  \<^item> \<open>Main_Loop\<close>: dispatch, initialisation and the event loop, with the locale \<open>event_loop\<close> and
    the reachable states. \<open>Boot_Live\<close>: the initialisation returns. \<open>Serve_Live\<close>: the handlers and
    the turns of the loop return; what this needs of a provider of keys is the locale
    \<open>live_provider\<close>, interpreted on the CAAM provider.
  \<^item> \<open>Hwkey_Spec\<close>: the specification of the key service, \<open>key_answers\<close>, a function from the client,
    its message and the state of the service to the replies it may get, and the lemmas with which
    the handlers refine it. \<open>Key_Device\<close>: the secrets of the service and the turn of the loop that
    answers the request for the RPMB slot, over a device that computes.
  \<^item> \<open>Platform\<close>: the kernel side.
  \<^item> \<open>Demo_Env\<close>: a concrete environment that satisfies every hypothesis, in which the witnesses
    run; \<open>Demo_Device\<close>: one over a device that computes, with toy units for its cryptography, and a
    session in it. \<open>Caam_Props\<close>, \<open>Device_Props\<close>, \<open>Tipc_Props\<close>, \<open>Hwrng_Props\<close>, \<open>Hwkey_Props\<close>, \<open>Platform_Props\<close> and this
    theory: the properties.

  \<^bold>\<open>What is shown.\<close> For every kernel and device that keep the documented
  contracts, the application performs no undefined access in any reachable state, whatever events
  and messages arrive: no context is used after it is freed, no buffer is overrun. With a device
  that answers, the application gets to its event loop and no turn of the loop is ever stuck. The
  key service sends exactly one reply to a message, one its specification allows, and what it
  answers never changes while it runs. Between requests the key buffer is zero; a key reaches
  only the client that owns its slot, and a derived key depends on the root key, the client's
  uuid and its input. One pass over the pending random number requests refines a pass over an
  abstract queue and sends each client that is not blocked one message; passes drain the queue.
  The driver's jobs change nothing but their output buffers and return when the device answers.
  Over a device that does what its descriptors ask for, the AES job computes AES and a decryption
  recovers the message, a blob unseals to what was sealed, the self tests pass, the root key is
  the verification blob of the key modifier in its descriptor, and the key that is sealed in the
  key box reaches the client that owns the RPMB slot, in the turn of the loop that sees its request.
  The key box is wiped from the secure RAM at start. The TrustZone regions keep the normal world
  out of exactly the kernel's memory.

  \<^bold>\<open>Partial and total statements.\<close> \<open>wp\<close> says that no undefined access happens and that a run that
  returns ends as stated; \<open>rets\<close> says that the program returns. Where an operation is meant to
  produce a result, the property states both, the second under \<open>caam_live\<close> (the device
  ends every job within the fuel of the poll and reports no error) or \<open>boot_live\<close> (besides, the
  kernel grants what the initialisation asks for, and the generator is instantiated or becomes so:
  \<open>rng_live\<close>). The events a handle can have are \<open>expected_flags\<close>; for others the source aborts. What a job
  computes is stated under \<open>device_ok\<close>, with \<open>apart\<close> for the buffers of a job: they have bus
  addresses of their own.

  \<^bold>\<open>Fuel.\<close> \<^verbatim>\<open>caam_hwrng\<close> gets one more round than the bytes it is asked for, which is enough since
  a segment is not empty (\<open>hwrng_fuel_enough\<close>). The polls of the driver and of the UART run until
  the field \<open>poll_fuel\<close> or \<open>p_fuel\<close> of the environment is used up and then count as not
  returning; \<open>poll_reg_returns\<close> says exactly when that is. \<open>main\<close> gets the number of turns of its
  endless loop; the properties hold for every number.

  \<^bold>\<open>Not modelled.\<close> vtimer.S and secondary_boot.S (assembly; \<^verbatim>\<open>virt_timer_init\<close> and the entry
  address are parameters of \<open>Platform\<close>), the build files, the manifest and the JSON constants
  (only the values the C code uses), the log messages, the printed form of the hex dump, the
  registers and commands fsl_caam_internal.h defines and no code uses, and the flags of the UART's
  registers that no code uses. platform/gic.h is empty.
\<close>

section \<open>The application\<close>

text \<open>
  C1: In every state the application reaches, whatever events and messages have arrived and
  however the kernel and the device have answered, the invariant of both services holds: the
  driver is ready with no DMA window open, the pending requests are distinct and belong to live
  channel contexts, the cookie of a channel names the live context of exactly that channel, and
  the key buffer holds no byte of a key.
\<close>

theorem reachable_invariant:
  assumes "env_ok ck E" and "boot_state ck s0" and "reach E s0 s"
  shows "hwrng_inv ck s \<and> hwkey_inv ck s \<and> caam_ready s \<and> dma_windows s = [] \<and>
    distinct (hwrng_req_list s) \<and> set (hwrng_req_list s) \<subseteq> dom (rng_ctxs s) \<and>
    all_zero (mem s Key_data) \<and>
    (\<forall>h p. (ck (world s) h = Some (Hwkey_chan_cookie p) \<longrightarrow> (\<exists>c. key_ctxs s p = Some c \<and> key_chan c = h)) \<and>
           (ck (world s) h = Some (Hwrng_chan_cookie p) \<longrightarrow> (\<exists>c. rng_ctxs s p = Some c \<and> rng_chan c = h)))"
proof -
  have inv: "hwrng_inv ck s" "hwkey_inv ck s" using reach_inv [OF assms] by (simp_all add: app_inv_def)
  then have "caam_ready s" "dma_windows s = []" "distinct (hwrng_req_list s)" "set (hwrng_req_list s) \<subseteq> dom (rng_ctxs s)"
    "all_zero (mem s Key_data)"
    by (simp_all add: hwrng_inv_def hwkey_inv_def key_ready_def key_bufs_def)
  with inv show ?thesis using hwkey_cookieD [OF inv(2)] hwrng_cookieD [OF inv(1)] by blast
qed

lemma demo_reach: "\<exists>s. reach demo_env demo_boot s"
proof -
  from main_init_rets [OF demo_env_ok demo_boot_state demo_boot_live demo_magic]
  show ?thesis by (auto simp: rets_def intro: reach.start)
qed

theorem reachable_invariant_witness:
  "\<exists>s. reach demo_env demo_boot s \<and> hwrng_inv dw_cookies s \<and> hwkey_inv dw_cookies s \<and> all_zero (mem s Key_data)"
  using demo_reach reachable_invariant [OF demo_env_ok demo_boot_state] by blast

text \<open>
  C2: The application performs no undefined access from its start, for any number of turns of
  its event loop.
\<close>

theorem main_memory_safe:
  assumes "env_ok ck E" and "boot_state ck s"
  shows "main E n s \<noteq> Inl BadAccess"
  by (rule wp_safe [OF wp_main [OF assms]])

theorem main_memory_safe_witness: "main demo_env 7 demo_boot \<noteq> Inl BadAccess"
  by (rule main_memory_safe [OF demo_env_ok demo_boot_state])

text \<open>
  C3: The application gets to its event loop: with a kernel that grants its mappings and
  allocations, a device that answers and whose generator is or can be instantiated, and a key box
  with the magic, the initialisation returns 0 (with the self tests or without), the key slots are
  installed and the key box is gone from the secure RAM. From there on the loop returns to nobody
  until \<^verbatim>\<open>wait_any\<close> fails.
\<close>

theorem main_starts:
  assumes "env_ok ck E" and "boot_state ck s" and "boot_live E base pa"
    and "strncmp_eq (kbox_field s 0 4) (clit KEYPACK_MAGIC) 4"
  shows "\<exists>s'. main_init E s = Inr (0, s') \<and> reach E s s' \<and> key_slots s' = Some (keys E) \<and>
    all_zero (take sizeof_keyslot_package (mem s' Sram)) \<and> main E n s = main_loop E n s' \<and>
    (\<forall>rc t. main_loop E n s' = Inr (rc, t) \<longrightarrow> rc < 0)"
proof -
  obtain s' where s': "main_init E s = Inr (0, s')" "key_slots s' = Some (keys E)"
    "all_zero (take sizeof_keyslot_package (mem s' Sram))"
    using rets_wp [OF main_init_rets [OF assms] wp_main_init [OF assms(1,2)]] by (auto simp: rets_def)
  have "rc < 0" if "main_loop E n t = Inr (rc, u)" for rc t u
    using that
  proof (induction n arbitrary: t)
    case (Suc n)
    then show ?case
      by (auto simp: prog_simps loop_turn_def split: sum.splits option.splits if_splits prod.splits)
  qed (simp add: prog_simps)
  with s' show ?thesis by (auto simp: main_def prog_simps intro: reach.start)
qed

theorem main_starts_witness:
  "\<exists>s'. main_init demo_cold demo_boot = Inr (0, s') \<and> reach demo_cold demo_boot s' \<and> key_slots s' = Some (keys demo_cold) \<and>
    all_zero (take sizeof_keyslot_package (mem s' Sram)) \<and> main demo_cold 3 demo_boot = main_loop demo_cold 3 s' \<and>
    (\<forall>rc t. main_loop demo_cold 3 s' = Inr (rc, t) \<longrightarrow> rc < 0)"
  by (rule main_starts [OF demo_cold_env_ok demo_boot_state demo_cold_boot_live demo_magic])

text \<open>
  C4: The event loop never gets stuck. In every state the application reaches, with a device that
  answers and an event of a kind its handle can have, the next turn of the loop returns: no
  handler aborts, fails an assertion, polls for ever or follows a dangling pointer. The turn ends
  in a reachable state again, or the loop ends because \<^verbatim>\<open>wait_any\<close> has failed.
\<close>

theorem loop_never_stuck:
  assumes "env_ok ck E" and "boot_state ck s0" and "boot_live E base pa"
    and "strncmp_eq (kbox_field s0 0 4) (clit KEYPACK_MAGIC) 4" and "reach E s0 s"
    and "\<forall>e w. k_wait_any E (world s) = ((0, e), w) \<longrightarrow> ev_event e \<subseteq> expected_flags (ev_cookie e)"
  shows "\<exists>r s'. loop_turn E s = Inr (r, s') \<and> (case r of None \<Rightarrow> reach E s0 s' | Some rc \<Rightarrow> rc < 0)"
proof -
  obtain s1 where s1: "main_init E s0 = Inr (0, s1)" "caam_base s1 = base"
    using main_init_rets [OF assms(1-4)] by (auto simp: rets_def)
  have "caam_live E (caam_base s) pa"
    using assms(3) s1(2) reach_kept [OF assms(1,2) s1(1) assms(5)] by (simp add: boot_live_def keys_kept_def)
  from loop_turn_rets [OF assms(1) reach_inv [OF assms(1,2,5)] this] assms(6)
  obtain r s' where "loop_turn E s = Inr (r, s')" "\<forall>rc. r = Some rc \<longrightarrow> rc < 0" by (auto simp: rets_def)
  with assms(5) show ?thesis by (auto split: option.splits intro: reach.turn)
qed

theorem loop_never_stuck_witness:
  "\<exists>s2 r s3. reach demo_env demo_visit s2 \<and> loop_turn demo_env s2 = Inr (r, s3)"
proof -
  have m: "strncmp_eq (kbox_field demo_visit 0 4) (clit KEYPACK_MAGIC) 4"
    using demo_magic by (simp add: kbox_field_def demo_visit_def)
  obtain s2 where s2: "reach demo_env demo_visit s2" using demo_visit_turn by blast
  from loop_never_stuck [OF demo_env_ok demo_visit_boot_state demo_boot_live m s2] show ?thesis
    using s2 demo_expected by blast
qed

text \<open>
  C9: What the key service answers does not change while it runs: from the end of the
  initialisation on, in every state the application reaches, a client gets for a message the same
  answers, whatever it and others have asked for in between. The slots are those of the provider,
  the root key and the RPMB blob are the ones unpacked at start, and the key box stays wiped.
\<close>

theorem answers_never_change:
  assumes "env_ok ck E" and "boot_state ck s0" and "main_init E s0 = Inr (0, s1)" and "reach E s0 s"
  shows "key_answers E s = key_answers E s1 \<and> key_slots s = Some (keys E) \<and> mem s Kdfv1_key = mem s1 Kdfv1_key \<and>
    mem s Rpmb_keyblob = mem s1 Rpmb_keyblob \<and> all_zero (take sizeof_keyslot_package (mem s Sram))"
proof -
  have k: "keys_kept s1 s" by (rule reach_kept [OF assms])
  have "key_slots s1 = Some (keys E)" "all_zero (take sizeof_keyslot_package (mem s1 Sram))"
    using wpD [OF wp_main_init [OF assms(1,2)] assms(3)] by simp_all
  with k show ?thesis
    by (simp add: keys_kept_def fun_eq_iff key_answers_def installed_def)
qed

theorem answers_never_change_witness:
  "\<exists>s1 s2. main_init demo_env demo_visit = Inr (0, s1) \<and> loop_turn demo_env s1 = Inr (None, s2) \<and>
    key_answers demo_env s2 = key_answers demo_env s1"
  using demo_visit_turn answers_never_change [OF demo_env_ok demo_visit_boot_state] by blast

end
